(* ===== verification/C_Prelude.thy ===== *)
theory C_Prelude
  imports Main "HOL-Library.Word" "HOL-Library.Signed_Division"
begin

text \<open>
  Vocabulary shared by every component: characters and C strings, the character
  classes of \<open>include/std_inc/ctype.h\<close>, searches in strings, fixed-size character
  arrays, signed 32-bit wrap-around, and the effects the firmware has on the outside
  world.

  A C string is the \<open>char list\<close> of its bytes before the terminating NUL. A
  pointer into a string is the suffix it points to; a NULL pointer is \<open>None\<close>.
\<close>

named_theorems ctype_simps \<open>character classes, unfolded to character codes\<close>
named_theorems cstr_simps \<open>string operations on constructor terms\<close>

unbundle bit_operations_syntax

type_synonym u8 = "8 word"
type_synonym u16 = "16 word"
type_synonym u32 = "32 word"
type_synonym cstr = "char list"

section \<open>Characters\<close>

abbreviation NUL :: char where "NUL \<equiv> CHR 0x00"
abbreviation LF :: char where "LF \<equiv> CHR 0x0A"
abbreviation CR :: char where "CR \<equiv> CHR 0x0D"
abbreviation CRLF :: cstr where "CRLF \<equiv> [CR, LF]"
abbreviation QUOT :: char where "QUOT \<equiv> CHR 0x22"

abbreviation code :: "char \<Rightarrow> nat" where "code c \<equiv> of_char c"
abbreviation byte :: "char \<Rightarrow> u8" where "byte c \<equiv> of_char c"

text \<open>
  The classes of \<open>ctype.h\<close> in the C locale (the bit table \<open>_ctype[]\<close> itself is in
  the SDK's binary): white space is the space and the codes 9 to 13, no byte above 126 is
  printable, and only ASCII letters have a case.
\<close>

definition isspace :: "char \<Rightarrow> bool" where
  "isspace c \<longleftrightarrow> code c = 32 \<or> (9 \<le> code c \<and> code c \<le> 13)"

definition isdigit :: "char \<Rightarrow> bool" where
  "isdigit c \<longleftrightarrow> 48 \<le> code c \<and> code c \<le> 57"

definition isupper :: "char \<Rightarrow> bool" where
  "isupper c \<longleftrightarrow> 65 \<le> code c \<and> code c \<le> 90"

definition islower :: "char \<Rightarrow> bool" where
  "islower c \<longleftrightarrow> 97 \<le> code c \<and> code c \<le> 122"

definition isalpha :: "char \<Rightarrow> bool" where
  "isalpha c \<longleftrightarrow> isupper c \<or> islower c"

definition isprint :: "char \<Rightarrow> bool" where
  "isprint c \<longleftrightarrow> 32 \<le> code c \<and> code c \<le> 126"

definition tolower :: "char \<Rightarrow> char" where
  "tolower c = (if isupper c then char_of (code c + 32) else c)"

definition digit_val :: "char \<Rightarrow> nat" where
  "digit_val c = code c - 48"

definition digit_char :: "nat \<Rightarrow> char" where
  "digit_char d = char_of (48 + d)"

lemmas ctype_defs [ctype_simps] =
  isspace_def isdigit_def isupper_def islower_def isalpha_def isprint_def

lemma isdigit_digit_char [simp]: "d < 10 \<Longrightarrow> isdigit (digit_char d)"
  by (simp add: isdigit_def digit_char_def)

lemma digit_val_digit_char [simp]: "d < 10 \<Longrightarrow> digit_val (digit_char d) = d"
  by (simp add: digit_val_def digit_char_def)

lemma digit_val_less: "isdigit c \<Longrightarrow> digit_val c < 10"
  by (auto simp: isdigit_def digit_val_def)

lemma isdigit_not_isspace: "isdigit c \<Longrightarrow> \<not> isspace c"
  by (auto simp: ctype_simps)

lemma isprint_not_control [simp]:
  "isprint c \<Longrightarrow> c \<noteq> NUL" "isprint c \<Longrightarrow> c \<noteq> LF" "isprint c \<Longrightarrow> c \<noteq> CR"
  by (auto simp: isprint_def)

lemma isdigit_isprint: "isdigit c \<Longrightarrow> isprint c"
  by (simp add: ctype_simps)

lemma tolower_idem [simp]: "tolower (tolower c) = tolower c"
  by (simp add: tolower_def isupper_def)

lemma tolower_NUL_iff [simp]: "tolower c = NUL \<longleftrightarrow> c = NUL"
proof
  assume "tolower c = NUL"
  then have "code (tolower c) = 0" by simp
  then have "code c = code NUL" by (auto simp: tolower_def isupper_def split: if_splits)
  then show "c = NUL" by (simp only: of_char_eq_iff)
qed (simp add: tolower_def isupper_def)

section \<open>Searching and comparing C strings\<close>

text \<open>
  \<open>strchr\<close> and \<open>strstr\<close> return a pointer into the string, here the split of the
  string at the first match: the part before it and the suffix the pointer designates.
\<close>

fun strchr :: "cstr \<Rightarrow> char \<Rightarrow> (cstr \<times> cstr) option" where
  "strchr [] c = None"
| "strchr (x # xs) c =
     (if x = c then Some ([], x # xs)
      else map_option (\<lambda>(pre, suf). (x # pre, suf)) (strchr xs c))"

fun is_prefix :: "cstr \<Rightarrow> cstr \<Rightarrow> bool" where
  "is_prefix [] ys = True"
| "is_prefix (x # xs) [] = False"
| "is_prefix (x # xs) (y # ys) = (x = y \<and> is_prefix xs ys)"

fun strstr :: "cstr \<Rightarrow> cstr \<Rightarrow> (cstr \<times> cstr) option" where
  "strstr [] pat = (if pat = [] then Some ([], []) else None)"
| "strstr (x # xs) pat =
     (if is_prefix pat (x # xs) then Some ([], x # xs)
      else map_option (\<lambda>(pre, suf). (x # pre, suf)) (strstr xs pat))"

text \<open>\<open>strcmp(a, b) == 0\<close> and \<open>strncmp(a, b, n) == 0\<close> on NUL-free contents.\<close>

definition strcmp_eq :: "cstr \<Rightarrow> cstr \<Rightarrow> bool" where
  "strcmp_eq a b \<longleftrightarrow> a = b"

definition strncmp_eq :: "cstr \<Rightarrow> cstr \<Rightarrow> nat \<Rightarrow> bool" where
  "strncmp_eq a b n \<longleftrightarrow> take n a = take n b"

lemma strchr_append:
  "strchr s c = Some (pre, suf) \<Longrightarrow> s = pre @ suf \<and> c \<notin> set pre \<and> (\<exists>t. suf = c # t)"
  by (induction s c arbitrary: pre rule: strchr.induct) (auto split: if_splits)

lemma strchr_None_iff: "strchr s c = None \<longleftrightarrow> c \<notin> set s"
  by (induction s c rule: strchr.induct) auto

lemma strchr_eq: "c \<notin> set pre \<Longrightarrow> strchr (pre @ c # suf) c = Some (pre, c # suf)"
  by (induction pre) auto

lemma is_prefix_append: "is_prefix p s \<longleftrightarrow> (\<exists>t. s = p @ t)"
  by (induction p s rule: is_prefix.induct) auto

lemma is_prefix_self_append [simp]: "is_prefix p (p @ t)"
  by (auto simp: is_prefix_append)

lemma strstr_append:
  "strstr s pat = Some (pre, suf) \<Longrightarrow> s = pre @ suf \<and> is_prefix pat suf"
  by (induction s pat arbitrary: pre rule: strstr.induct) (auto split: if_splits)

lemma strstr_None: "strstr s pat = None \<Longrightarrow> s \<noteq> u @ pat @ v"
proof (induction s pat arbitrary: u rule: strstr.induct)
  case (2 x xs pat)
  then show ?case
    by (cases u) (auto simp: is_prefix_append split: if_splits)
qed (auto split: if_splits)

lemma strstr_here [simp]: "strstr (pat @ t) pat = Some ([], pat @ t)"
proof (cases "pat @ t")
  case (Cons a list)
  then have "is_prefix pat (a # list)" by (metis is_prefix_self_append)
  then show ?thesis using Cons by simp
qed simp

text \<open>
  Both searches find the first match only: the part before it holds no earlier one.
\<close>

lemma strstr_first:
  "strstr s pat = Some (pre, suf) \<Longrightarrow> pre = a @ b \<Longrightarrow> b \<noteq> [] \<Longrightarrow> \<not> is_prefix pat (b @ suf)"
proof (induction s pat arbitrary: pre a rule: strstr.induct)
  case (2 x xs pat)
  then show ?case
    by (cases a) (auto split: if_splits dest: strstr_append)
qed (auto split: if_splits)

section \<open>Fixed-size character arrays\<close>

text \<open>
  \<open>strncpy(dst, src, n - 1); dst[n - 1] = 0;\<close> on an array of \<open>n\<close> bytes leaves the
  first \<open>n - 1\<close> bytes of \<open>src\<close>.
\<close>

definition strncpy0 :: "nat \<Rightarrow> cstr \<Rightarrow> cstr" where
  "strncpy0 n src = take (n - 1) src"

lemma strncpy0_fits: "length s < n \<Longrightarrow> strncpy0 n s = s"
  by (simp add: strncpy0_def)

lemma length_strncpy0: "0 < n \<Longrightarrow> length (strncpy0 n s) < n"
  by (simp add: strncpy0_def)

text \<open>\<open>snprintf\<close> into \<open>n\<close> bytes keeps at most \<open>n - 1\<close> of them.\<close>

definition snprintf_trunc :: "nat \<Rightarrow> cstr \<Rightarrow> cstr" where
  "snprintf_trunc n s = take (n - 1) s"

lemma snprintf_trunc_fits: "length s < n \<Longrightarrow> snprintf_trunc n s = s"
  by (simp add: snprintf_trunc_def)

lemma length_snprintf_trunc: "0 < n \<Longrightarrow> length (snprintf_trunc n s) < n"
  by (simp add: snprintf_trunc_def)

text \<open>The C string that starts a byte array: its bytes before the first NUL.\<close>

definition cstr_of :: "char list \<Rightarrow> cstr" where
  "cstr_of = takeWhile (\<lambda>c. c \<noteq> NUL)"

lemma cstr_of_no_NUL: "NUL \<notin> set (cstr_of bs)"
  unfolding cstr_of_def by (induction bs) auto

lemma cstr_of_id: "NUL \<notin> set s \<Longrightarrow> cstr_of s = s"
  unfolding cstr_of_def by (induction s) auto

section \<open>Signed 32-bit integers\<close>

text \<open>
  C's \<open>int\<close>, \<open>long\<close>, \<open>int32_t\<close> and \<open>time_t\<close> are 32 bits wide on this target. A
  value is an \<open>int\<close>; where an operation can overflow it is followed by \<open>i32\<close>, the
  two's complement wrap of the hardware.
\<close>

definition i32 :: "int \<Rightarrow> int" where
  "i32 x = (x + 2147483648) mod 4294967296 - 2147483648"

abbreviation INT_MAX :: int where "INT_MAX \<equiv> 2147483647"
abbreviation INT_MIN :: int where "INT_MIN \<equiv> - 2147483648"

definition in_i32 :: "int \<Rightarrow> bool" where
  "in_i32 x \<longleftrightarrow> INT_MIN \<le> x \<and> x \<le> INT_MAX"

lemma i32_id [simp]: "in_i32 x \<Longrightarrow> i32 x = x"
  by (simp add: i32_def in_i32_def)

lemma in_i32_i32 [simp]: "in_i32 (i32 x)"
proof -
  have "0 \<le> (x + 2147483648) mod 4294967296" "(x + 2147483648) mod 4294967296 < 4294967296"
    by simp_all
  then show ?thesis unfolding i32_def in_i32_def by linarith
qed

lemma i32_mod: "i32 x mod 4294967296 = x mod 4294967296"
  by (simp add: i32_def mod_diff_left_eq)

section \<open>Effects on the outside world\<close>

text \<open>
  What the firmware does to its environment, in the order it does it. The arguments are
  those the source passes to the SDK.
\<close>

datatype t_logLevel =
    LOG_LEVEL_NONE | LOG_LEVEL_ERROR | LOG_LEVEL_WARN | LOG_LEVEL_INFO | LOG_LEVEL_DEBUG

datatype gpio_level = GPIO_LEVEL_LOW | GPIO_LEVEL_HIGH

datatype effect =
    Uart cstr                       \<comment> \<open>\<open>UART_Write(UART1, ...)\<close>\<close>
  | TraceOut nat cstr               \<comment> \<open>\<open>Trace(level, ...)\<close>\<close>
  | LogFile cstr                    \<comment> \<open>\<open>API_FS_Write(g_log_file, ...)\<close>\<close>
  | Log t_logLevel cstr cstr        \<comment> \<open>\<open>log_message_internal(level, tag, message)\<close>\<close>
  | FsTrunc cstr                    \<comment> \<open>\<open>API_FS_Open\<close> with \<open>FS_O_TRUNC\<close>\<close>
  | FsWrite cstr cstr               \<comment> \<open>\<open>API_FS_Write\<close> to the file of this name\<close>
  | FsDelete cstr
  | GpioSet nat gpio_level
  | SmsSend cstr cstr
  | SmsList nat
  | SmsDelete int
  | NetStartAttach
  | NetStartActive cstr cstr cstr
  | NetStartDeactive nat
  | NetGetCellInfoRequst
  | StartTimer nat cstr             \<comment> \<open>period in ms, callback name\<close>
  | StopTimer cstr
  | GpsUart "char list"             \<comment> \<open>\<open>UART_Write(UART2, ...)\<close>\<close>
  | SockSend "char list"            \<comment> \<open>bytes a call of \<open>send\<close>, \<open>write\<close> or \<open>SSL_Write\<close> took\<close>
  | Sdk cstr "int list"             \<comment> \<open>any other SDK call, by name and numeric arguments\<close>
  | Restart

section \<open>Generic lemmas\<close>

lemma code_less_256: "code c < 256"
proof -
  have "code c = code c mod 256" using of_char_of [of "code c"] by simp
  then show ?thesis by (metis mod_less_divisor zero_less_numeral)
qed

lemma unat_byte: "unat (byte c) = code c"
proof -
  have "byte c = of_nat (code c)" by (rule of_nat_of_char [symmetric])
  moreover note code_less_256 [of c]
  ultimately show ?thesis by (simp add: unsigned_of_nat take_bit_nat_eq_self)
qed

lemma u8_le: "unat (c :: u8) \<le> 255"
  using unsigned_less [of c, where ?'a = nat] by simp

lemma unat_inc_u8: "unat (c :: u8) < n \<Longrightarrow> n \<le> 255 \<Longrightarrow> unat (c + 1) = Suc (unat c)"
  by (simp add: unat_word_ariths)

lemma dropWhile_hd_not: "dropWhile P xs \<noteq> [] \<Longrightarrow> \<not> P (hd (dropWhile P xs))"
  by (induction xs) auto

lemma dropWhile_unneeded: "xs = [] \<or> \<not> P (hd xs) \<Longrightarrow> dropWhile P xs = xs"
  by (cases xs) auto

lemma last_rev_dropWhile_rev:
  "rev (dropWhile P (rev xs)) \<noteq> [] \<Longrightarrow> \<not> P (last (rev (dropWhile P (rev xs))))"
  by (metis dropWhile_hd_not last_rev rev_is_Nil_conv)

end
