(* ===== verification/C_Float.thy ===== *)
theory C_Float
  imports Complex_Main C_Prelude
begin

text \<open>
  C's \<open>float\<close> and \<open>double\<close>: IEEE 754 binary32 and binary64 with round-to-nearest,
  ties to even. A finite value is the rational it denotes, so arithmetic is the exact
  operation followed by \<open>fp_round\<close>. The sign of a zero is not kept: no computation of
  the firmware produces a negative zero that it later inspects or prints.
\<close>

named_theorems fp_simps \<open>floating point operations on finite values\<close>

datatype fpv = FNaN | FInf bool | FFin rat
  \<comment> \<open>\<open>FInf True\<close> is minus infinity\<close>

section \<open>Rounding\<close>

definition pow2 :: "int \<Rightarrow> rat" where
  "pow2 e = (if 0 \<le> e then 2 ^ nat e else 1 / 2 ^ nat (- e))"

text \<open>Round a rational to an integer, ties to even.\<close>

definition rne :: "rat \<Rightarrow> int" where
  "rne x = (let f = \<lfloor>x\<rfloor>; r = x - of_int f
            in if r < 1 / 2 then f else if 1 / 2 < r then f + 1
               else if even f then f else f + 1)"

fun nlog2 :: "nat \<Rightarrow> nat" where
  "nlog2 n = (if n < 2 then 0 else Suc (nlog2 (n div 2)))"

declare nlog2.simps [simp del]

text \<open>The exponent of a positive rational: the greatest \<open>e\<close> with \<open>2 ^ e \<le> x\<close>.\<close>

definition ilog2 :: "rat \<Rightarrow> int" where
  "ilog2 x = (if 1 \<le> x then int (nlog2 (nat \<lfloor>x\<rfloor>))
              else let y = 1 / x; k = int (nlog2 (nat \<lfloor>y\<rfloor>))
                   in if pow2 k = y then - k else - (k + 1))"

text \<open>
  \<open>p\<close> is the precision in bits, \<open>emin\<close> and \<open>emax\<close> the exponents of the smallest and
  greatest normal numbers; below \<open>emin\<close> the spacing stays that of the subnormals.
\<close>

definition fp_round :: "nat \<Rightarrow> int \<Rightarrow> int \<Rightarrow> rat \<Rightarrow> fpv" where
  "fp_round p emin emax x =
     (if x = 0 then FFin 0
      else let e = max (ilog2 \<bar>x\<bar>) emin; u = pow2 (e - (int p - 1));
               v = of_int (rne (x / u)) * u
           in if pow2 (emax + 1) \<le> \<bar>v\<bar> then FInf (x < 0) else FFin v)"

definition f32_round :: "rat \<Rightarrow> fpv" where "f32_round = fp_round 24 (- 126) 127"
definition f64_round :: "rat \<Rightarrow> fpv" where "f64_round = fp_round 53 (- 1022) 1023"

section \<open>Single precision arithmetic\<close>

definition f32_of_int :: "int \<Rightarrow> fpv" where "f32_of_int n = f32_round (of_int n)"

fun f32_add :: "fpv \<Rightarrow> fpv \<Rightarrow> fpv" where
  "f32_add (FFin x) (FFin y) = f32_round (x + y)"
| "f32_add FNaN _ = FNaN"
| "f32_add _ FNaN = FNaN"
| "f32_add (FInf s) (FInf t) = (if s = t then FInf s else FNaN)"
| "f32_add (FInf s) _ = FInf s"
| "f32_add _ (FInf t) = FInf t"

fun f32_mul :: "fpv \<Rightarrow> fpv \<Rightarrow> fpv" where
  "f32_mul (FFin x) (FFin y) = f32_round (x * y)"
| "f32_mul FNaN _ = FNaN"
| "f32_mul _ FNaN = FNaN"
| "f32_mul (FInf s) (FInf t) = FInf (s \<noteq> t)"
| "f32_mul (FInf s) (FFin y) = (if y = 0 then FNaN else FInf (s \<noteq> (y < 0)))"
| "f32_mul (FFin x) (FInf t) = (if x = 0 then FNaN else FInf (t \<noteq> (x < 0)))"

fun f32_div :: "fpv \<Rightarrow> fpv \<Rightarrow> fpv" where
  "f32_div (FFin x) (FFin y) =
     (if y = 0 then (if x = 0 then FNaN else FInf (x < 0)) else f32_round (x / y))"
| "f32_div FNaN _ = FNaN"
| "f32_div _ FNaN = FNaN"
| "f32_div (FInf s) (FInf t) = FNaN"
| "f32_div (FInf s) (FFin y) = FInf (s \<noteq> (y < 0))"
| "f32_div (FFin x) (FInf t) = FFin 0"

text \<open>\<open>a < b\<close> and \<open>a == b\<close>; both are false when an operand is a NaN.\<close>

fun f32_less :: "fpv \<Rightarrow> fpv \<Rightarrow> bool" where
  "f32_less (FFin x) (FFin y) = (x < y)"
| "f32_less FNaN _ = False"
| "f32_less _ FNaN = False"
| "f32_less (FInf s) (FInf t) = (s \<and> \<not> t)"
| "f32_less (FInf s) (FFin _) = s"
| "f32_less (FFin _) (FInf t) = (\<not> t)"

fun f32_eq :: "fpv \<Rightarrow> fpv \<Rightarrow> bool" where
  "f32_eq (FFin x) (FFin y) = (x = y)"
| "f32_eq (FInf s) (FInf t) = (s = t)"
| "f32_eq _ _ = False"

fun f32_abs :: "fpv \<Rightarrow> fpv" where
  "f32_abs (FFin x) = FFin \<bar>x\<bar>"
| "f32_abs (FInf _) = FInf False"
| "f32_abs FNaN = FNaN"

text \<open>The conversion of a \<open>double\<close> to \<open>float\<close>.\<close>

fun f32_of_f64 :: "fpv \<Rightarrow> fpv" where
  "f32_of_f64 (FFin x) = f32_round x"
| "f32_of_f64 v = v"

section \<open>Properties of rounding\<close>

lemma pow2_pos [simp]: "0 < pow2 e"
  by (simp add: pow2_def)

lemma pow2_nonneg [simp]: "0 \<le> pow2 e"
  using pow2_pos [of e] by linarith

lemma pow2_neq0 [simp]: "pow2 e \<noteq> 0"
  using pow2_pos [of e] by linarith

lemma pow2_Suc: "pow2 (e + 1) = 2 * pow2 e"
proof (cases "0 \<le> e")
  case True
  then show ?thesis by (simp add: pow2_def nat_add_distrib)
next
  case False
  then have "nat (- e) = Suc (nat (- e - 1))" by simp
  then show ?thesis using False by (auto simp: pow2_def)
qed

lemma pow2_mono: "a \<le> b \<Longrightarrow> pow2 a \<le> pow2 b"
proof (induction b rule: int_ge_induct)
  case (step i)
  then show ?case using pow2_pos [of i] pow2_Suc [of i] by linarith
qed simp

lemma pow2_add: "pow2 (a + b) = pow2 a * pow2 b"
proof (induction b rule: int_induct [where k = 0])
  case base
  show ?case by (simp add: pow2_def)
next
  case (step1 i)
  then show ?case using pow2_Suc [of "a + i"] pow2_Suc [of i] by (simp add: algebra_simps)
next
  case (step2 i)
  then show ?case using pow2_Suc [of "a + (i - 1)"] pow2_Suc [of "i - 1"]
    by (simp add: algebra_simps)
qed

lemma pow2_diff: "pow2 (a - b) * pow2 b = pow2 a"
  using pow2_add [of "a - b" b] by simp

lemma rne_error: "\<bar>of_int (rne x) - x\<bar> \<le> 1 / 2"
proof -
  have "of_int \<lfloor>x\<rfloor> \<le> x" "x < of_int \<lfloor>x\<rfloor> + 1" by linarith+
  then show ?thesis unfolding rne_def Let_def by (auto split: if_splits)
qed

lemma rne_of_int [simp]: "rne (of_int n) = n"
  by (simp add: rne_def)

lemma rne_nonneg: "0 \<le> x \<Longrightarrow> 0 \<le> rne x"
  by (auto simp: rne_def Let_def)

lemma rne_le_half: "x - 1 / 2 \<le> of_int (rne x)" "of_int (rne x) \<le> x + 1 / 2"
  using rne_error [of x] by linarith+

lemma nlog2_bounds: "0 < n \<Longrightarrow> 2 ^ nlog2 n \<le> n \<and> n < 2 ^ Suc (nlog2 n)"
proof (induction n rule: nlog2.induct)
  case (1 n)
  show ?case
  proof (cases "n < 2")
    case True
    then show ?thesis using 1 by (simp add: nlog2.simps)
  next
    case False
    then have "2 ^ nlog2 (n div 2) \<le> n div 2 \<and> n div 2 < 2 ^ Suc (nlog2 (n div 2))"
      using 1 by simp
    then show ?thesis using False by (subst (1 2) nlog2.simps) auto
  qed
qed

lemma ilog2_ge1:
  assumes "1 \<le> x" shows "pow2 (ilog2 x) \<le> x \<and> x < pow2 (ilog2 x + 1)"
proof -
  let ?n = "nat \<lfloor>x\<rfloor>"
  have pos: "0 < ?n" using assms by (simp add: le_floor_iff)
  have "2 ^ nlog2 ?n \<le> ?n" "?n < 2 ^ Suc (nlog2 ?n)" using nlog2_bounds [OF pos] by auto
  then have n: "(of_nat (2 ^ nlog2 ?n) :: rat) \<le> of_nat ?n"
    "(of_nat (Suc ?n) :: rat) \<le> of_nat (2 ^ Suc (nlog2 ?n))"
    by (simp_all only: of_nat_le_iff)
  have "(of_nat ?n :: rat) = of_int \<lfloor>x\<rfloor>" using assms by simp
  moreover have "of_int \<lfloor>x\<rfloor> \<le> x" "x < of_int \<lfloor>x\<rfloor> + 1" by linarith+
  moreover have "(of_nat (Suc ?n) :: rat) = of_nat ?n + 1" by simp
  ultimately have "of_nat (2 ^ nlog2 ?n) \<le> x" "x < of_nat (2 ^ Suc (nlog2 ?n))"
    using n by linarith+
  then show ?thesis using assms by (simp add: ilog2_def pow2_def nat_add_distrib)
qed

lemma ilog2_bounds: assumes "0 < x" shows "pow2 (ilog2 x) \<le> x \<and> x < pow2 (ilog2 x + 1)"
proof (cases "1 \<le> x")
  case True
  then show ?thesis by (rule ilog2_ge1)
next
  case False
  let ?y = "1 / x" and ?k = "int (nlog2 (nat \<lfloor>1 / x\<rfloor>))"
  have y: "1 \<le> ?y" using False assms by simp
  then have k: "pow2 ?k \<le> ?y" "?y < pow2 (?k + 1)"
    using ilog2_ge1 [OF y] by (simp_all add: ilog2_def)
  have inv: "pow2 (- j) = 1 / pow2 j" for j
    using pow2_diff [of 0 j] by (simp add: field_simps pow2_def [of 0])
  show ?thesis
  proof (cases "pow2 ?k = ?y")
    case True
    then have "x = 1 / pow2 ?k" using assms by (simp add: field_simps)
    then show ?thesis using True False assms pow2_Suc [of "- ?k"] inv [of ?k]
      by (simp add: ilog2_def Let_def)
  next
    case neq: False
    then have il: "ilog2 x = - (?k + 1)" using False by (simp add: ilog2_def Let_def)
    have "1 / pow2 (?k + 1) \<le> x" using k(2) assms by (simp add: field_simps)
    moreover have "x < 1 / pow2 ?k" using k(1) neq assms by (simp add: field_simps)
    ultimately show ?thesis using inv [of "?k + 1"] inv [of ?k] by (simp add: il)
  qed
qed

lemma ilog2_less: assumes "0 < x" "x < pow2 k" shows "ilog2 x < k"
proof (rule ccontr)
  assume "\<not> ilog2 x < k"
  then have "pow2 k \<le> pow2 (ilog2 x)" by (intro pow2_mono) simp
  then show False using ilog2_bounds [OF assms(1)] assms(2) by linarith
qed

text \<open>
  Rounding a value below \<open>2 ^ k\<close> moves it by at most half a unit of its last place,
  \<open>2 ^ (k - 1 - p)\<close>.
\<close>

lemma fp_round_error:
  assumes "fp_round p emin emax x = FFin v" "\<bar>x\<bar> < pow2 k" "emin < k"
  shows "\<bar>v - x\<bar> \<le> pow2 (k - 1 - int p)"
proof (cases "x = 0")
  case True
  then show ?thesis using assms by (simp add: fp_round_def)
next
  case False
  define e where "e = max (ilog2 \<bar>x\<bar>) emin"
  define u where "u = pow2 (e - (int p - 1))"
  have v: "v = of_int (rne (x / u)) * u"
    using assms(1) False unfolding e_def u_def
    by (auto simp: fp_round_def Let_def split: if_splits)
  have upos: "0 < u" by (simp add: u_def)
  have "v - x = (of_int (rne (x / u)) - x / u) * u" using upos by (simp add: v field_simps)
  then have "\<bar>v - x\<bar> = \<bar>of_int (rne (x / u)) - x / u\<bar> * u" using upos by (simp add: abs_mult)
  also have "\<dots> \<le> 1 / 2 * u" using rne_error [of "x / u"] upos by (intro mult_right_mono) auto
  also have "\<dots> = pow2 (e - int p)" using pow2_Suc [of "e - int p"] by (simp add: u_def algebra_simps)
  also have "\<dots> \<le> pow2 (k - 1 - int p)"
  proof (rule pow2_mono)
    have "ilog2 \<bar>x\<bar> < k" using ilog2_less [of "\<bar>x\<bar>" k] False assms(2) by simp
    then show "e - int p \<le> k - 1 - int p" using assms(3) by (simp add: e_def)
  qed
  finally show ?thesis .
qed

text \<open>A value on the grid of its binade is exact; in particular every integer of at most \<open>p\<close> bits.\<close>

lemma fp_round_exact_int:
  assumes "\<bar>n\<bar> < 2 ^ p" "emin \<le> 0" "int p \<le> emax + 1"
  shows "fp_round p emin emax (of_int n) = FFin (of_int n)"
proof (cases "n = 0")
  case True
  then show ?thesis by (simp add: fp_round_def)
next
  case False
  let ?x = "of_int n :: rat"
  define e where "e = max (ilog2 \<bar>?x\<bar>) emin"
  have n1: "1 \<le> \<bar>?x\<bar>" using False by simp
  have "\<bar>?x\<bar> < of_int (2 ^ p)" using assms(1) by (simp only: of_int_abs [symmetric] of_int_less_iff)
  then have xp: "\<bar>?x\<bar> < pow2 (int p)" by (simp add: pow2_def)
  have il: "0 \<le> ilog2 \<bar>?x\<bar>" using n1 by (simp add: ilog2_def)
  have lt: "ilog2 \<bar>?x\<bar> < int p" using ilog2_less [OF _ xp] False by simp
  have e: "e \<le> int p - 1" using lt il assms(2) by (simp add: e_def)
  define u where "u = pow2 (e - (int p - 1))"
  have "?x / u = of_int (n * 2 ^ nat (int p - 1 - e))"
    using e by (auto simp: u_def pow2_def)
  then have "of_int (rne (?x / u)) * u = ?x"
    using pow2_neq0 [of "e - (int p - 1)"] by (metis rne_of_int nonzero_eq_divide_eq u_def)
  moreover have "\<not> pow2 (emax + 1) \<le> \<bar>?x\<bar>" using xp pow2_mono [OF assms(3)] by linarith
  ultimately show ?thesis using False by (simp add: fp_round_def Let_def e_def u_def)
qed

lemma f32_of_int_exact: "\<bar>n\<bar> < 2 ^ 24 \<Longrightarrow> f32_of_int n = FFin (of_int n)"
  unfolding f32_of_int_def f32_round_def by (rule fp_round_exact_int) simp_all

text \<open>Rounding of a value below \<open>2 ^ k\<close>, \<open>k \<le> 127\<close>, does not overflow.\<close>

lemma fp_round_finite:
  assumes "\<bar>x\<bar> < pow2 k" "k \<le> emax" "emin < k"
  shows "\<exists>v. fp_round p emin emax x = FFin v"
proof (cases "x = 0")
  case False
  define e where "e = max (ilog2 \<bar>x\<bar>) emin"
  define u where "u = pow2 (e - (int p - 1))"
  let ?v = "of_int (rne (x / u)) * u"
  have upos: "0 < u" by (simp add: u_def)
  have ek: "e \<le> k - 1" using ilog2_less [of "\<bar>x\<bar>" k] False assms by (simp add: e_def)
  have "?v - x = (of_int (rne (x / u)) - x / u) * u" using upos by (simp add: field_simps)
  then have "\<bar>?v - x\<bar> = \<bar>of_int (rne (x / u)) - x / u\<bar> * u" using upos by (simp add: abs_mult)
  also have "\<dots> \<le> 1 / 2 * u" using rne_error [of "x / u"] upos by (intro mult_right_mono) auto
  also have "\<dots> \<le> pow2 k"
  proof -
    have "1 / 2 * u = pow2 (e - int p)" using pow2_Suc [of "e - int p"] by (simp add: u_def algebra_simps)
    also have "\<dots> \<le> pow2 k" using ek by (intro pow2_mono) simp
    finally show ?thesis .
  qed
  finally have "\<bar>?v\<bar> < 2 * pow2 k" using assms(1) by linarith
  also have "\<dots> \<le> pow2 (emax + 1)" using assms(2) pow2_Suc [of k] pow2_mono [of "k + 1" "emax + 1"] by simp
  finally have "\<not> pow2 (emax + 1) \<le> \<bar>?v\<bar>" by simp
  then show ?thesis using False by (simp add: fp_round_def Let_def e_def u_def)
qed (simp add: fp_round_def)

lemma f32_round_finite: "\<bar>x\<bar> < pow2 k \<Longrightarrow> k \<le> 127 \<Longrightarrow> - 126 < k \<Longrightarrow> \<exists>v. f32_round x = FFin v"
  unfolding f32_round_def by (rule fp_round_finite)

lemma f32_round_error:
  "f32_round x = FFin v \<Longrightarrow> \<bar>x\<bar> < pow2 k \<Longrightarrow> - 126 < k \<Longrightarrow> \<bar>v - x\<bar> \<le> pow2 (k - 25)"
  using fp_round_error [of 24 "- 126" 127 x v k] by (simp add: f32_round_def)

text \<open>Rounding keeps the sign.\<close>

lemma fp_round_nonneg: "fp_round p emin emax x = FFin v \<Longrightarrow> 0 \<le> x \<Longrightarrow> 0 \<le> v"
  by (auto simp: fp_round_def Let_def rne_nonneg split: if_splits)

lemmas f32_simps [fp_simps] =
  f32_add.simps f32_mul.simps f32_div.simps f32_less.simps f32_eq.simps f32_abs.simps

end
