(* ===== verification/C_Stdlib.thy ===== *)
theory C_Stdlib
  imports C_Float
begin

text \<open>
  The number parsers and the formatter the firmware uses: \<open>strtol\<close> as the repository
  implements it (\<open>libs/utils/src/stdlib.c\<close>), and, of the C standard library, \<open>atoi\<close>,
  \<open>atof\<close> and \<open>printf\<close> with the flags, widths, precisions and conversions that occur
  in the sources.
\<close>

section \<open>Decimal digits\<close>

fun dec_val :: "nat \<Rightarrow> cstr \<Rightarrow> nat" where
  "dec_val acc [] = acc"
| "dec_val acc (c # cs) = dec_val (10 * acc + digit_val c) cs"

fun nat_str :: "nat \<Rightarrow> cstr" where
  "nat_str n = (if n < 10 then [digit_char n] else nat_str (n div 10) @ [digit_char (n mod 10)])"

declare nat_str.simps [simp del]

lemma dec_val_append: "dec_val a (xs @ ys) = dec_val (dec_val a xs) ys"
  by (induction xs arbitrary: a) auto

lemma nat_str_digits: "c \<in> set (nat_str n) \<Longrightarrow> isdigit c"
proof (induction n rule: nat_str.induct)
  case (1 n)
  then show ?case by (subst (asm) (2) nat_str.simps) (auto split: if_splits)
qed

lemma nat_str_not_Nil [simp]: "nat_str n \<noteq> []"
  by (subst nat_str.simps) simp

lemma dec_val_nat_str [simp]: "dec_val 0 (nat_str n) = n"
proof (induction n rule: nat_str.induct)
  case (1 n)
  then show ?case by (subst nat_str.simps) (auto simp: dec_val_append)
qed

lemma length_nat_str: "n < 10 ^ k \<Longrightarrow> 0 < k \<Longrightarrow> length (nat_str n) \<le> k"
proof (induction n arbitrary: k rule: nat_str.induct)
  case (1 n)
  show ?case
  proof (cases "n < 10")
    case True
    then show ?thesis using "1.prems" by (subst nat_str.simps) simp
  next
    case False
    then obtain j where k: "k = Suc j" using "1.prems" by (cases k) auto
    moreover have "0 < j" using False "1.prems"(1) k by (cases j) auto
    ultimately have k: "k = Suc j" "0 < j" by auto
    then have "length (nat_str (n div 10)) \<le> j" using 1 False by simp
    then show ?thesis using False k by (subst nat_str.simps) simp
  qed
qed

section \<open>\<open>strtol\<close>\<close>

text \<open>The value of a character as a digit, before the comparison with the base.\<close>

definition strtol_digit :: "char \<Rightarrow> nat option" where
  "strtol_digit c =
     (if isdigit c then Some (code c - 48)
      else if isalpha c then Some (code c - (if isupper c then 65 - 10 else 97 - 10))
      else None)"

text \<open>
  The conversion loop: the value so far, the flag (0 nothing converted, 1 converted,
  -1 overflowed) and the rest of the string. After an overflow the digits are still
  consumed.
\<close>

fun strtol_loop :: "nat \<Rightarrow> nat \<Rightarrow> nat \<Rightarrow> nat \<Rightarrow> int \<Rightarrow> cstr \<Rightarrow> nat \<times> int \<times> cstr" where
  "strtol_loop base Overflow LimitRemainder ret flag [] = (ret, flag, [])"
| "strtol_loop base Overflow LimitRemainder ret flag (ch # p) =
     (case strtol_digit ch of
        None \<Rightarrow> (ret, flag, ch # p)
      | Some d \<Rightarrow>
          if base \<le> d then (ret, flag, ch # p)
          else if flag < 0 \<or> Overflow < ret \<or> (ret = Overflow \<and> LimitRemainder < d)
          then strtol_loop base Overflow LimitRemainder ret (- 1) p
          else strtol_loop base Overflow LimitRemainder (ret * base + d) 1 p)"

definition strtol_sign :: "cstr \<Rightarrow> bool \<times> cstr" where
  "strtol_sign s = (case s of [] \<Rightarrow> (False, [])
     | c # cs \<Rightarrow> if c = CHR ''-'' then (True, cs) else if c = CHR ''+'' then (False, cs) else (False, s))"

definition strtol_prefix :: "nat \<Rightarrow> cstr \<Rightarrow> nat \<times> cstr" where
  "strtol_prefix base s =
     (if (base = 0 \<or> base = 16) \<and>
         (case s of c # x # _ \<Rightarrow> c = CHR ''0'' \<and> (x = CHR ''x'' \<or> x = CHR ''X'') | _ \<Rightarrow> False)
      then (16, drop 2 s)
      else if base = 0 then (case s of c # _ \<Rightarrow> if c = CHR ''0'' then 8 else 10 | [] \<Rightarrow> 10, s)
      else (base, s))"

definition strtol :: "cstr \<Rightarrow> nat \<Rightarrow> int \<times> cstr" where
  "strtol nptr base0 =
     (let (sign, s1) = strtol_sign (dropWhile isspace nptr);
          (base, s2) = strtol_prefix base0 s1;
          limit = (if sign then 2147483648 else 2147483647);
          (ret, flag, rest) = strtol_loop base (limit div base) (limit mod base) 0 0 s2
      in (if flag < 0 then (if sign then INT_MIN else INT_MAX)
          else if sign then - int ret else int ret,
          if flag \<noteq> 0 then rest else nptr))"

lemma strtol_digit_isdigit: "isdigit c \<Longrightarrow> strtol_digit c = Some (digit_val c)"
  by (simp add: strtol_digit_def digit_val_def)

lemma strtol_digit_None: "\<not> isdigit c \<Longrightarrow> \<not> isalpha c \<Longrightarrow> strtol_digit c = None"
  by (simp add: strtol_digit_def)

lemma strtol_digit_alpha_ge10: "\<not> isdigit c \<Longrightarrow> strtol_digit c = Some d \<Longrightarrow> 10 \<le> d"
  by (auto simp: strtol_digit_def isalpha_def isupper_def islower_def split: if_splits)

text \<open>
  The loop stays within its limit: whatever the input, the accumulated value never
  exceeds \<open>Overflow * base + LimitRemainder\<close>, so \<open>ret *= base\<close> does not wrap.
\<close>

lemma strtol_loop_bound:
  assumes "ret \<le> ovf * base + limr" "limr < base"
  shows "fst (strtol_loop base ovf limr ret flag s) \<le> ovf * base + limr"
  using assms(1)
proof (induction s arbitrary: ret flag)
  case (Cons ch p)
  have step: "ret * base + d \<le> ovf * base + limr"
    if "\<not> ovf < ret" "\<not> (ret = ovf \<and> limr < d)" "d < base" for d
  proof (cases "ret = ovf")
    case False
    then have "(Suc ret) * base \<le> ovf * base" using that by (intro mult_right_mono) auto
    then show ?thesis using that by simp
  qed (use that in simp)
  show ?case using Cons.prems
    by (auto split: option.splits intro!: Cons.IH step)
qed simp

lemma strtol_loop_overflowed:
  "\<forall>c \<in> set s. isdigit c \<Longrightarrow> strtol_loop 10 ovf limr ret (- 1) s = (ret, - 1, [])"
proof (induction s)
  case (Cons c cs)
  then show ?case by (simp add: strtol_digit_isdigit digit_val_less not_le)
qed simp

text \<open>On decimal digits the loop computes the value, or reports the overflow.\<close>

lemma strtol_loop_dec:
  assumes "\<forall>c \<in> set s. isdigit c" "ret \<le> L" "flag \<in> {0, 1}"
  shows "strtol_loop 10 (L div 10) (L mod 10) ret flag s =
    (if s = [] then (ret, flag, [])
     else if dec_val ret s \<le> L then (dec_val ret s, 1, [])
     else (fst (strtol_loop 10 (L div 10) (L mod 10) ret flag s), - 1, []))"
  using assms
proof (induction s arbitrary: ret flag)
  case (Cons c cs)
  have d: "digit_val c < 10" "strtol_digit c = Some (digit_val c)"
    using Cons.prems by (simp_all add: digit_val_less strtol_digit_isdigit)
  have mono: "a \<le> dec_val a t" for a t
  proof (induction t arbitrary: a)
    case (Cons c t)
    have "a \<le> 10 * a + digit_val c" by simp
    then show ?case using Cons [of "10 * a + digit_val c"] by (simp del: mult_le_cancel2)
  qed simp
  have cond: "(L div 10 < ret \<or> (ret = L div 10 \<and> L mod 10 < digit_val c)) \<longleftrightarrow> L < 10 * ret + digit_val c"
  proof -
    have "L = 10 * (L div 10) + L mod 10" "L mod 10 < 10" by simp_all
    then show ?thesis using d(1) by linarith
  qed
  show ?case
  proof (cases "L < 10 * ret + digit_val c")
    case True
    then have gt: "\<not> dec_val ret (c # cs) \<le> L" using mono [of "10 * ret + digit_val c" cs] by simp
    have "strtol_loop 10 (L div 10) (L mod 10) ret flag (c # cs) = (ret, - 1, [])"
      using True cond d Cons.prems strtol_loop_overflowed [of cs] by (simp add: not_le)
    then show ?thesis using gt by simp
  next
    case False
    have IH: "strtol_loop 10 (L div 10) (L mod 10) (10 * ret + digit_val c) 1 cs =
      (if cs = [] then (10 * ret + digit_val c, 1, [])
       else if dec_val (10 * ret + digit_val c) cs \<le> L then (dec_val (10 * ret + digit_val c) cs, 1, [])
       else (fst (strtol_loop 10 (L div 10) (L mod 10) (10 * ret + digit_val c) 1 cs), - 1, []))"
      using False Cons.prems by (intro Cons.IH) auto
    have step: "strtol_loop 10 (L div 10) (L mod 10) ret flag (c # cs) =
      strtol_loop 10 (L div 10) (L mod 10) (10 * ret + digit_val c) 1 cs"
      using False cond d Cons.prems by (auto simp: not_le mult.commute [of ret])
    show ?thesis unfolding step using IH False
      by (cases "cs = []"; cases "dec_val (10 * ret + digit_val c) cs \<le> L")
        (simp_all del: strtol_loop.simps)
  qed
qed simp

lemma strtol_dec:
  assumes "s \<noteq> []" "\<forall>c \<in> set s. isdigit c"
  shows "strtol s 10 = (if dec_val 0 s \<le> 2147483647 then int (dec_val 0 s) else INT_MAX, [])"
proof -
  obtain c cs where s: "s = c # cs" using assms(1) by (cases s) auto
  then have c: "isdigit c" using assms(2) by simp
  then have "dropWhile isspace s = s" "c \<noteq> CHR ''-''" "c \<noteq> CHR ''+''"
    using s isdigit_not_isspace [OF c] by (auto simp: isdigit_def)
  then have sg: "strtol_sign (dropWhile isspace s) = (False, s)" by (simp add: strtol_sign_def s)
  define L :: nat where "L = 2147483647"
  have lp: "strtol_loop 10 (L div 10) (L mod 10) 0 0 s =
    (if dec_val 0 s \<le> L then (dec_val 0 s, 1, [])
     else (fst (strtol_loop 10 (L div 10) (L mod 10) 0 0 s), - 1, []))"
    using strtol_loop_dec [of s 0 L 0] assms by simp
  have pf: "strtol_prefix 10 s = (10, s)" by (simp add: strtol_prefix_def)
  show ?thesis
  proof (cases "dec_val 0 s \<le> L")
    case True
    then show ?thesis using lp unfolding strtol_def sg prod.case pf Let_def if_False L_def [symmetric]
      by simp
  next
    case False
    then obtain r where "strtol_loop 10 (L div 10) (L mod 10) 0 0 s = (r, - 1, [])" using lp by simp
    then show ?thesis using False unfolding strtol_def sg prod.case pf Let_def if_False L_def [symmetric]
      by simp
  qed
qed

lemma strtol_nat_str: "n \<le> 2147483647 \<Longrightarrow> strtol (nat_str n) 10 = (int n, [])"
  by (subst strtol_dec) (auto dest: nat_str_digits)

text \<open>The result always fits in 32 bits.\<close>

lemma strtol_in_i32: "base \<ge> 2 \<Longrightarrow> in_i32 (fst (strtol s base))"
proof -
  assume b: "2 \<le> base"
  obtain sign s1 where sg: "strtol_sign (dropWhile isspace s) = (sign, s1)" by fastforce
  obtain b' s2 where pf: "strtol_prefix base s1 = (b', s2)" by fastforce
  have b': "2 \<le> b'" using pf b by (auto simp: strtol_prefix_def split: if_splits)
  define L :: nat where "L = (if sign then 2147483648 else 2147483647)"
  obtain ret flag rest where lp: "strtol_loop b' (L div b') (L mod b') 0 0 s2 = (ret, flag, rest)"
    by (metis prod_cases3)
  have "ret \<le> L div b' * b' + L mod b'"
    using strtol_loop_bound [of 0 "L div b'" b' "L mod b'" 0 s2] b' lp by simp
  then have "ret \<le> L" by simp
  then show ?thesis unfolding strtol_def
    using sg pf lp by (auto simp: Let_def L_def in_i32_def split: if_splits)
qed

section \<open>\<open>atoi\<close> and \<open>atof\<close>\<close>

definition atoi :: "cstr \<Rightarrow> int" where
  "atoi s = (let (sign, s1) = strtol_sign (dropWhile isspace s);
                 n = int (dec_val 0 (takeWhile isdigit s1))
             in i32 (if sign then - n else n))"

text \<open>
  The decimal literal at the start of a string as a rational: digits, an optional
  fraction and an optional exponent. No digits at all is 0.
\<close>

definition dec_exponent :: "cstr \<Rightarrow> int" where
  "dec_exponent s = (case s of
     c # cs \<Rightarrow> if c = CHR ''e'' \<or> c = CHR ''E''
                then (let (sign, t) = strtol_sign cs; n = int (dec_val 0 (takeWhile isdigit t))
                      in if sign then - n else n)
                else 0
   | [] \<Rightarrow> 0)"

definition pow10 :: "int \<Rightarrow> rat" where
  "pow10 e = (if 0 \<le> e then 10 ^ nat e else 1 / 10 ^ nat (- e))"

definition dec_literal :: "cstr \<Rightarrow> rat" where
  "dec_literal s =
     (let (sign, s1) = strtol_sign (dropWhile isspace s);
          ip = takeWhile isdigit s1; s2 = dropWhile isdigit s1;
          (fr, s3) = (case s2 of c # cs \<Rightarrow> if c = CHR ''.'' then (takeWhile isdigit cs, dropWhile isdigit cs)
                                             else ([], s2)
                                  | [] \<Rightarrow> ([], []));
          m = of_nat (dec_val 0 (ip @ fr)) * pow10 (- int (length fr))
      in if ip @ fr = [] then 0
         else (if sign then - 1 else 1) * m * pow10 (dec_exponent s3))"

definition atof :: "cstr \<Rightarrow> fpv" where
  "atof s = f64_round (dec_literal s)"

section \<open>\<open>printf\<close>\<close>

datatype fmtarg = AStr cstr | AInt int | AChr char | AFlt fpv

record fspec =
  f_minus :: bool
  f_zero :: bool
  f_width :: nat
  f_prec :: "nat option"

definition fspec0 :: fspec where
  "fspec0 = \<lparr>f_minus = False, f_zero = False, f_width = 0, f_prec = None\<rparr>"

definition int_str :: "int \<Rightarrow> cstr" where
  "int_str n = (if n < 0 then CHR ''-'' # nat_str (nat (- n)) else nat_str (nat n))"

definition zpad :: "nat \<Rightarrow> cstr \<Rightarrow> cstr" where
  "zpad w s = replicate (w - length s) (CHR ''0'') @ s"

text \<open>\<open>%.<n>f\<close>: the exact value, rounded to \<open>n\<close> decimals.\<close>

definition fixed_str :: "nat \<Rightarrow> rat \<Rightarrow> cstr" where
  "fixed_str n x =
     (let m = nat (rne (\<bar>x\<bar> * 10 ^ n))
      in (if x < 0 then ''-'' else []) @ nat_str (m div 10 ^ n) @
         (if n = 0 then [] else CHR ''.'' # zpad n (nat_str (m mod 10 ^ n))))"

fun float_str :: "nat \<Rightarrow> fpv \<Rightarrow> cstr" where
  "float_str n (FFin x) = fixed_str n x"
| "float_str n (FInf s) = (if s then ''-inf'' else ''inf'')"
| "float_str n FNaN = ''nan''"

definition pad_field :: "fspec \<Rightarrow> bool \<Rightarrow> cstr \<Rightarrow> cstr" where
  "pad_field sp numeric s =
     (let fill = f_width sp - length s
      in if f_minus sp then s @ replicate fill (CHR '' '')
         else if f_zero sp \<and> numeric
         then (case s of c # cs \<Rightarrow> if c = CHR ''-'' then c # replicate fill (CHR ''0'') @ cs
                                     else replicate fill (CHR ''0'') @ s
                        | [] \<Rightarrow> replicate fill (CHR ''0''))
         else replicate fill (CHR '' '') @ s)"

text \<open>One conversion. A conversion that does not fit its argument is undefined in C; it prints nothing here.\<close>

fun convert :: "fspec \<Rightarrow> char \<Rightarrow> fmtarg \<Rightarrow> cstr" where
  "convert sp c (AStr s) =
     (if c = CHR ''s'' then pad_field sp False (case f_prec sp of None \<Rightarrow> s | Some p \<Rightarrow> take p s) else [])"
| "convert sp c (AInt n) =
     (if c = CHR ''d'' \<or> c = CHR ''u'' then pad_field sp True (int_str n) else [])"
| "convert sp c (AChr x) = (if c = CHR ''c'' then pad_field sp False [x] else [])"
| "convert sp c (AFlt v) =
     (if c = CHR ''f'' then pad_field sp True (float_str (case f_prec sp of None \<Rightarrow> 6 | Some p \<Rightarrow> p) v) else [])"

text \<open>
  The formatter walks the format; \<open>Some sp\<close> is the state inside a conversion
  specification. A \<open>*\<close> takes its width or precision from the arguments.
\<close>

fun printf_go :: "cstr \<Rightarrow> fspec option \<Rightarrow> fmtarg list \<Rightarrow> cstr" where
  "printf_go [] st args = []"
| "printf_go (c # cs) None args =
     (if c = CHR ''%'' then printf_go cs (Some fspec0) args else c # printf_go cs None args)"
| "printf_go (c # cs) (Some sp) args =
     (if c = CHR ''%'' then c # printf_go cs None args
      else if c = CHR ''-'' then printf_go cs (Some (sp\<lparr>f_minus := True\<rparr>)) args
      else if c = CHR ''.'' then printf_go cs (Some (sp\<lparr>f_prec := Some 0\<rparr>)) args
      else if c = CHR ''*''
      then (case args of
              AInt n # as \<Rightarrow>
                printf_go cs (Some (case f_prec sp of None \<Rightarrow> sp\<lparr>f_width := nat n\<rparr>
                                                     | Some _ \<Rightarrow> sp\<lparr>f_prec := Some (nat n)\<rparr>)) as
            | _ \<Rightarrow> [])
      else if isdigit c
      then printf_go cs
             (Some (case f_prec sp of
                      None \<Rightarrow> if c = CHR ''0'' \<and> f_width sp = 0 then sp\<lparr>f_zero := True\<rparr>
                              else sp\<lparr>f_width := 10 * f_width sp + digit_val c\<rparr>
                    | Some p \<Rightarrow> sp\<lparr>f_prec := Some (10 * p + digit_val c)\<rparr>)) args
      else (case args of [] \<Rightarrow> [] | a # as \<Rightarrow> convert sp c a @ printf_go cs None as))"

definition sprintf :: "cstr \<Rightarrow> fmtarg list \<Rightarrow> cstr" where
  "sprintf fmt args = printf_go fmt None args"

definition snprintf :: "nat \<Rightarrow> cstr \<Rightarrow> fmtarg list \<Rightarrow> cstr" where
  "snprintf n fmt args = snprintf_trunc n (sprintf fmt args)"

lemma printf_literal: "CHR ''%'' \<notin> set a \<Longrightarrow> printf_go (a @ b) None args = a @ printf_go b None args"
  by (induction a) auto

lemma int_str_nonneg: "0 \<le> n \<Longrightarrow> int_str n = nat_str (nat n)"
  by (simp add: int_str_def)

lemma pad_field_plain: "f_width sp = 0 \<Longrightarrow> pad_field sp b s = s"
  by (auto simp: pad_field_def split: list.splits)

lemma pad_field_left:
  "f_minus sp \<Longrightarrow> pad_field sp b s = s @ replicate (f_width sp - length s) (CHR '' '')"
  by (simp add: pad_field_def Let_def)

lemma length_zpad: "length s \<le> w \<Longrightarrow> length (zpad w s) = w"
  by (simp add: zpad_def)

lemma dec_val_zeros [simp]: "dec_val 0 (replicate k (CHR ''0'') @ s) = dec_val 0 s"
  by (induction k) (auto simp: digit_val_def)

lemma dec_val_zpad [simp]: "dec_val 0 (zpad w (nat_str n)) = n"
  by (simp add: zpad_def)

lemmas printf_simps [cstr_simps] =
  sprintf_def fspec0_def isdigit_def digit_val_def pad_field_plain pad_field_left

section \<open>Reading back a printed number\<close>

lemma dec_val_acc: "dec_val a s = a * 10 ^ length s + dec_val 0 s"
proof (induction s arbitrary: a)
  case (Cons c s)
  show ?case using Cons [of "10 * a + digit_val c"] Cons [of "digit_val c"] by (simp add: algebra_simps)
qed simp

lemma strtol_sign_digit: "isdigit c \<Longrightarrow> strtol_sign (dropWhile isspace (c # s)) = (False, c # s)"
  by (auto simp: strtol_sign_def isdigit_not_isspace) (auto simp: isdigit_def)

lemma isdigit_dot [simp]: "\<not> isdigit (CHR ''.'')"
  by (simp add: isdigit_def)

lemma takeWhile_digits:
  assumes "\<forall>c \<in> set s. isdigit c"
  shows "takeWhile isdigit s = s" "dropWhile isdigit s = []"
  using assms by (induction s) auto

lemma takeWhile_digits_append:
  assumes "\<forall>c \<in> set s. isdigit c" "\<not> isdigit d"
  shows "takeWhile isdigit (s @ d # t) = s" "dropWhile isdigit (s @ d # t) = d # t"
  using assms by (induction s) auto

text \<open>A plain decimal number, with or without a fraction, is read exactly.\<close>

lemma dec_literal_int:
  assumes "s \<noteq> []" "\<forall>c \<in> set s. isdigit c"
  shows "dec_literal s = of_nat (dec_val 0 s)"
proof -
  obtain c cs where s: "s = c # cs" using assms(1) by (cases s) auto
  have sg: "strtol_sign (dropWhile isspace s) = (False, s)"
    using strtol_sign_digit [of c cs] assms(2) s by simp
  show ?thesis unfolding dec_literal_def sg Let_def prod.case takeWhile_digits [OF assms(2)]
    using assms(1) by (simp add: dec_exponent_def pow10_def)
qed

lemma dec_literal_frac:
  assumes "ip \<noteq> []" "\<forall>c \<in> set ip. isdigit c" "\<forall>c \<in> set fr. isdigit c"
  shows "dec_literal (ip @ CHR ''.'' # fr) = of_nat (dec_val 0 (ip @ fr)) / 10 ^ length fr"
proof -
  obtain c cs where s: "ip = c # cs" using assms(1) by (cases ip) auto
  have sg: "strtol_sign (dropWhile isspace (ip @ CHR ''.'' # fr)) = (False, ip @ CHR ''.'' # fr)"
    using strtol_sign_digit [of c "cs @ CHR ''.'' # fr"] assms(2) s by simp
  have p: "pow10 (- int (length fr)) = 1 / 10 ^ length fr" by (cases fr) (simp_all add: pow10_def nat_add_distrib)
  have e: "dec_exponent [] = 0" "pow10 0 = 1" by (simp_all add: dec_exponent_def pow10_def)
  show ?thesis
    unfolding dec_literal_def sg Let_def prod.case takeWhile_digits_append [OF assms(2) isdigit_dot]
    using assms(1) by (simp add: takeWhile_digits [OF assms(3)] p e)
qed

lemma zpad_digits: "\<forall>c \<in> set s. isdigit c \<Longrightarrow> c \<in> set (zpad n s) \<Longrightarrow> isdigit c"
  by (auto simp: zpad_def isdigit_def)

text \<open>Reading back what \<open>%.<n>f\<close> printed gives the decimal number that was printed.\<close>

lemma dec_literal_fixed_str:
  assumes "0 \<le> x" "0 < n"
  shows "dec_literal (fixed_str n x) = of_int (rne (x * 10 ^ n)) / 10 ^ n"
proof -
  define m where "m = nat (rne (x * 10 ^ n))"
  have m: "of_int (rne (x * 10 ^ n)) = (of_nat m :: rat)" using rne_nonneg [of "x * 10 ^ n"] assms by (simp add: m_def)
  let ?ip = "nat_str (m div 10 ^ n)" and ?fr = "zpad n (nat_str (m mod 10 ^ n))"
  have d: "\<forall>c \<in> set ?ip. isdigit c" "\<forall>c \<in> set ?fr. isdigit c"
    using nat_str_digits zpad_digits by blast+
  have "length (nat_str (m mod 10 ^ n)) \<le> n" using assms(2) by (intro length_nat_str) simp_all
  then have l: "length ?fr = n" by (rule length_zpad)
  have "fixed_str n x = ?ip @ CHR ''.'' # ?fr"
    using assms by (simp add: fixed_str_def Let_def m_def)
  then have "dec_literal (fixed_str n x) = of_nat (dec_val 0 (?ip @ ?fr)) / 10 ^ n"
    using dec_literal_frac [OF nat_str_not_Nil d] l by simp
  also have "dec_val 0 (?ip @ ?fr) = m"
  proof -
    have "dec_val 0 (?ip @ ?fr) = m div 10 ^ n * 10 ^ n + m mod 10 ^ n"
      using dec_val_acc [of "m div 10 ^ n" ?fr] l by (simp add: dec_val_append)
    then show ?thesis by (simp only: div_mult_mod_eq)
  qed
  finally show ?thesis using m by simp
qed

section \<open>The remaining number parsers of \<open>stdlib.c\<close>\<close>

text \<open>\<open>strtod\<close> stores NULL in the end pointer whatever it read (\<open>None\<close>); \<open>strtoul\<close> reinterprets \<open>strtol\<close>.\<close>

definition strtod :: "cstr \<Rightarrow> fpv \<times> cstr option" where
  "strtod s = (let r = atof s in (r, None))"

definition strtoul :: "cstr \<Rightarrow> nat \<Rightarrow> u32 \<times> cstr" where
  "strtoul nptr base = (let (r, rest) = strtol nptr base in (word_of_int r, rest))"

lemma strtoul_dec:
  assumes "s \<noteq> []" "\<forall>c \<in> set s. isdigit c" "dec_val 0 s \<le> 2147483647"
  shows "strtoul s 10 = (of_nat (dec_val 0 s), [])"
  using assms by (simp add: strtoul_def strtol_dec)

end
