(* ===== verification/Minmea_Types.thy ===== *)
theory Minmea_Types
  imports C_Stdlib
begin

text \<open>
  The data model of the NMEA parser, \<open>libs/gps/minmea/src/minmea.h\<close>: the fixed-point
  number, date, time and the eight sentence frames, and the header's inline conversions
  of fixed-point values to scaled integers and to \<open>float\<close>.
\<close>

section \<open>Frames\<close>

datatype minmea_sentence_id =
    MINMEA_INVALID | MINMEA_UNKNOWN | MINMEA_SENTENCE_RMC | MINMEA_SENTENCE_GGA
  | MINMEA_SENTENCE_GSA | MINMEA_SENTENCE_GLL | MINMEA_SENTENCE_GST | MINMEA_SENTENCE_GSV
  | MINMEA_SENTENCE_VTG | MINMEA_SENTENCE_ZDA

record minmea_float =
  fl_value :: int
  fl_scale :: int

record minmea_date =
  day :: int
  month :: int
  year :: int

record minmea_time =
  hours :: int
  minutes :: int
  seconds :: int
  microseconds :: int

record minmea_sentence_rmc =
  rmc_time :: minmea_time
  rmc_valid :: bool
  rmc_latitude :: minmea_float
  rmc_longitude :: minmea_float
  rmc_speed :: minmea_float
  rmc_course :: minmea_float
  rmc_date :: minmea_date
  rmc_variation :: minmea_float

record minmea_sentence_gga =
  gga_time :: minmea_time
  gga_latitude :: minmea_float
  gga_longitude :: minmea_float
  gga_fix_quality :: int
  gga_satellites_tracked :: int
  gga_hdop :: minmea_float
  gga_altitude :: minmea_float
  gga_altitude_units :: char
  gga_height :: minmea_float
  gga_height_units :: char
  gga_dgps_age :: minmea_float

record minmea_sentence_gll =
  gll_latitude :: minmea_float
  gll_longitude :: minmea_float
  gll_time :: minmea_time
  gll_status :: char
  gll_mode :: char

record minmea_sentence_gst =
  gst_time :: minmea_time
  gst_rms_deviation :: minmea_float
  gst_semi_major_deviation :: minmea_float
  gst_semi_minor_deviation :: minmea_float
  gst_semi_major_orientation :: minmea_float
  gst_latitude_error_deviation :: minmea_float
  gst_longitude_error_deviation :: minmea_float
  gst_altitude_error_deviation :: minmea_float

record minmea_sentence_gsa =
  gsa_mode :: char
  gsa_fix_type :: int
  gsa_sats :: "int list"
  gsa_pdop :: minmea_float
  gsa_hdop :: minmea_float
  gsa_vdop :: minmea_float

record minmea_sat_info =
  sat_nr :: int
  sat_elevation :: int
  sat_azimuth :: int
  sat_snr :: int

record minmea_sentence_gsv =
  gsv_total_msgs :: int
  gsv_msg_nr :: int
  gsv_total_sats :: int
  gsv_sats :: "minmea_sat_info list"

record minmea_sentence_vtg =
  vtg_true_track_degrees :: minmea_float
  vtg_magnetic_track_degrees :: minmea_float
  vtg_speed_knots :: minmea_float
  vtg_speed_kph :: minmea_float
  vtg_faa_mode :: char

record minmea_sentence_zda =
  zda_time :: minmea_time
  zda_date :: minmea_date
  zda_hour_offset :: int
  zda_minute_offset :: int

section \<open>Conversions of fixed-point values\<close>

text \<open>
  \<open>minmea_rescale\<close>. C's division truncates towards zero (\<open>sdiv\<close>); \<open>None\<close> is the
  division by zero that \<open>new_scale = 0\<close> makes.
\<close>

definition c_sdiv :: "int \<Rightarrow> int \<Rightarrow> int option" where
  "c_sdiv a b = (if b = 0 then None else Some (a sdiv b))"

definition minmea_rescale :: "minmea_float \<Rightarrow> int \<Rightarrow> int option" where
  "minmea_rescale f new_scale =
     (if fl_scale f = 0 then Some 0
      else if fl_scale f = new_scale then Some (fl_value f)
      else if new_scale < fl_scale f
      then Option.bind (c_sdiv (i32 (((if 0 < fl_value f then 1 else 0)
                                      - (if fl_value f < 0 then 1 else 0)) * fl_scale f)) new_scale) (\<lambda>q.
           Option.bind (c_sdiv (fl_scale f) new_scale) (\<lambda>d.
             c_sdiv (i32 (fl_value f + q sdiv 2)) d))
      else map_option (\<lambda>q. i32 (fl_value f * q)) (c_sdiv new_scale (fl_scale f)))"

definition minmea_tofloat :: "minmea_float \<Rightarrow> fpv" where
  "minmea_tofloat f =
     (if fl_scale f = 0 then FNaN
      else f32_div (f32_of_int (fl_value f)) (f32_of_int (fl_scale f)))"

text \<open>
  \<open>minmea_tocoord\<close> on a raw \<open>DDMM.MMMM\<close> value. The products \<open>scale * 100\<close> and
  \<open>60 * scale\<close> are \<open>int\<close> products and wrap; \<open>None\<close> is the division by zero that a scale makes
  whose product with 100 is a multiple of \<open>2 ^ 32\<close>.
\<close>

definition coord_degrees :: "minmea_float \<Rightarrow> int" where
  "coord_degrees f = fl_value f sdiv i32 (fl_scale f * 100)"

definition coord_minutes :: "minmea_float \<Rightarrow> int" where
  "coord_minutes f = fl_value f smod i32 (fl_scale f * 100)"

definition minmea_tocoord :: "minmea_float \<Rightarrow> fpv option" where
  "minmea_tocoord f =
     (if fl_scale f = 0 then Some FNaN
      else if i32 (fl_scale f * 100) = 0 then None
      else Some (f32_add (f32_of_int (coord_degrees f))
             (f32_div (f32_of_int (coord_minutes f)) (f32_of_int (i32 (60 * fl_scale f))))))"

lemma tocoord_defined: "0 \<le> fl_scale f \<Longrightarrow> fl_scale f \<le> 100000 \<Longrightarrow> minmea_tocoord f \<noteq> None"
  by (simp add: minmea_tocoord_def in_i32_def)

section \<open>Accuracy of the coordinate conversion\<close>

lemma sdiv_smod_bounds:
  fixes a b :: int assumes "0 < b"
  shows "a = (a sdiv b) * b + a smod b" "\<bar>a smod b\<bar> < b" "\<bar>a sdiv b\<bar> \<le> \<bar>a\<bar> div b"
    "0 \<le> a \<Longrightarrow> 0 \<le> a smod b" "a \<le> 0 \<Longrightarrow> a smod b \<le> 0"
proof -
  have b: "sgn b = 1" "\<bar>b\<bar> = b" using assms by simp_all
  have q: "a sdiv b = sgn a * (\<bar>a\<bar> div b)" "a smod b = sgn a * (\<bar>a\<bar> mod b)"
    using b by (simp_all add: signed_divide_int_def signed_modulo_int_def)
  show "a = (a sdiv b) * b + a smod b"
    by (metis sdiv_mult_smod_eq)
  have m: "0 \<le> \<bar>a\<bar> mod b" "\<bar>a\<bar> mod b < b" using assms by simp_all
  show "\<bar>a smod b\<bar> < b" using q m assms by (cases "a = 0") (auto simp: abs_mult sgn_if)
  have "0 \<le> \<bar>a\<bar> div b" using assms by (simp add: pos_imp_zdiv_nonneg_iff)
  then show "\<bar>a sdiv b\<bar> \<le> \<bar>a\<bar> div b" using q by (auto simp: abs_mult sgn_if)
  show "0 \<le> a \<Longrightarrow> 0 \<le> a smod b" "a \<le> 0 \<Longrightarrow> a smod b \<le> 0" using q m by (auto simp: sgn_if)
qed

lemma pow2_1: "pow2 1 = 2"
  by (simp add: pow2_def)

lemma abs_quot_less: "0 < (y :: rat) \<Longrightarrow> \<bar>x\<bar> < c * y \<Longrightarrow> \<bar>x / y\<bar> < c"
  by (simp add: abs_divide pos_divide_less_eq)

lemma f32_div_error:
  assumes "0 < y" "\<bar>x\<bar> < pow2 k * y" "- 126 < k" "k \<le> 127"
  shows "\<exists>v. f32_div (FFin x) (FFin y) = FFin v \<and> \<bar>v - x / y\<bar> \<le> pow2 (k - 25)"
proof -
  have lt: "\<bar>x / y\<bar> < pow2 k" using assms(1,2) by (rule abs_quot_less)
  obtain v where v: "f32_round (x / y) = FFin v"
    using f32_round_finite [OF lt assms(4,3)] by blast
  have "\<bar>v - x / y\<bar> \<le> pow2 (k - 25)" by (rule f32_round_error [OF v lt assms(3)])
  then show ?thesis using v assms(1) by simp
qed

lemma f32_add_error:
  assumes "\<bar>x + y\<bar> < pow2 k" "- 126 < k" "k \<le> 127"
  shows "\<exists>v. f32_add (FFin x) (FFin y) = FFin v \<and> \<bar>v - (x + y)\<bar> \<le> pow2 (k - 25)"
proof -
  obtain v where v: "f32_round (x + y) = FFin v"
    using f32_round_finite [OF assms(1,3,2)] by blast
  then show ?thesis using f32_round_error [OF v assms(1,2)] by simp
qed

text \<open>
  What a coordinate field means, said of the number it shows and not of the C code: the digits in
  front of the last two before the point are whole degrees, the rest are minutes, and a sign
  applies to both. South 37 degrees 30 minutes is -3730.0 and stands for -37.5.
\<close>

definition coord_exact :: "rat \<Rightarrow> rat" where
  "coord_exact x = (let d = of_int \<lfloor>\<bar>x\<bar> / 100\<rfloor> in sgn x * (d + (\<bar>x\<bar> - 100 * d) / 60))"

abbreviation fl_number :: "minmea_float \<Rightarrow> rat" where
  "fl_number f \<equiv> of_int (fl_value f) / of_int (fl_scale f)"

lemma coord_exact_DDMM: "0 \<le> m \<Longrightarrow> m < 100 \<Longrightarrow> 0 < of_nat d * 100 + m \<Longrightarrow>
    coord_exact (of_nat d * 100 + m) = of_nat d + m / 60 \<and> coord_exact (- (of_nat d * 100 + m)) = - (of_nat d + m / 60)"
proof -
  assume m: "0 \<le> m" "m < 100" "0 < of_nat d * 100 + m"
  have "\<lfloor>(of_nat d * 100 + m) / 100\<rfloor> = int d" by (rule floor_unique) (use m in \<open>simp_all add: field_simps\<close>)
  moreover have "\<bar>of_nat d * 100 + m\<bar> = of_nat d * 100 + m" "\<bar>- (of_nat d * 100 + m)\<bar> = of_nat d * 100 + m"
    "sgn (of_nat d * 100 + m) = 1" "sgn (- (of_nat d * 100 + m)) = - 1" using m by simp_all
  ultimately show ?thesis unfolding coord_exact_def Let_def by simp
qed

text \<open>The split into degrees and minutes that truncates towards zero agrees with it.\<close>

lemma coord_exact_split:
  fixes v s :: int
  assumes "0 < s"
  shows "coord_exact (of_int v / of_int s) = of_int (v sdiv (s * 100)) + of_int (v smod (s * 100)) / (60 * of_int s)"
proof -
  let ?b = "s * 100"
  have b: "sgn ?b = 1" "\<bar>?b\<bar> = ?b" using assms by (simp_all add: sgn_mult)
  have q: "v sdiv ?b = sgn v * (\<bar>v\<bar> div ?b)" "v smod ?b = sgn v * (\<bar>v\<bar> mod ?b)"
    unfolding signed_divide_int_def signed_modulo_int_def b by simp_all
  have a: "\<bar>of_int v / of_int s :: rat\<bar> = of_int \<bar>v\<bar> / of_int s" using assms by (simp add: abs_divide)
  have "\<bar>of_int v / of_int s :: rat\<bar> / 100 = of_int \<bar>v\<bar> / of_int ?b" unfolding a by simp
  then have d: "\<lfloor>\<bar>of_int v / of_int s :: rat\<bar> / 100\<rfloor> = \<bar>v\<bar> div ?b" by (simp only: floor_divide_of_int_eq)
  have "\<bar>v\<bar> mod ?b = \<bar>v\<bar> - ?b * (\<bar>v\<bar> div ?b)" by (simp add: minus_mult_div_eq_mod)
  then have m: "(of_int (\<bar>v\<bar> mod ?b) :: rat) = of_int \<bar>v\<bar> - of_int s * 100 * of_int (\<bar>v\<bar> div ?b)" by simp
  have sg: "sgn (of_int v / of_int s) = (of_int (sgn v) :: rat)" using assms by (auto simp: sgn_if divide_less_0_iff zero_less_divide_iff)
  have r: "(of_int \<bar>v\<bar> / of_int s - 100 * of_int (\<bar>v\<bar> div ?b)) / 60 = (of_int (\<bar>v\<bar> mod ?b) :: rat) / (60 * of_int s)"
    unfolding m using assms by (simp add: field_simps)
  show ?thesis unfolding coord_exact_def Let_def d sg unfolding a r q by (simp add: distrib_left)
qed

lemma coord_parts:
  assumes "0 < fl_scale f" "fl_scale f \<le> 100000" "\<bar>fl_value f\<bar> \<le> 18000 * fl_scale f"
  shows "\<bar>coord_degrees f\<bar> \<le> 180" "\<bar>coord_minutes f\<bar> < 100 * fl_scale f"
    "i32 (60 * fl_scale f) = 60 * fl_scale f"
proof -
  let ?d = "fl_scale f * 100"
  have d: "i32 ?d = ?d" and "i32 (60 * fl_scale f) = 60 * fl_scale f"
    using assms by (simp_all add: in_i32_def)
  then show "i32 (60 * fl_scale f) = 60 * fl_scale f" by simp
  have pos: "0 < ?d" using assms by simp
  note b = sdiv_smod_bounds [OF pos, of "fl_value f"]
  have "\<bar>fl_value f\<bar> div ?d \<le> (180 * ?d) div ?d" using assms pos by (intro zdiv_mono1) simp_all
  also have "\<dots> = 180" using pos by simp
  finally have "\<bar>fl_value f\<bar> div ?d \<le> 180" .
  then show "\<bar>coord_degrees f\<bar> \<le> 180" unfolding coord_degrees_def d using b(3) by linarith
  show "\<bar>coord_minutes f\<bar> < 100 * fl_scale f" unfolding coord_minutes_def d using b(2) by simp
qed

text \<open>
  C22. The \<open>float\<close> coordinate the tracker reports is within \<open>2^-17 + 2^-24\<close> degrees
  (about one metre) of the exact value of the NMEA field, degrees and minutes with one sign,
  for every field in the range of a longitude, positive or negative, with at most five
  decimals of minutes.
\<close>

theorem tocoord_accuracy:
  assumes "0 < fl_scale f" "fl_scale f \<le> 100000" "\<bar>fl_value f\<bar> \<le> 18000 * fl_scale f"
  shows "\<exists>v. minmea_tocoord f = Some (FFin v) \<and> \<bar>v - coord_exact (fl_number f)\<bar> \<le> 1 / 131072 + 1 / 16777216"
proof -
  let ?D = "of_int (coord_degrees f) :: rat" and ?M = "of_int (coord_minutes f) :: rat"
    and ?S = "of_int (60 * fl_scale f) :: rat"
  note parts = coord_parts [OF assms]
  have ints: "f32_of_int (coord_degrees f) = FFin ?D" "f32_of_int (coord_minutes f) = FFin ?M"
    "f32_of_int (i32 (60 * fl_scale f)) = FFin ?S"
    unfolding parts(3) using parts(1,2) assms(1,2)
    by (intro f32_of_int_exact, simp)+
  have M: "\<bar>?M\<bar> < pow2 1 * ?S"
  proof -
    have "\<bar>coord_minutes f\<bar> < 2 * (60 * fl_scale f)" using parts(2) assms(1) by linarith
    then have "of_int \<bar>coord_minutes f\<bar> < (of_int (2 * (60 * fl_scale f)) :: rat)"
      by (simp only: of_int_less_iff)
    then show ?thesis by (simp add: pow2_def)
  qed
  have S: "0 < ?S" using assms(1) by simp
  obtain q where q: "f32_div (FFin ?M) (FFin ?S) = FFin q" "\<bar>q - ?M / ?S\<bar> \<le> pow2 (- 24)"
    using f32_div_error [OF S M] by (auto simp del: f32_div.simps of_int_mult)
  have "\<bar>?M / ?S\<bar> < 2" unfolding pow2_1 [symmetric] using S M by (rule abs_quot_less)
  moreover have "\<bar>?D\<bar> \<le> 180" using parts(1) by (metis of_int_abs of_int_le_numeral_iff)
  moreover have "\<bar>q - ?M / ?S\<bar> \<le> 1" using q(2) by (rule order_trans) (simp add: pow2_def)
  ultimately have "\<bar>?D + q\<bar> < 256" by (simp only: abs_if split: if_splits) linarith+
  then have "\<bar>?D + q\<bar> < pow2 8" by (simp add: pow2_def)
  then obtain v where v: "f32_add (FFin ?D) (FFin q) = FFin v" "\<bar>v - (?D + q)\<bar> \<le> pow2 (- 17)"
    using f32_add_error [of ?D q 8] by (auto simp del: f32_add.simps)
  have "i32 (fl_scale f * 100) \<noteq> 0" using assms(1,2) by (simp add: in_i32_def)
  then have res: "minmea_tocoord f = Some (FFin v)" using assms(1) ints q(1) v(1) by (simp add: minmea_tocoord_def)
  have "i32 (fl_scale f * 100) = fl_scale f * 100" using assms(1,2) by (simp add: in_i32_def)
  then have ex: "coord_exact (fl_number f) = ?D + ?M / ?S"
    using coord_exact_split [OF assms(1), of "fl_value f"] by (simp add: coord_degrees_def coord_minutes_def)
  have "\<bar>v - coord_exact (fl_number f)\<bar> \<le> \<bar>v - (?D + q)\<bar> + \<bar>q - ?M / ?S\<bar>"
    unfolding ex by linarith
  also have "\<dots> \<le> pow2 (- 17) + pow2 (- 24)" using v(2) q(2) by (rule add_mono)
  also have "\<dots> = 1 / 131072 + 1 / 16777216" by (simp add: pow2_def)
  finally have "\<bar>v - coord_exact (fl_number f)\<bar> \<le> 1 / 131072 + 1 / 16777216" .
  then show ?thesis using res by blast
qed

theorem tocoord_accuracy_witness:
  "\<exists>v. minmea_tocoord \<lparr>fl_value = - 373000, fl_scale = 100\<rparr> = Some (FFin v) \<and> \<bar>v - (- 37.5)\<bar> \<le> 1 / 131072 + 1 / 16777216"
proof -
  have "coord_exact (- 3730) = - 37.5" using coord_exact_DDMM [of 30 37] by simp
  then show ?thesis using tocoord_accuracy [of "\<lparr>fl_value = - 373000, fl_scale = 100\<rparr>"] by simp
qed

end
