(* ===== verification/Utils.thy ===== *)
theory Utils
  imports Minmea_Types
begin

text \<open>
  \<open>app/src/utils.c\<close>: calendar arithmetic, case-insensitive comparison, trimming, the
  formatting of sizes and the conversion of signal quality to a percentage.
\<close>

datatype t_protocol = PROT_HTTP | PROT_HTTPS

datatype t_logOutput = LOGGER_OUTPUT_UART | LOGGER_OUTPUT_TRACE | LOGGER_OUTPUT_FILE

section \<open>Dates\<close>

text \<open>The argument of both functions is a year counted from 1900.\<close>

definition is_leap_year :: "int \<Rightarrow> bool" where
  "is_leap_year y = (let year = y + 1900
     in year mod 4 = 0 \<and> (year mod 100 \<noteq> 0 \<or> year mod 400 = 0))"

definition month_days :: "int list" where
  "month_days = [31, 28, 31, 30, 31, 30, 31, 31, 30, 31, 30, 31]"

text \<open>\<open>None\<close> is a read outside the table \<open>days[12]\<close>.\<close>

definition days_in_month :: "int \<Rightarrow> int \<Rightarrow> int option" where
  "days_in_month m y =
     (if m = 1 \<and> is_leap_year y then Some 29
      else if 0 \<le> m \<and> m < 12 then Some (month_days ! nat m) else None)"

text \<open>The two normalisation loops and the two summation loops of \<open>mk_time\<close>.\<close>

function month_up :: "int \<times> int \<Rightarrow> int \<times> int" where
  "month_up (m, y) = (if m < 0 then month_up (m + 12, y - 1) else (m, y))"
  by pat_completeness auto
termination
  by (relation "measure (\<lambda>(m, y). nat (- m))") auto

function month_down :: "int \<times> int \<Rightarrow> int \<times> int" where
  "month_down (m, y) = (if 12 \<le> m then month_down (m - 12, y + 1) else (m, y))"
  by pat_completeness auto
termination
  by (relation "measure (\<lambda>(m, y). nat m)") auto

function add_years :: "int \<Rightarrow> int \<Rightarrow> int \<Rightarrow> int" where
  "add_years y yr days =
     (if y < yr then add_years (y + 1) yr (days + (if is_leap_year y then 366 else 365)) else days)"
  by pat_completeness auto
termination
  by (relation "measure (\<lambda>(y, yr, days). nat (yr - y))") auto

function add_months :: "int \<Rightarrow> int \<Rightarrow> int \<Rightarrow> int \<Rightarrow> int option" where
  "add_months m mo y days =
     (if m < mo then (case days_in_month m y of None \<Rightarrow> None
                      | Some d \<Rightarrow> add_months (m + 1) mo y (days + d))
      else Some days)"
  by pat_completeness auto
termination
  by (relation "measure (\<lambda>(m, mo, y, days). nat (mo - m))") auto

declare month_up.simps [simp del] month_down.simps [simp del]
  add_years.simps [simp del] add_months.simps [simp del]

text \<open>\<open>mk_time\<close>: \<open>time_t\<close> and \<open>long\<close> are 32 bits wide, so the total wraps.\<close>

definition mk_time :: "minmea_date \<Rightarrow> minmea_time \<Rightarrow> int option" where
  "mk_time date tm =
     (let year0 = year date; month0 = month date - 1; day0 = day date - 1;
          year1 = (if year0 < 70 then year0 + 100 else year0);
          (mo, yr) = month_down (month_up (month0, year1));
          days = add_years 70 yr 0
      in map_option (\<lambda>d. i32 ((d + day0) * 86400 + hours tm * 3600 + minutes tm * 60 + seconds tm))
           (add_months 0 mo yr days))"

text \<open>
  The reference: the number of a day of the proleptic Gregorian calendar, counted from
  1970-01-01, in closed form. The year starts in March, so the leap day is its last.
\<close>

definition days_civil :: "int \<Rightarrow> int \<Rightarrow> int \<Rightarrow> int" where
  "days_civil Y M D =
     (let y = (if M \<le> 2 then Y - 1 else Y); mp = (M + 9) mod 12
      in 365 * y + y div 4 - y div 100 + y div 400 + (153 * mp + 2) div 5 + D - 1 - 719468)"

lemma add_years_acc: "add_years y yr (d + e) = add_years y yr d + e"
proof (induction y yr d rule: add_years.induct)
  case (1 y yr d)
  then show ?case
    by (auto simp: add_years.simps [of y yr d] add_years.simps [of y yr "d + e"] algebra_simps)
qed

text \<open>One more multiple of 4, 100 and 400 lies in \<open>1..Y\<close> than in \<open>1..Y - 1\<close> just when \<open>Y\<close> is one.\<close>

lemma div_pred:
  fixes Y k :: int assumes "0 < k"
  shows "Y div k = (Y - 1) div k + (if k dvd Y then 1 else 0)"
proof (cases "k dvd Y")
  case True
  then obtain q where q: "Y = k * q" by (rule dvdE)
  have "(Y - 1) div k = q - 1"
    by (rule int_div_pos_eq [of _ _ _ "k - 1"]) (use assms q in \<open>simp_all add: algebra_simps\<close>)
  then show ?thesis using True q assms by simp
next
  case False
  have "Y mod k \<noteq> 0" using False by (simp add: dvd_eq_mod_eq_0)
  then have r: "0 < Y mod k" "Y mod k < k"
    using pos_mod_sign [OF assms, of Y] pos_mod_bound [OF assms, of Y] by linarith+
  have "(Y - 1) div k = Y div k"
    by (rule int_div_pos_eq [of _ _ _ "Y mod k - 1"]) (use r in simp_all)
  then show ?thesis using False by simp
qed

lemma is_leap_dvd:
  "is_leap_year (Y - 1900) \<longleftrightarrow> 4 dvd Y \<and> (\<not> 100 dvd Y \<or> 400 dvd Y)"
  by (simp add: is_leap_year_def Let_def dvd_eq_mod_eq_0)

lemma leap_count:
  fixes a b c :: int
  assumes "A = a + (if p then 1 else 0)" "B = b + (if q then 1 else 0)" "C = c + (if r then 1 else 0)"
    "r \<Longrightarrow> q" "q \<Longrightarrow> p"
  shows "A - B + C = a - b + c + (if p \<and> (\<not> q \<or> r) then 1 else 0)"
  unfolding assms(1-3) using assms(4,5) by (cases p; cases q; cases r) simp_all

lemma leap_days_step:
  "Y div 4 - Y div 100 + Y div 400 =
    (Y - 1) div 4 - (Y - 1) div 100 + (Y - 1) div 400 + (if is_leap_year (Y - 1900) then 1 else 0)"
proof -
  have m: "400 dvd Y \<Longrightarrow> 100 dvd Y" "100 dvd Y \<Longrightarrow> 4 dvd Y"
    by (rule dvd_trans [of 100 400 Y], simp, assumption) (rule dvd_trans [of 4 100 Y], simp, assumption)
  note dp = div_pred [of 4 Y, OF zero_less_numeral] div_pred [of 100 Y, OF zero_less_numeral]
    div_pred [of 400 Y, OF zero_less_numeral]
  show ?thesis unfolding is_leap_dvd by (rule leap_count [OF dp m])
qed

text \<open>The leap days up to a year, as one term: the arithmetic below need not look inside.\<close>

definition leap_days :: "int \<Rightarrow> int" where
  "leap_days Y = Y div 4 - Y div 100 + Y div 400"

lemma days_civil_jan: "days_civil Y 1 1 = 365 * (Y - 1) + leap_days (Y - 1) - 719162"
  by (simp add: days_civil_def Let_def leap_days_def)

lemma leap_days_pred: "leap_days Y = leap_days (Y - 1) + (if is_leap_year (Y - 1900) then 1 else 0)"
  unfolding leap_days_def by (rule leap_days_step)

lemma leap_step:
  "days_civil (Y + 1) 1 1 = days_civil Y 1 1 + (if is_leap_year (Y - 1900) then 366 else 365)"
  unfolding days_civil_jan using leap_days_pred [of Y] by simp

lemma add_years_snoc:
  "y \<le> i \<Longrightarrow> add_years y (i + 1) d = add_years y i d + (if is_leap_year i then 366 else 365)"
proof (induction y i d rule: add_years.induct)
  case (1 y i d)
  show ?case
  proof (cases "y < i")
    case True
    then show ?thesis using 1
      by (simp add: add_years.simps [of y i d] add_years.simps [of y "i + 1" d])
  next
    case False
    then have "y = i" using "1.prems" by simp
    then show ?thesis
      by (simp add: add_years.simps [of i i d] add_years.simps [of i "i + 1" d]
          add_years.simps [of "i + 1" "i + 1"])
  qed
qed

lemma add_years_days: "70 \<le> yr \<Longrightarrow> add_years 70 yr 0 = days_civil (yr + 1900) 1 1"
proof (induction yr rule: int_ge_induct)
  case base
  show ?case by (subst add_years.simps) (simp add: days_civil_def)
next
  case (step i)
  then show ?case
    using add_years_snoc [of 70 i 0] leap_step [of "i + 1900"] by (simp add: algebra_simps)
qed

lemma month_cases_12:
  assumes "0 \<le> m" "m < (12 :: int)"
  shows "m = 0 \<or> m = 1 \<or> m = 2 \<or> m = 3 \<or> m = 4 \<or> m = 5 \<or> m = 6 \<or> m = 7 \<or> m = 8 \<or> m = 9 \<or> m = 10 \<or> m = 11"
  using assms by presburger

lemma days_civil_feb: "days_civil Y 2 1 =
    365 * (Y - 1) + leap_days (Y - 1) + 337 - 719468"
  by (simp add: days_civil_def Let_def leap_days_def)

lemma days_civil_mar: "days_civil Y 3 1 = 365 * Y + leap_days Y - 719468"
  by (simp add: days_civil_def Let_def leap_days_def)

lemma days_civil_day: "days_civil Y M D = days_civil Y M 1 + (D - 1)"
  by (simp add: days_civil_def Let_def)

lemma february: "days_civil Y 3 1 = days_civil Y 2 1 + (if is_leap_year (Y - 1900) then 29 else 28)"
  unfolding days_civil_feb days_civil_mar using leap_days_pred [of Y] by simp

lemma month_step:
  assumes "0 \<le> m" "m < 11"
  shows "\<exists>d. days_in_month m y = Some d \<and>
    days_civil (y + 1900) (m + 1 + 1) 1 = days_civil (y + 1900) (m + 1) 1 + d"
proof (cases "m = 1")
  case True
  then show ?thesis using february [of "y + 1900"]
    by (auto simp: days_in_month_def month_days_def)
next
  case False
  then consider "m = 0" | "m = 2" | "m = 3" | "m = 4" | "m = 5" | "m = 6" | "m = 7" | "m = 8" | "m = 9" | "m = 10"
    using month_cases_12 [of m] assms by auto
  then show ?thesis by cases (simp_all add: days_in_month_def month_days_def days_civil_def Let_def)
qed

lemma add_months_days:
  assumes "0 \<le> m" "m \<le> mo" "mo < 12"
  shows "add_months m mo y d =
    Some (d + days_civil (y + 1900) (mo + 1) 1 - days_civil (y + 1900) (m + 1) 1)"
  using assms
proof (induction m mo y d rule: add_months.induct)
  case (1 m mo y d)
  show ?case
  proof (cases "m < mo")
    case True
    obtain e where e: "days_in_month m y = Some e"
      "days_civil (y + 1900) (m + 1 + 1) 1 = days_civil (y + 1900) (m + 1) 1 + e"
      using month_step [of m y] True "1.prems" by auto
    have "add_months (m + 1) mo y (d + e) =
      Some (d + e + days_civil (y + 1900) (mo + 1) 1 - days_civil (y + 1900) (m + 1 + 1) 1)"
      by (rule "1.IH" [OF True e(1)]) (use True "1.prems" in auto)
    then show ?thesis unfolding e(2) using True e(1) by (subst add_months.simps) simp
  next
    case False
    then show ?thesis using "1.prems" by (subst add_months.simps) simp
  qed
qed

lemma month_up_spec:
  "case month_up (m, y) of (m', y') \<Rightarrow> 0 \<le> m' \<and> y' * 12 + m' = y * 12 + m"
proof (induction "(m, y)" arbitrary: m y rule: month_up.induct)
  case (1 m y)
  then show ?case by (cases "m < 0") (auto simp: month_up.simps [of m y] split: prod.splits)
qed

lemma month_down_spec:
  "0 \<le> m \<Longrightarrow> case month_down (m, y) of (m', y') \<Rightarrow> 0 \<le> m' \<and> m' < 12 \<and> y' * 12 + m' = y * 12 + m"
proof (induction "(m, y)" arbitrary: m y rule: month_down.induct)
  case (1 m y)
  then show ?case by (cases "12 \<le> m") (auto simp: month_down.simps [of m y] split: prod.splits)
qed

text \<open>Normalisation is the division of the month count by 12.\<close>

lemma month_norm: "month_down (month_up (m, y)) = (m mod 12, y + m div 12)"
proof -
  obtain a b where ab: "month_up (m, y) = (a, b)" by fastforce
  obtain c d where cd: "month_down (a, b) = (c, d)" by fastforce
  have a: "0 \<le> a" "b * 12 + a = y * 12 + m" using month_up_spec [where m = m and y = y] ab by auto
  then have "0 \<le> c" "c < 12" "d * 12 + c = b * 12 + a" using month_down_spec [where m = a and y = b] cd by auto
  with a have "m = 12 * (d - y) + c" "0 \<le> c" "c < 12" by simp_all
  then have "c = m mod 12" "d = y + m div 12"
    using int_div_pos_eq [of m 12 "d - y" c] int_mod_pos_eq [of m 12 "d - y" c] by simp_all
  then show ?thesis using ab cd by simp
qed

lemma mk_time_total: "mk_time date tm \<noteq> None"
proof -
  obtain mo yr where n: "month_down (month_up (month date - 1, if year date < 70 then year date + 100 else year date)) = (mo, yr)"
    by fastforce
  have "0 \<le> mo" "mo < 12" using n unfolding month_norm by auto
  then have "add_months 0 mo yr d \<noteq> None" for d using add_months_days [OF order_refl, of mo yr d] by simp
  then show ?thesis unfolding mk_time_def Let_def n prod.case by (auto split: option.splits)
qed



section \<open>Case-insensitive comparison\<close>

lemma tolower_NUL [simp]: "tolower NUL = NUL"
  by (simp add: tolower_def isupper_def)

text \<open>The byte under the pointer: the terminating NUL at the end of the string.\<close>

fun at_ptr :: "cstr \<Rightarrow> char" where
  "at_ptr [] = NUL"
| "at_ptr (c # cs) = c"

fun str_case_cmp :: "cstr \<Rightarrow> cstr \<Rightarrow> int" where
  "str_case_cmp (a # s1) (b # s2) =
     (let c1 = tolower a; c2 = tolower b
      in if c1 \<noteq> c2 then int (code c1) - int (code c2) else str_case_cmp s1 s2)"
| "str_case_cmp [] s2 = int (code (tolower NUL)) - int (code (tolower (at_ptr s2)))"
| "str_case_cmp (a # s1) [] = int (code (tolower a)) - int (code (tolower NUL))"

definition fold_case :: "cstr \<Rightarrow> nat list" where
  "fold_case s = map (\<lambda>c. code (tolower c)) s"

lemma code_tolower_pos: "c \<noteq> NUL \<Longrightarrow> 0 < code (tolower c)"
proof (rule gr0I)
  assume "c \<noteq> NUL" "code (tolower c) = 0"
  then have "code (tolower c) = code NUL" by simp
  then have "tolower c = NUL" by (simp only: of_char_eq_iff)
  then show False using \<open>c \<noteq> NUL\<close> by simp
qed

lemma code_eq_iff: "code a = code b \<longleftrightarrow> a = b"
  by (rule of_char_eq_iff)

lemma str_case_cmp_sign:
  assumes "NUL \<notin> set s1" "NUL \<notin> set s2"
  shows "(str_case_cmp s1 s2 < 0 \<longleftrightarrow> (fold_case s1, fold_case s2) \<in> lexord {(x, y). x < y})
    \<and> (str_case_cmp s1 s2 = 0 \<longleftrightarrow> fold_case s1 = fold_case s2)"
  using assms
proof (induction s1 s2 rule: str_case_cmp.induct)
  case (1 a s1 b s2)
  then show ?case
    by (cases "tolower a = tolower b") (auto simp: fold_case_def code_eq_iff Let_def)
next
  case (2 s2)
  then show ?case
    by (cases s2) (auto simp: fold_case_def intro!: code_tolower_pos)
next
  case (3 a s1)
  then show ?case
    by (auto simp: fold_case_def intro!: code_tolower_pos)
qed

lemma str_case_cmp_swap: "str_case_cmp s2 s1 = - str_case_cmp s1 s2"
proof (induction s1 s2 rule: str_case_cmp.induct)
  case (2 s2)
  then show ?case by (cases s2) auto
qed (auto simp: Let_def)

text \<open>
  \<open>str_case_cmp\<close> is the lexicographic order of the lower-case strings: negative,
  zero and positive exactly when the first string is below, equal to and above the second
  one up to case.
\<close>

lemma str_case_cmp_correct:
  assumes "NUL \<notin> set s1" "NUL \<notin> set s2"
  shows "(str_case_cmp s1 s2 < 0 \<longleftrightarrow> (fold_case s1, fold_case s2) \<in> lexord {(x, y). x < y})
    \<and> (str_case_cmp s1 s2 = 0 \<longleftrightarrow> fold_case s1 = fold_case s2)
    \<and> (str_case_cmp s1 s2 > 0 \<longleftrightarrow> (fold_case s2, fold_case s1) \<in> lexord {(x, y). x < y})"
  using str_case_cmp_sign [OF assms] str_case_cmp_sign [OF assms(2,1)] str_case_cmp_swap [of s2 s1]
  by auto

lemma str_case_cmp_correct_example:
  "str_case_cmp ''HTTP'' ''https'' < 0 \<and> (fold_case ''HTTP'', fold_case ''https'') \<in> lexord {(x, y). x < y}
   \<and> str_case_cmp ''Debug'' ''dEBUG'' = 0 \<and> str_case_cmp ''uart'' ''Trace'' > 0"
proof -
  have c: "str_case_cmp ''HTTP'' ''https'' < 0" "str_case_cmp ''Debug'' ''dEBUG'' = 0"
    "str_case_cmp ''uart'' ''Trace'' > 0"
    by code_simp+
  have "(fold_case ''HTTP'', fold_case ''https'') \<in> lexord {(x, y). x < y}"
    using str_case_cmp_correct [of "''HTTP''" "''https''"] c(1) by simp
  with c show ?thesis by simp
qed

section \<open>Trimming\<close>

text \<open>
  \<open>trim_whitespace\<close> writes a NUL after the last character it keeps and returns a pointer
  into its argument. The result is the pair of the string that the caller's own pointer
  still designates and the string of the returned pointer; the loop that looks for the
  last character stops at the first one (\<open>end > str\<close>).
\<close>

fun trim_end :: "cstr \<Rightarrow> nat \<Rightarrow> nat" where
  "trim_end s 0 = 0"
| "trim_end s (Suc i) = (if isspace (s ! Suc i) then trim_end s i else Suc i)"

definition trim_whitespace :: "cstr \<Rightarrow> cstr \<times> cstr" where
  "trim_whitespace str =
     (let p = dropWhile isspace str
      in if p = [] then (str, p)
         else let kept = take (trim_end p (length p - 1) + 1) p
              in (takeWhile isspace str @ kept, kept))"

abbreviation trim :: "cstr \<Rightarrow> cstr" where "trim s \<equiv> snd (trim_whitespace s)"

definition strip :: "cstr \<Rightarrow> cstr" where
  "strip s = rev (dropWhile isspace (rev (dropWhile isspace s)))"

lemma trim_end_strip:
  assumes "i < length p" "\<not> isspace (p ! 0)"
  shows "take (trim_end p i + 1) p = rev (dropWhile isspace (rev (take (Suc i) p)))"
  using assms
proof (induction i)
  case 0
  then show ?case by (cases p) auto
next
  case (Suc i)
  then show ?case by (simp add: take_Suc_conv_app_nth)
qed

lemma trim_strip: "trim s = strip s"
proof (cases "dropWhile isspace s = []")
  case True
  then show ?thesis unfolding trim_whitespace_def strip_def Let_def True by simp
next
  case False
  then have "\<not> isspace (dropWhile isspace s ! 0)" using dropWhile_hd_not [OF False] by (simp add: hd_conv_nth)
  then have "take (trim_end (dropWhile isspace s) (length (dropWhile isspace s) - 1) + 1) (dropWhile isspace s)
    = strip s"
    using False by (subst trim_end_strip) (simp_all add: strip_def)
  then show ?thesis using False unfolding trim_whitespace_def Let_def by (simp del: dropWhile_eq_Nil_conv)
qed

lemma strip_Nil_iff: "strip s = [] \<longleftrightarrow> (\<forall>c \<in> set s. isspace c)"
proof -
  have "strip s = [] \<longleftrightarrow> (\<forall>c \<in> set (dropWhile isspace s). isspace c)"
    unfolding strip_def rev_is_Nil_conv dropWhile_eq_Nil_conv set_rev ..
  also have "\<dots> \<longleftrightarrow> dropWhile isspace s = []"
    by (metis dropWhile_hd_not hd_in_set empty_iff list.set(1))
  finally show ?thesis unfolding dropWhile_eq_Nil_conv .
qed

lemma strip_unneeded: "s = [] \<or> (\<not> isspace (hd s) \<and> \<not> isspace (last s)) \<Longrightarrow> strip s = s"
  unfolding strip_def by (cases s rule: rev_cases) (auto simp: hd_append dropWhile_unneeded split: if_splits)

lemma strip_append_space: "\<forall>c \<in> set w. isspace c \<Longrightarrow> strip (s @ w) = strip s"
proof (cases "\<forall>c \<in> set s. isspace c")
  case True
  assume "\<forall>c \<in> set w. isspace c"
  then have "strip (s @ w) = []" "strip s = []" using True unfolding strip_Nil_iff by auto
  then show ?thesis by simp
next
  case False
  assume w: "\<forall>c \<in> set w. isspace c"
  then have "dropWhile isspace (s @ w) = dropWhile isspace s @ w" using False by (auto simp: dropWhile_append)
  moreover have "dropWhile isspace (rev w @ rev (dropWhile isspace s)) = dropWhile isspace (rev (dropWhile isspace s))"
    by (rule dropWhile_append2) (use w in simp)
  ultimately show ?thesis by (simp add: strip_def)
qed

lemma strip_space_append: "\<forall>c \<in> set w. isspace c \<Longrightarrow> strip (w @ s) = strip s"
  by (simp add: strip_def dropWhile_append2)

lemma set_strip: "set (strip s) \<subseteq> set s"
  unfolding strip_def by (auto dest!: set_dropWhileD)

lemma length_strip: "length (strip s) \<le> length s"
  unfolding strip_def by (metis length_dropWhile_le length_rev order.trans)

lemma strip_ends:
  assumes "strip s \<noteq> []"
  shows "\<not> isspace (hd (strip s))" "\<not> isspace (last (strip s))"
proof -
  define d where "d = dropWhile isspace s"
  have sd: "strip s = rev (dropWhile isspace (rev d))" by (simp add: strip_def d_def)
  show "\<not> isspace (last (strip s))" using assms unfolding sd by (rule last_rev_dropWhile_rev)
  have n: "dropWhile isspace (rev d) \<noteq> []" using assms unfolding sd by blast
  then have d: "d \<noteq> []" by auto
  have "rev d = takeWhile isspace (rev d) @ dropWhile isspace (rev d)" by simp
  then have "d = rev (dropWhile isspace (rev d)) @ rev (takeWhile isspace (rev d))"
    by (metis rev_append rev_rev_ident)
  then have "hd (strip s) = hd d" using n unfolding sd by (metis hd_append2 rev_is_Nil_conv)
  then show "\<not> isspace (hd (strip s))" using d dropWhile_hd_not unfolding d_def by metis
qed

lemma strip_idem [simp]: "strip (strip s) = strip s"
  by (rule strip_unneeded) (use strip_ends [of s] in auto)

text \<open>
  \<open>trim_whitespace\<close> returns its argument without leading and trailing white space, a
  string it would return unchanged. The caller's own pointer keeps the leading white
  space: only the returned pointer designates the trimmed string.
\<close>

lemma trim_whitespace_correct:
  "snd (trim_whitespace s) = strip s \<and> snd (trim_whitespace (snd (trim_whitespace s))) = strip s \<and>
   (strip s \<noteq> [] \<longrightarrow> fst (trim_whitespace s) = takeWhile isspace s @ strip s)"
proof -
  have "fst (trim_whitespace s) = takeWhile isspace s @ strip s" if "strip s \<noteq> []"
  proof -
    have "dropWhile isspace s \<noteq> []" using that by (metis strip_Nil_iff dropWhile_eq_Nil_conv)
    then show ?thesis using trim_strip [of s] unfolding trim_whitespace_def Let_def
      by (simp del: dropWhile_eq_Nil_conv)
  qed
  then show ?thesis by (simp add: trim_strip)
qed

lemma trim_whitespace_correct_example:
  "snd (trim_whitespace ''  a b '') = ''a b'' \<and> fst (trim_whitespace ''  a b '') = ''  a b''"
proof -
  have s: "strip ''  a b '' = ''a b''" "takeWhile isspace ''  a b '' = ''  ''"
    by (simp_all add: strip_def isspace_def)
  show ?thesis using trim_whitespace_correct [of "''  a b ''"] unfolding s by simp
qed

section \<open>Signal quality\<close>

text \<open>The result is a \<open>uint8_t\<close>; the division is on non-negative numbers.\<close>

definition csq_to_percent :: "int \<Rightarrow> u8" where
  "csq_to_percent csq =
     (if csq < 0 \<or> csq = 99 then 0
      else let csq = (if csq > 31 then 31 else csq) in word_of_int ((csq * 100) div 31))"

lemma percent_bounds:
  assumes "0 \<le> (c :: int)" "c \<le> 31" shows "0 \<le> c * 100 div 31" "c * 100 div 31 \<le> 100"
proof -
  have "c * 100 div 31 \<le> 3100 div 31" by (rule zdiv_mono1) (use assms in auto)
  then show "c * 100 div 31 \<le> 100" by simp
qed (use assms in simp)

lemma csq_to_percent_nat:
  assumes "csq \<noteq> 99" "0 \<le> csq"
  shows "int (unat (csq_to_percent csq)) = min csq 31 * 100 div 31"
proof -
  have b: "0 \<le> min csq 31 * 100 div 31" "min csq 31 * 100 div 31 \<le> 100"
    using percent_bounds [of "min csq 31"] assms by auto
  have e: "csq_to_percent csq = word_of_int (min csq 31 * 100 div 31)"
    using assms by (simp add: csq_to_percent_def min_def Let_def)
  show ?thesis unfolding e unat_eq_nat_uint
    using b by (simp add: uint_word_of_int mod_pos_pos_trivial)
qed

lemma csq_range:
  assumes "csq \<noteq> 99"
  shows "unat (csq_to_percent csq) \<le> 100" "31 \<le> csq \<Longrightarrow> unat (csq_to_percent csq) = 100"
proof -
  show "unat (csq_to_percent csq) \<le> 100"
  proof (cases "csq < 0")
    case False
    then have "int (unat (csq_to_percent csq)) \<le> 100"
      using csq_to_percent_nat [of csq] percent_bounds [of "min csq 31"] assms by simp
    then show ?thesis by linarith
  qed (simp add: csq_to_percent_def)
  show "unat (csq_to_percent csq) = 100" if "31 \<le> csq"
  proof -
    have "min csq 31 = 31" using that by simp
    then have "int (unat (csq_to_percent csq)) = 100"
      using csq_to_percent_nat [of csq] assms that by simp
    then show ?thesis by linarith
  qed
qed

text \<open>
  \<open>csq_to_percent\<close> is a percentage for every argument, grows with the signal, is 0 on
  the modem's "unknown" value and reaches 100 from 31 on: the multiplication and the
  narrowing to 8 bits lose nothing.
\<close>

theorem csq_to_percent_correct:
  assumes "csq \<noteq> 99" "csq' \<noteq> 99" "csq \<le> csq'"
  shows "csq_to_percent csq \<le> csq_to_percent csq' \<and> unat (csq_to_percent csq') \<le> 100
    \<and> csq_to_percent 99 = 0 \<and> (31 \<le> csq' \<longrightarrow> unat (csq_to_percent csq') = 100)
    \<and> (0 \<le> csq' \<and> csq' \<le> 31 \<longrightarrow> int (unat (csq_to_percent csq')) = csq' * 100 div 31)"
proof -
  have le: "csq_to_percent csq \<le> csq_to_percent csq'"
  proof (cases "csq < 0")
    case False
    have "min csq 31 * 100 div 31 \<le> min csq' 31 * 100 div 31"
      by (rule zdiv_mono1) (use assms in auto)
    then show ?thesis
      using csq_to_percent_nat [of csq] csq_to_percent_nat [of csq'] assms False
      unfolding word_le_nat_alt by linarith
  qed (simp add: csq_to_percent_def)
  have "csq_to_percent 99 = 0" by (simp add: csq_to_percent_def)
  then show ?thesis
    using le csq_range [OF assms(2)] csq_to_percent_nat [OF assms(2)] by (simp add: min_def)
qed

theorem csq_to_percent_correct_witness:
  "csq_to_percent 15 \<le> csq_to_percent 40 \<and> unat (csq_to_percent 40) = 100"
  using csq_to_percent_correct [of 15 40] by simp

section \<open>Sizes and the file-system report\<close>

definition format_size :: "nat \<Rightarrow> int \<Rightarrow> cstr \<Rightarrow> cstr" where
  "format_size bufsize value label =
     (if value \<ge> 1024 * 1024 * 1024
      then snprintf bufsize ''%s%.3f GB''
             [AStr label, AFlt (f32_div (f32_of_int value) (f32_mul (f32_mul (f32_of_int 1024) (f32_of_int 1024)) (f32_of_int 1024)))]
      else if value \<ge> 1024 * 1024
      then snprintf bufsize ''%s%.1f MB''
             [AStr label, AFlt (f32_div (f32_of_int value) (f32_mul (f32_of_int 1024) (f32_of_int 1024)))]
      else if value \<ge> 1024
      then snprintf bufsize ''%s%.1f KB'' [AStr label, AFlt (f32_div (f32_of_int value) (f32_of_int 1024))]
      else snprintf bufsize ''%s%d Bytes'' [AStr label, AInt value])"

text \<open>
  \<open>API_FS_GetFSInfo\<close> belongs to the SDK: the parameter gives its return value and the
  content of \<open>fsInfo\<close> after the call. The sizes are \<open>uint64_t\<close>, narrowed to \<open>int\<close>.
\<close>

record API_FS_INFO =
  usedSize :: nat
  totalSize :: nat

definition FS_DEVICE_NAME_FLASH :: cstr where "FS_DEVICE_NAME_FLASH = ''/''"
definition FS_DEVICE_NAME_T_FLASH :: cstr where "FS_DEVICE_NAME_T_FLASH = ''/t''"

definition fs_report :: "cstr \<Rightarrow> API_FS_INFO \<Rightarrow> effect" where
  "fs_report fmt fsInfo =
     Log LOG_LEVEL_INFO ''System'' (sprintf fmt
       [AStr (format_size 32 (i32 (int (usedSize fsInfo))) ''''),
        AStr (format_size 32 (i32 (int (totalSize fsInfo))) '''')])"

definition FsInfoTest :: "(cstr \<Rightarrow> int \<times> API_FS_INFO) \<Rightarrow> effect list" where
  "FsInfoTest getinfo =
     (let (r1, i1) = getinfo FS_DEVICE_NAME_FLASH; (r2, i2) = getinfo FS_DEVICE_NAME_T_FLASH
      in (if r1 < 0 then [Log LOG_LEVEL_ERROR ''System'' ''Get Int Flash device info fail!''] else [])
         @ [fs_report ''Int Flash used: %s, total size: %s'' i1]
         @ (if r2 < 0 then [Log LOG_LEVEL_ERROR ''System'' ''Get Ext Flash device info fail!'']
            else [fs_report ''Ext Flash used: %s, total size: %s'' i2]))"

end
