(* ===== verification/Config_Validation.thy ===== *)
theory Config_Validation
  imports Utils
begin

text \<open>
  \<open>app/src/config_store.h\<close>, \<open>config_validation.c\<close> and the log switch of
  \<open>libs/gps/src/gps.c\<close>: the configuration record, the validators that write it, the
  serializers that read it, and the table that ties a parameter name to both.

  A validator returns whether it accepted the text together with the new state; a NULL
  text is \<open>None\<close>.
\<close>

section \<open>The configuration and the GPS log switch\<close>

record t_Config =
  imei :: cstr
  device_name :: cstr
  server_addr :: cstr
  server_port :: cstr
  server_protocol :: t_protocol
  apn :: cstr
  apn_user :: cstr
  apn_pass :: cstr
  gps_uere :: fpv
  gps_print_pos :: bool
  gps_logging :: bool
  gps_log_file :: cstr
  logLevel :: t_logLevel
  logOutput :: t_logOutput

abbreviation MAX_LINE_LENGTH :: nat where "MAX_LINE_LENGTH \<equiv> 256"
abbreviation MAX_SERVER_ADDR_LENGTH :: nat where "MAX_SERVER_ADDR_LENGTH \<equiv> 64"
abbreviation MAX_SERVER_PORT_LENGTH :: nat where "MAX_SERVER_PORT_LENGTH \<equiv> 8"
abbreviation MAX_APN_LENGTH :: nat where "MAX_APN_LENGTH \<equiv> 32"
abbreviation MAX_APN_USER_LENGTH :: nat where "MAX_APN_USER_LENGTH \<equiv> 32"
abbreviation MAX_DEVICE_NAME_LENGTH :: nat where "MAX_DEVICE_NAME_LENGTH \<equiv> 32"
abbreviation MAX_IMEI_LENGTH :: nat where "MAX_IMEI_LENGTH \<equiv> 16"
abbreviation MAX_GPS_LOG_PATH_LENGTH :: nat where "MAX_GPS_LOG_PATH_LENGTH \<equiv> 128"

text \<open>
  \<open>gpsLogPath\<close> of \<open>gps.c\<close> is NULL or points into the configuration: the characters it
  designates are those of \<open>g_ConfigStore.gps_log_file\<close> at the time of the use.
\<close>

datatype path_ptr = PathNull | PathConfig

record cfg_state =
  g_ConfigStore :: t_Config
  isSaveLog :: bool
  gpsLogPath :: path_ptr

definition GPS_SaveLog :: "bool \<Rightarrow> path_ptr \<Rightarrow> cfg_state \<Rightarrow> cfg_state" where
  "GPS_SaveLog save path st = st\<lparr>isSaveLog := save, gpsLogPath := path\<rparr>"

definition GPS_IsSaveLog :: "cfg_state \<Rightarrow> bool" where
  "GPS_IsSaveLog st = isSaveLog st"

fun deref_path :: "cfg_state \<Rightarrow> cstr option" where
  "deref_path st = (case gpsLogPath st of PathNull \<Rightarrow> None | PathConfig \<Rightarrow> Some (gps_log_file (g_ConfigStore st)))"

text \<open>An assignment to a field of \<open>g_ConfigStore\<close>.\<close>

definition set_cfg :: "(t_Config \<Rightarrow> t_Config) \<Rightarrow> cfg_state \<Rightarrow> cfg_state" where
  "set_cfg f st = st\<lparr>g_ConfigStore := f (g_ConfigStore st)\<rparr>"

section \<open>Validators\<close>

definition DeviceNameValidate :: "cstr option \<Rightarrow> cfg_state \<Rightarrow> bool \<times> cfg_state" where
  "DeviceNameValidate value st = (case value of None \<Rightarrow> (False, st)
     | Some v \<Rightarrow>
       let len = length v in
       if len > 0 \<and> len < MAX_DEVICE_NAME_LENGTH
       then (True, set_cfg (device_name_update (\<lambda>_. strncpy0 MAX_DEVICE_NAME_LENGTH v)) st)
       else (False, st))"

definition ServerValidate :: "cstr option \<Rightarrow> cfg_state \<Rightarrow> bool \<times> cfg_state" where
  "ServerValidate value st = (case value of None \<Rightarrow> (False, st)
     | Some v \<Rightarrow>
       let len = length v in
       if len > 0 \<and> len < MAX_SERVER_ADDR_LENGTH
       then (True, set_cfg (server_addr_update (\<lambda>_. strncpy0 MAX_SERVER_ADDR_LENGTH v)) st)
       else (False, st))"

definition ProtocolValidate :: "cstr option \<Rightarrow> cfg_state \<Rightarrow> bool \<times> cfg_state" where
  "ProtocolValidate value st = (case value of None \<Rightarrow> (False, st)
     | Some v \<Rightarrow>
       if str_case_cmp v ''http'' = 0 then (True, set_cfg (server_protocol_update (\<lambda>_. PROT_HTTP)) st)
       else if str_case_cmp v ''https'' = 0 then (True, set_cfg (server_protocol_update (\<lambda>_. PROT_HTTPS)) st)
       else (False, st))"

definition PortValidate :: "cstr option \<Rightarrow> cfg_state \<Rightarrow> bool \<times> cfg_state" where
  "PortValidate value st = (case value of None \<Rightarrow> (False, st)
     | Some v \<Rightarrow>
       let (port, endptr) = strtol v 10 in
       if endptr = [] \<and> port > 0 \<and> port \<le> 65535
       then (True, set_cfg (server_port_update (\<lambda>_. strncpy0 MAX_SERVER_PORT_LENGTH v)) st)
       else (False, st))"

definition ApnValidate :: "cstr option \<Rightarrow> cfg_state \<Rightarrow> bool \<times> cfg_state" where
  "ApnValidate value st = (case value of None \<Rightarrow> (False, st)
     | Some v \<Rightarrow>
       let len = length v in
       if len > 0 \<and> len < MAX_APN_LENGTH
       then (True, set_cfg (apn_update (\<lambda>_. strncpy0 MAX_APN_LENGTH v)) st)
       else (False, st))"

definition ApnUserValidate :: "cstr option \<Rightarrow> cfg_state \<Rightarrow> bool \<times> cfg_state" where
  "ApnUserValidate value st = (case value of
       None \<Rightarrow> (True, set_cfg (apn_user_update (\<lambda>_. [])) st)
     | Some v \<Rightarrow>
       if length v < MAX_APN_USER_LENGTH
       then (True, set_cfg (apn_user_update (\<lambda>_. strncpy0 MAX_APN_USER_LENGTH v)) st)
       else (False, st))"

definition ApnPassValidate :: "cstr option \<Rightarrow> cfg_state \<Rightarrow> bool \<times> cfg_state" where
  "ApnPassValidate value st = (case value of
       None \<Rightarrow> (True, set_cfg (apn_pass_update (\<lambda>_. [])) st)
     | Some v \<Rightarrow>
       if length v < MAX_APN_USER_LENGTH
       then (True, set_cfg (apn_pass_update (\<lambda>_. strncpy0 MAX_APN_USER_LENGTH v)) st)
       else (False, st))"

definition LogLevelValidate :: "cstr option \<Rightarrow> cfg_state \<Rightarrow> bool \<times> cfg_state" where
  "LogLevelValidate value st = (case value of None \<Rightarrow> (False, st)
     | Some v \<Rightarrow>
       if str_case_cmp v ''none'' = 0 then (True, set_cfg (logLevel_update (\<lambda>_. LOG_LEVEL_NONE)) st)
       else if str_case_cmp v ''error'' = 0 then (True, set_cfg (logLevel_update (\<lambda>_. LOG_LEVEL_ERROR)) st)
       else if str_case_cmp v ''warn'' = 0 \<or> str_case_cmp v ''warning'' = 0
       then (True, set_cfg (logLevel_update (\<lambda>_. LOG_LEVEL_WARN)) st)
       else if str_case_cmp v ''info'' = 0 then (True, set_cfg (logLevel_update (\<lambda>_. LOG_LEVEL_INFO)) st)
       else if str_case_cmp v ''debug'' = 0 then (True, set_cfg (logLevel_update (\<lambda>_. LOG_LEVEL_DEBUG)) st)
       else (False, st))"

definition LogOutputValidate :: "cstr option \<Rightarrow> cfg_state \<Rightarrow> bool \<times> cfg_state" where
  "LogOutputValidate value st = (case value of None \<Rightarrow> (False, st)
     | Some v \<Rightarrow>
       if str_case_cmp v ''uart'' = 0 then (True, set_cfg (logOutput_update (\<lambda>_. LOGGER_OUTPUT_UART)) st)
       else if str_case_cmp v ''trace'' = 0 then (True, set_cfg (logOutput_update (\<lambda>_. LOGGER_OUTPUT_TRACE)) st)
       else if str_case_cmp v ''file'' = 0 then (True, set_cfg (logOutput_update (\<lambda>_. LOGGER_OUTPUT_FILE)) st)
       else (False, st))"

text \<open>\<open>float uere = atof(value)\<close> narrows a double; both bounds are compared as floats.\<close>

definition parse_uere :: "cstr \<Rightarrow> fpv" where
  "parse_uere v = f32_of_f64 (atof v)"

definition GpsUereValidate :: "cstr option \<Rightarrow> cfg_state \<Rightarrow> bool \<times> cfg_state" where
  "GpsUereValidate value st = (case value of None \<Rightarrow> (False, st)
     | Some v \<Rightarrow>
       let uere = parse_uere v in
       if f32_less (f32_of_int 0) uere \<and> f32_less uere (f32_of_int 100)
       then (True, set_cfg (gps_uere_update (\<lambda>_. uere)) st)
       else (False, st))"

text \<open>The two groups of comparisons of the boolean validators.\<close>

definition means_false :: "cstr \<Rightarrow> bool" where
  "means_false v \<longleftrightarrow> str_case_cmp v ''0'' = 0 \<or> str_case_cmp v ''disable'' = 0
     \<or> str_case_cmp v ''disabled'' = 0 \<or> str_case_cmp v ''false'' = 0"

definition means_true :: "cstr \<Rightarrow> bool" where
  "means_true v \<longleftrightarrow> str_case_cmp v ''1'' = 0 \<or> str_case_cmp v ''enable'' = 0
     \<or> str_case_cmp v ''enabled'' = 0 \<or> str_case_cmp v ''true'' = 0"

definition GpsPrintPosValidate :: "cstr option \<Rightarrow> cfg_state \<Rightarrow> bool \<times> cfg_state" where
  "GpsPrintPosValidate value st = (case value of None \<Rightarrow> (False, st)
     | Some v \<Rightarrow>
       if means_false v then (True, set_cfg (gps_print_pos_update (\<lambda>_. False)) st)
       else if means_true v then (True, set_cfg (gps_print_pos_update (\<lambda>_. True)) st)
       else (False, st))"

definition GpsLoggingValidate :: "cstr option \<Rightarrow> cfg_state \<Rightarrow> bool \<times> cfg_state" where
  "GpsLoggingValidate value st = (case value of None \<Rightarrow> (False, st)
     | Some v \<Rightarrow>
       if means_false v
       then (True, GPS_SaveLog False PathConfig (set_cfg (gps_logging_update (\<lambda>_. False)) st))
       else if means_true v
       then (True, GPS_SaveLog True PathConfig (set_cfg (gps_logging_update (\<lambda>_. True)) st))
       else (False, st))"

definition GpsLogFileValidate :: "cstr option \<Rightarrow> cfg_state \<Rightarrow> bool \<times> cfg_state" where
  "GpsLogFileValidate value st = (case value of None \<Rightarrow> (False, st)
     | Some v \<Rightarrow>
       let len = length v in
       if len > 0 \<and> len < MAX_GPS_LOG_PATH_LENGTH
       then let st' = set_cfg (gps_log_file_update (\<lambda>_. strncpy0 MAX_GPS_LOG_PATH_LENGTH v)) st
            in (True, GPS_SaveLog (gps_logging (g_ConfigStore st')) PathConfig st')
       else (False, st))"

section \<open>Serializers\<close>

text \<open>The argument is what \<open>value\<close> points to. \<open>serializer_buf\<close> holds \<open>MAX_LINE_LENGTH\<close> bytes.\<close>

definition StringSerializer :: "cstr option \<Rightarrow> cstr option" where
  "StringSerializer value = map_option (\<lambda>s. snprintf MAX_LINE_LENGTH ''%s'' [AStr s]) value"

definition FloatSerializer :: "fpv option \<Rightarrow> cstr option" where
  "FloatSerializer value = map_option (\<lambda>x. snprintf MAX_LINE_LENGTH ''%f'' [AFlt x]) value"

definition ProtocolSerializer :: "t_protocol option \<Rightarrow> cstr option" where
  "ProtocolSerializer value =
     map_option (\<lambda>p. case p of PROT_HTTP \<Rightarrow> ''http'' | PROT_HTTPS \<Rightarrow> ''https'') value"

definition LogLevelSerializer :: "t_logLevel option \<Rightarrow> cstr option" where
  "LogLevelSerializer value = map_option (\<lambda>l. case l of
       LOG_LEVEL_ERROR \<Rightarrow> ''error'' | LOG_LEVEL_WARN \<Rightarrow> ''warn'' | LOG_LEVEL_INFO \<Rightarrow> ''info''
     | LOG_LEVEL_DEBUG \<Rightarrow> ''debug'' | LOG_LEVEL_NONE \<Rightarrow> '''') value"

definition LogOutputSerializer :: "t_logOutput option \<Rightarrow> cstr option" where
  "LogOutputSerializer value = map_option (\<lambda>l. case l of
       LOGGER_OUTPUT_UART \<Rightarrow> ''uart'' | LOGGER_OUTPUT_TRACE \<Rightarrow> ''trace'' | LOGGER_OUTPUT_FILE \<Rightarrow> ''file'') value"

definition BoolSerializer :: "bool option \<Rightarrow> cstr option" where
  "BoolSerializer value =
     map_option (\<lambda>b. snprintf MAX_LINE_LENGTH ''%s'' [AStr (if b then ''true'' else ''false'')]) value"

section \<open>The parameter table\<close>

text \<open>
  One row of \<open>g_config_map\<close>. The C row keeps the serializer and the address of its
  argument apart; here \<open>serializer\<close> is the serializer on that field of the store.
\<close>

record t_config_map =
  param_name :: cstr
  default_value :: cstr
  validator :: "cstr option \<Rightarrow> cfg_state \<Rightarrow> bool \<times> cfg_state"
  serializer :: "t_Config \<Rightarrow> cstr option"

definition CONFIG_FILE_PATH :: cstr where "CONFIG_FILE_PATH = ''/config.ini''"
definition DEFAULT_DEVICE_NAME :: cstr where "DEFAULT_DEVICE_NAME = ''IMEI''"

definition entry_device_name :: t_config_map where
  "entry_device_name = \<lparr>param_name = ''device_name'', default_value = DEFAULT_DEVICE_NAME,
     validator = DeviceNameValidate, serializer = \<lambda>c. StringSerializer (Some (device_name c))\<rparr>"
definition entry_server :: t_config_map where
  "entry_server = \<lparr>param_name = ''server'', default_value = ''demo3.traccar.org'',
     validator = ServerValidate, serializer = \<lambda>c. StringSerializer (Some (server_addr c))\<rparr>"
definition entry_port :: t_config_map where
  "entry_port = \<lparr>param_name = ''port'', default_value = ''5055'',
     validator = PortValidate, serializer = \<lambda>c. StringSerializer (Some (server_port c))\<rparr>"
definition entry_protocol :: t_config_map where
  "entry_protocol = \<lparr>param_name = ''protocol'', default_value = ''https'',
     validator = ProtocolValidate, serializer = \<lambda>c. ProtocolSerializer (Some (server_protocol c))\<rparr>"
definition entry_apn :: t_config_map where
  "entry_apn = \<lparr>param_name = ''apn'', default_value = ''internet'',
     validator = ApnValidate, serializer = \<lambda>c. StringSerializer (Some (apn c))\<rparr>"
definition entry_apn_user :: t_config_map where
  "entry_apn_user = \<lparr>param_name = ''apn_user'', default_value = '''',
     validator = ApnUserValidate, serializer = \<lambda>c. StringSerializer (Some (apn_user c))\<rparr>"
definition entry_apn_pass :: t_config_map where
  "entry_apn_pass = \<lparr>param_name = ''apn_pass'', default_value = '''',
     validator = ApnPassValidate, serializer = \<lambda>c. StringSerializer (Some (apn_pass c))\<rparr>"
definition entry_log_level :: t_config_map where
  "entry_log_level = \<lparr>param_name = ''log_level'', default_value = ''info'',
     validator = LogLevelValidate, serializer = \<lambda>c. LogLevelSerializer (Some (logLevel c))\<rparr>"
definition entry_log_output :: t_config_map where
  "entry_log_output = \<lparr>param_name = ''log_output'', default_value = ''uart'',
     validator = LogOutputValidate, serializer = \<lambda>c. LogOutputSerializer (Some (logOutput c))\<rparr>"
definition entry_gps_uere :: t_config_map where
  "entry_gps_uere = \<lparr>param_name = ''gps_uere'', default_value = ''5'',
     validator = GpsUereValidate, serializer = \<lambda>c. FloatSerializer (Some (gps_uere c))\<rparr>"
definition entry_gps_logging :: t_config_map where
  "entry_gps_logging = \<lparr>param_name = ''gps_logging'', default_value = ''disabled'',
     validator = GpsLoggingValidate, serializer = \<lambda>c. BoolSerializer (Some (gps_logging c))\<rparr>"
definition entry_gps_log_file :: t_config_map where
  "entry_gps_log_file = \<lparr>param_name = ''gps_log_file'', default_value = ''/t/gps_nmea.log'',
     validator = GpsLogFileValidate, serializer = \<lambda>c. StringSerializer (Some (gps_log_file c))\<rparr>"
definition entry_gps_print_pos :: t_config_map where
  "entry_gps_print_pos = \<lparr>param_name = ''gps_print_pos'', default_value = ''disabled'',
     validator = GpsPrintPosValidate, serializer = \<lambda>c. BoolSerializer (Some (gps_print_pos c))\<rparr>"

definition g_config_map :: "t_config_map list" where
  "g_config_map = [entry_device_name, entry_server, entry_port, entry_protocol, entry_apn,
     entry_apn_user, entry_apn_pass, entry_log_level, entry_log_output, entry_gps_uere,
     entry_gps_logging, entry_gps_log_file, entry_gps_print_pos]"

fun find_entry :: "t_config_map list \<Rightarrow> cstr \<Rightarrow> t_config_map option" where
  "find_entry [] name = None"
| "find_entry (e # es) name = (if strcmp_eq (param_name e) name then Some e else find_entry es name)"

definition getConfigMap :: "cstr option \<Rightarrow> t_config_map option" where
  "getConfigMap arg_name = (case arg_name of None \<Rightarrow> None | Some n \<Rightarrow> find_entry g_config_map n)"

lemmas entry_defs =
  entry_device_name_def entry_server_def entry_port_def entry_protocol_def entry_apn_def
  entry_apn_user_def entry_apn_pass_def entry_log_level_def entry_log_output_def
  entry_gps_uere_def entry_gps_logging_def entry_gps_log_file_def entry_gps_print_pos_def

lemmas validator_defs =
  DeviceNameValidate_def ServerValidate_def PortValidate_def ProtocolValidate_def ApnValidate_def
  ApnUserValidate_def ApnPassValidate_def LogLevelValidate_def LogOutputValidate_def
  GpsUereValidate_def GpsLoggingValidate_def GpsLogFileValidate_def GpsPrintPosValidate_def

lemma find_entry_Some: "find_entry es n = Some e \<Longrightarrow> e \<in> set es \<and> param_name e = n"
  by (induction es) (auto simp: strcmp_eq_def split: if_splits)

lemma find_entry_distinct:
  "e \<in> set es \<Longrightarrow> distinct (map param_name es) \<Longrightarrow> find_entry es (param_name e) = Some e"
  by (induction es) (auto simp: strcmp_eq_def)

lemma distinct_param_names: "distinct (map param_name g_config_map)"
  by (simp add: g_config_map_def entry_defs)

lemma getConfigMap_entry: "e \<in> set g_config_map \<Longrightarrow> getConfigMap (Some (param_name e)) = Some e"
  by (simp add: getConfigMap_def find_entry_distinct distinct_param_names)

section \<open>What every stored configuration satisfies\<close>

text \<open>
  A string field fits its array with the terminating NUL, the mandatory ones are not
  empty, and the range error is a float strictly between 0 and 100.
\<close>

definition cstr_ok :: "nat \<Rightarrow> nat \<Rightarrow> cstr \<Rightarrow> bool" where
  "cstr_ok lo n s \<longleftrightarrow> lo \<le> length s \<and> length s < n \<and> NUL \<notin> set s"

definition uere_ok :: "fpv \<Rightarrow> bool" where
  "uere_ok u \<longleftrightarrow> f32_less (f32_of_int 0) u \<and> f32_less u (f32_of_int 100)"

definition cfg_wf :: "t_Config \<Rightarrow> bool" where
  "cfg_wf c \<longleftrightarrow>
     cstr_ok 0 MAX_IMEI_LENGTH (imei c) \<and>
     cstr_ok 1 MAX_DEVICE_NAME_LENGTH (device_name c) \<and>
     cstr_ok 1 MAX_SERVER_ADDR_LENGTH (server_addr c) \<and>
     cstr_ok 1 MAX_SERVER_PORT_LENGTH (server_port c) \<and>
     cstr_ok 1 MAX_APN_LENGTH (apn c) \<and>
     cstr_ok 0 MAX_APN_USER_LENGTH (apn_user c) \<and>
     cstr_ok 0 MAX_APN_USER_LENGTH (apn_pass c) \<and>
     cstr_ok 1 MAX_GPS_LOG_PATH_LENGTH (gps_log_file c) \<and>
     uere_ok (gps_uere c)"

text \<open>The log switch follows the configuration once a path is set.\<close>

definition log_switch_ok :: "cfg_state \<Rightarrow> bool" where
  "log_switch_ok st \<longleftrightarrow> gpsLogPath st = PathConfig \<and> isSaveLog st = gps_logging (g_ConfigStore st)"

definition state_wf :: "cfg_state \<Rightarrow> bool" where
  "state_wf st \<longleftrightarrow> cfg_wf (g_ConfigStore st) \<and> log_switch_ok st"

text \<open>The contract of a validator: a refusal changes nothing, an acceptance keeps the invariant.\<close>

locale config_validator =
  fixes check :: "cstr option \<Rightarrow> cfg_state \<Rightarrow> bool \<times> cfg_state"
  assumes refuse: "check value st = (False, st') \<Longrightarrow> st' = st"
    and keeps: "state_wf st \<Longrightarrow> (case value of None \<Rightarrow> True | Some v \<Rightarrow> NUL \<notin> set v) \<Longrightarrow>
      state_wf (snd (check value st))"
    and keeps_imei: "imei (g_ConfigStore (snd (check value st))) = imei (g_ConfigStore st)"
begin

lemma run_keeps:
  "state_wf st \<Longrightarrow> \<forall>v \<in> set vs. NUL \<notin> set v \<Longrightarrow>
   state_wf (fold (\<lambda>v st. snd (check (Some v) st)) vs st)"
proof (induction vs arbitrary: st)
  case (Cons v vs)
  have "state_wf (snd (check (Some v) st))" by (rule keeps) (use Cons.prems in auto)
  then show ?case using Cons by simp
qed simp

end

lemma cstr_ok_strncpy0:
  "0 < n \<Longrightarrow> NUL \<notin> set v \<Longrightarrow> lo \<le> min (length v) (n - 1) \<Longrightarrow> cstr_ok lo n (strncpy0 n v)"
  by (auto simp: cstr_ok_def strncpy0_def dest: in_set_takeD)

lemma strtol_Nil: "strtol [] 10 = (0, [])"
  by (simp add: strtol_def strtol_sign_def strtol_prefix_def)

lemmas validator_simps =
  state_wf_def cfg_wf_def log_switch_ok_def set_cfg_def GPS_SaveLog_def Let_def

interpretation device_name: config_validator DeviceNameValidate
  by unfold_locales
    (auto simp: validator_simps DeviceNameValidate_def uere_ok_def Suc_le_eq intro!: cstr_ok_strncpy0 split: option.splits if_splits)

interpretation server: config_validator ServerValidate
  by unfold_locales
    (auto simp: validator_simps ServerValidate_def uere_ok_def Suc_le_eq intro!: cstr_ok_strncpy0 split: option.splits if_splits)

interpretation protocol: config_validator ProtocolValidate
  by unfold_locales
    (auto simp: validator_simps ProtocolValidate_def uere_ok_def split: option.splits if_splits)

interpretation port: config_validator PortValidate
proof (unfold_locales, goal_cases)
  case (1 x st st')
  then show ?case by (auto simp: PortValidate_def split: option.splits prod.splits if_splits)
next
  case (2 st x)
  have "v \<noteq> []" if "strtol v 10 = (n, r)" "0 < n" for v n r using that strtol_Nil by auto
  then show ?case using 2
    by (auto simp: validator_simps PortValidate_def Suc_le_eq intro!: cstr_ok_strncpy0
        split: option.splits prod.splits if_splits)
next
  case (3 x st)
  then show ?case by (auto simp: PortValidate_def set_cfg_def split: option.splits prod.splits if_splits)
qed

interpretation apn: config_validator ApnValidate
  by unfold_locales
    (auto simp: validator_simps ApnValidate_def uere_ok_def Suc_le_eq intro!: cstr_ok_strncpy0 split: option.splits if_splits)

lemma cstr_ok_Nil: "0 < n \<Longrightarrow> cstr_ok 0 n []"
  by (simp add: cstr_ok_def)

interpretation apn_user: config_validator ApnUserValidate
  by unfold_locales
    (auto simp: validator_simps ApnUserValidate_def uere_ok_def Suc_le_eq intro!: cstr_ok_strncpy0 cstr_ok_Nil split: option.splits if_splits)

interpretation apn_pass: config_validator ApnPassValidate
  by unfold_locales
    (auto simp: validator_simps ApnPassValidate_def uere_ok_def Suc_le_eq intro!: cstr_ok_strncpy0 cstr_ok_Nil split: option.splits if_splits)

interpretation log_level: config_validator LogLevelValidate
  by unfold_locales
    (auto simp: validator_simps LogLevelValidate_def split: option.splits if_splits)

interpretation log_output: config_validator LogOutputValidate
  by unfold_locales
    (auto simp: validator_simps LogOutputValidate_def split: option.splits if_splits)

interpretation gps_uere: config_validator GpsUereValidate
  by unfold_locales
    (auto simp: validator_simps GpsUereValidate_def uere_ok_def split: option.splits if_splits)

interpretation gps_logging: config_validator GpsLoggingValidate
  by unfold_locales
    (auto simp: validator_simps GpsLoggingValidate_def split: option.splits if_splits)

interpretation gps_log_file: config_validator GpsLogFileValidate
  by unfold_locales
    (auto simp: validator_simps GpsLogFileValidate_def uere_ok_def Suc_le_eq intro!: cstr_ok_strncpy0 split: option.splits if_splits)

interpretation gps_print_pos: config_validator GpsPrintPosValidate
  by unfold_locales
    (auto simp: validator_simps GpsPrintPosValidate_def split: option.splits if_splits)

lemma validators_contract:
  "e \<in> set g_config_map \<Longrightarrow> config_validator (validator e)"
  unfolding g_config_map_def
  using device_name.config_validator_axioms server.config_validator_axioms port.config_validator_axioms
    protocol.config_validator_axioms apn.config_validator_axioms apn_user.config_validator_axioms
    apn_pass.config_validator_axioms log_level.config_validator_axioms log_output.config_validator_axioms
    gps_uere.config_validator_axioms gps_logging.config_validator_axioms gps_log_file.config_validator_axioms
    gps_print_pos.config_validator_axioms
  by (auto simp: entry_defs)

text \<open>
  C9. Every validator of \<open>g_config_map\<close> keeps the configuration well formed (each string
  terminated within its array, mandatory strings non-empty, the range error strictly
  between 0 and 100, the GPS log switch in step with \<open>gps_logging\<close>) whatever text it is
  given, and changes nothing when it refuses the text.
\<close>

theorem validators_keep_wf:
  assumes "e \<in> set g_config_map" "state_wf st" "NUL \<notin> set v"
  shows "state_wf (snd (validator e (Some v) st)) \<and>
    (\<not> fst (validator e (Some v) st) \<longrightarrow> snd (validator e (Some v) st) = st)"
proof -
  obtain ok st' where r: "validator e (Some v) st = (ok, st')" by fastforce
  have "state_wf (snd (validator e (Some v) st))"
    by (rule config_validator.keeps [OF validators_contract [OF assms(1)] assms(2)]) (use assms(3) in simp)
  moreover have "st' = st" if "\<not> ok"
    by (rule config_validator.refuse [OF validators_contract [OF assms(1)]]) (use r that in simp)
  ultimately show ?thesis using r by simp
qed

section \<open>Defaults\<close>

text \<open>\<open>memset\<close> of the record: what the store holds before the defaults are applied.\<close>

definition zero_config :: t_Config where
  "zero_config = \<lparr>imei = [], device_name = [], server_addr = [], server_port = [],
     server_protocol = PROT_HTTP, apn = [], apn_user = [], apn_pass = [], gps_uere = FFin 0,
     gps_print_pos = False, gps_logging = False, gps_log_file = [], logLevel = LOG_LEVEL_NONE,
     logOutput = LOGGER_OUTPUT_UART\<rparr>"

definition boot_state :: cfg_state where
  "boot_state = \<lparr>g_ConfigStore = zero_config, isSaveLog = False, gpsLogPath = PathNull\<rparr>"

fun apply_default :: "t_config_map \<Rightarrow> cfg_state \<Rightarrow> cfg_state" where
  "apply_default e st = snd (validator e (Some (default_value e)) st)"

definition default_config :: t_Config where
  "default_config = \<lparr>imei = [], device_name = ''IMEI'', server_addr = ''demo3.traccar.org'', server_port = ''5055'',
     server_protocol = PROT_HTTPS, apn = ''internet'', apn_user = [], apn_pass = [], gps_uere = FFin 5,
     gps_print_pos = False, gps_logging = False, gps_log_file = ''/t/gps_nmea.log'', logLevel = LOG_LEVEL_INFO,
     logOutput = LOGGER_OUTPUT_UART\<rparr>"

lemmas word_cmp_simps = tolower_def isupper_def Let_def

lemma parse_uere_int: "dec_literal s = of_int n \<Longrightarrow> \<bar>n\<bar> < 2 ^ 24 \<Longrightarrow> parse_uere s = FFin (of_int n)"
  using fp_round_exact_int [of n 53 "- 1022" 1023] fp_round_exact_int [of n 24 "- 126" 127]
  by (simp add: parse_uere_def atof_def f64_round_def f32_round_def)

lemma parse_uere_5: "parse_uere ''5'' = FFin 5"
  using dec_literal_int [of "''5''"] parse_uere_int [of "''5''" 5] by (simp add: isdigit_def digit_val_def)

lemma uere_5: "f32_less (f32_of_int 0) (FFin 5)" "f32_less (FFin 5) (f32_of_int 100)"
  by (simp_all add: f32_of_int_exact)

lemma strtol_5055: "strtol ''5055'' 10 = (5055, [])"
  by (subst strtol_dec) (simp_all add: isdigit_def digit_val_def)

lemmas default_simps = set_cfg_def GPS_SaveLog_def strncpy0_def uere_5 parse_uere_5 strtol_5055
  means_false_def means_true_def word_cmp_simps zero_config_def boot_state_def

lemma defaults_applied:
  "fold apply_default g_config_map boot_state =
     \<lparr>g_ConfigStore = default_config, isSaveLog = False, gpsLogPath = PathConfig\<rparr>"
  by (simp add: g_config_map_def entry_defs validator_defs default_simps default_config_def DEFAULT_DEVICE_NAME_def)

lemma default_wf: "state_wf \<lparr>g_ConfigStore = default_config, isSaveLog = False, gpsLogPath = PathConfig\<rparr>"
  by (simp add: state_wf_def cfg_wf_def cstr_ok_def default_config_def uere_ok_def uere_5 log_switch_ok_def)

theorem validators_keep_wf_witness:
  "state_wf (snd (validator entry_port (Some ''8082'')
      \<lparr>g_ConfigStore = default_config, isSaveLog = False, gpsLogPath = PathConfig\<rparr>))"
  using validators_keep_wf [OF _ default_wf, of entry_port "''8082''"] by (simp add: g_config_map_def)

section \<open>Reading back what a serializer wrote\<close>

text \<open>
  A text survives a line of the configuration file when it holds no terminator and no
  white space at its ends.
\<close>

definition value_text :: "cstr \<Rightarrow> bool" where
  "value_text s \<longleftrightarrow> NUL \<notin> set s \<and> LF \<notin> set s \<and> strip s = s"

text \<open>
  The contract of a row of the table: a saved value \<open>ok\<close> accepts is a short text, and the
  row's validator, given that text, restores the field (\<open>restore c\<close>) and accepts.
\<close>

locale config_param = config_validator "validator e" for e :: t_config_map +
  fixes restore :: "t_Config \<Rightarrow> cfg_state \<Rightarrow> cfg_state" and ok :: "t_Config \<Rightarrow> bool"
  assumes listed: "e \<in> set g_config_map"
    and name_text: "value_text (param_name e) \<and> CHR ''='' \<notin> set (param_name e) \<and> length (param_name e) \<le> 20"
    and written: "ok c \<Longrightarrow> \<exists>s. serializer e c = Some s \<and> value_text s \<and> length s < MAX_GPS_LOG_PATH_LENGTH
      \<and> validator e (Some s) st = (True, restore c st)"
begin

lemma found: "getConfigMap (Some (param_name e)) = Some e"
  using listed by (rule getConfigMap_entry)

lemma reads_back:
  assumes "ok c" "serializer e c = Some s"
  shows "value_text s" "length s < MAX_GPS_LOG_PATH_LENGTH" "validator e (Some s) st = (True, restore c st)"
  using written [OF assms(1), of st] assms(2) by auto

end

lemma snprintf_str: "length s < MAX_LINE_LENGTH \<Longrightarrow> snprintf MAX_LINE_LENGTH ''%s'' [AStr s] = s"
  by (simp add: snprintf_def snprintf_trunc_fits printf_simps)

lemma value_text_plain:
  assumes "list_all (\<lambda>c. \<not> isspace c \<and> c \<noteq> NUL) s" shows "value_text s"
proof -
  have a: "\<forall>c \<in> set s. \<not> isspace c \<and> c \<noteq> NUL" using assms by (simp add: list_all_iff)
  have "isspace LF" by (simp add: isspace_def)
  then have "NUL \<notin> set s" "LF \<notin> set s" using a by blast+
  moreover have "strip s = s" by (rule strip_unneeded) (use a in \<open>cases "s = []"; simp\<close>)
  ultimately show ?thesis by (simp add: value_text_def)
qed

text \<open>The string parameters share the shape: the text is the field itself.\<close>

lemma string_written:
  assumes "value_text s" "length s < n" "n \<le> MAX_GPS_LOG_PATH_LENGTH"
  shows "StringSerializer (Some s) = Some s" "strncpy0 n s = s"
  using assms by (simp_all add: StringSerializer_def snprintf_str strncpy0_fits)

definition text_ok :: "nat \<Rightarrow> nat \<Rightarrow> cstr \<Rightarrow> bool" where
  "text_ok lo n s \<longleftrightarrow> value_text s \<and> lo \<le> length s \<and> length s < n"

lemma text_okD: "text_ok lo n s \<Longrightarrow> value_text s" "text_ok lo n s \<Longrightarrow> lo \<le> length s" "text_ok lo n s \<Longrightarrow> length s < n"
  by (simp_all add: text_ok_def)

text \<open>The rows, with the value each restores and the values that survive.\<close>

definition port_ok :: "cstr \<Rightarrow> bool" where
  "port_ok s \<longleftrightarrow> text_ok 1 MAX_SERVER_PORT_LENGTH s \<and> (let (p, rest) = strtol s 10 in rest = [] \<and> 0 < p \<and> p \<le> 65535)"

text \<open>A range error that its six printed decimals determine.\<close>

definition uere_saved :: "fpv \<Rightarrow> bool" where
  "uere_saved u \<longleftrightarrow> uere_ok u \<and> parse_uere (float_str 6 u) = u"


lemma names_ok:
  "e \<in> set g_config_map \<Longrightarrow> value_text (param_name e) \<and> CHR ''='' \<notin> set (param_name e) \<and> length (param_name e) \<le> 20"
proof -
  have "list_all (\<lambda>e. list_all (\<lambda>c. \<not> isspace c \<and> c \<noteq> NUL) (param_name e) \<and>
      list_all (\<lambda>c. c \<noteq> CHR ''='') (param_name e) \<and> length (param_name e) \<le> 20) g_config_map"
    by (simp add: g_config_map_def entry_defs isspace_def)
  moreover assume "e \<in> set g_config_map"
  ultimately have "list_all (\<lambda>c. \<not> isspace c \<and> c \<noteq> NUL) (param_name e)"
    "list_all (\<lambda>c. c \<noteq> CHR ''='') (param_name e)" "length (param_name e) \<le> 20"
    by (auto simp: list_all_iff)
  then show ?thesis using value_text_plain by (auto simp: list_all_iff)
qed

lemma rowI:
  assumes "e \<in> set g_config_map"
    and "\<And>c st. ok c \<Longrightarrow> \<exists>s. serializer e c = Some s \<and> value_text s \<and> length s < MAX_GPS_LOG_PATH_LENGTH
      \<and> validator e (Some s) st = (True, restore c st)"
  shows "config_param e restore ok"
  by (rule config_param.intro [OF validators_contract [OF assms(1)] config_param_axioms.intro])
    (use assms names_ok in auto)

lemmas row_simps = g_config_map_def validator_defs set_cfg_def string_written text_okD snprintf_str

interpretation row_device_name: config_param entry_device_name
  "\<lambda>c. set_cfg (device_name_update (\<lambda>_. device_name c))" "\<lambda>c. text_ok 1 MAX_DEVICE_NAME_LENGTH (device_name c)"
proof (rule rowI, goal_cases)
  case (2 c st)
  then show ?case
    using string_written [of "device_name c" MAX_DEVICE_NAME_LENGTH] by (auto simp: text_ok_def entry_device_name_def DeviceNameValidate_def Let_def)
qed (simp add: g_config_map_def)

interpretation row_server: config_param entry_server
  "\<lambda>c. set_cfg (server_addr_update (\<lambda>_. server_addr c))" "\<lambda>c. text_ok 1 MAX_SERVER_ADDR_LENGTH (server_addr c)"
proof (rule rowI, goal_cases)
  case (2 c st)
  then show ?case
    using string_written [of "server_addr c" MAX_SERVER_ADDR_LENGTH] by (auto simp: text_ok_def entry_server_def ServerValidate_def Let_def)
qed (simp add: g_config_map_def)

interpretation row_apn: config_param entry_apn
  "\<lambda>c. set_cfg (apn_update (\<lambda>_. apn c))" "\<lambda>c. text_ok 1 MAX_APN_LENGTH (apn c)"
proof (rule rowI, goal_cases)
  case (2 c st)
  then show ?case
    using string_written [of "apn c" MAX_APN_LENGTH] by (auto simp: text_ok_def entry_apn_def ApnValidate_def Let_def)
qed (simp add: g_config_map_def)

interpretation row_apn_user: config_param entry_apn_user
  "\<lambda>c. set_cfg (apn_user_update (\<lambda>_. apn_user c))" "\<lambda>c. text_ok 0 MAX_APN_USER_LENGTH (apn_user c)"
proof (rule rowI, goal_cases)
  case (2 c st)
  then show ?case
    using string_written [of "apn_user c" MAX_APN_USER_LENGTH] by (auto simp: text_ok_def entry_apn_user_def ApnUserValidate_def Let_def)
qed (simp add: g_config_map_def)

interpretation row_apn_pass: config_param entry_apn_pass
  "\<lambda>c. set_cfg (apn_pass_update (\<lambda>_. apn_pass c))" "\<lambda>c. text_ok 0 MAX_APN_USER_LENGTH (apn_pass c)"
proof (rule rowI, goal_cases)
  case (2 c st)
  then show ?case
    using string_written [of "apn_pass c" MAX_APN_USER_LENGTH] by (auto simp: text_ok_def entry_apn_pass_def ApnPassValidate_def Let_def)
qed (simp add: g_config_map_def)

interpretation row_port: config_param entry_port
  "\<lambda>c. set_cfg (server_port_update (\<lambda>_. server_port c))" "\<lambda>c. port_ok (server_port c)"
proof (rule rowI, goal_cases)
  case (2 c st)
  then show ?case
    using string_written [of "server_port c" MAX_SERVER_PORT_LENGTH]
    by (auto simp: port_ok_def text_ok_def entry_port_def PortValidate_def Let_def split: prod.splits)
qed (simp add: g_config_map_def)

text \<open>The parameters whose text is one of a fixed set of words.\<close>

lemma word_text: "list_all (\<lambda>c. \<not> isspace c \<and> c \<noteq> NUL) s \<Longrightarrow> length s < 10 \<Longrightarrow>
    value_text s \<and> length s < MAX_GPS_LOG_PATH_LENGTH"
  by (simp add: value_text_plain)

interpretation row_protocol: config_param entry_protocol
  "\<lambda>c. set_cfg (server_protocol_update (\<lambda>_. server_protocol c))" "\<lambda>_. True"
proof (rule rowI, goal_cases)
  case (2 c st)
  show ?case
    using word_text [of "''http''"] word_text [of "''https''"]
    by (cases "server_protocol c")
      (simp_all add: entry_protocol_def ProtocolSerializer_def ProtocolValidate_def word_cmp_simps isspace_def)
qed (simp add: g_config_map_def)

interpretation row_log_level: config_param entry_log_level
  "\<lambda>c. set_cfg (logLevel_update (\<lambda>_. logLevel c))" "\<lambda>c. logLevel c \<noteq> LOG_LEVEL_NONE"
proof (rule rowI, goal_cases)
  case (2 c st)
  then show ?case
    using word_text [of "''error''"] word_text [of "''warn''"] word_text [of "''info''"] word_text [of "''debug''"]
    by (cases "logLevel c")
      (simp_all add: entry_log_level_def LogLevelSerializer_def LogLevelValidate_def word_cmp_simps isspace_def)
qed (simp add: g_config_map_def)

interpretation row_log_output: config_param entry_log_output
  "\<lambda>c. set_cfg (logOutput_update (\<lambda>_. logOutput c))" "\<lambda>_. True"
proof (rule rowI, goal_cases)
  case (2 c st)
  show ?case
    using word_text [of "''uart''"] word_text [of "''trace''"] word_text [of "''file''"]
    by (cases "logOutput c")
      (simp_all add: entry_log_output_def LogOutputSerializer_def LogOutputValidate_def word_cmp_simps isspace_def)
qed (simp add: g_config_map_def)

lemma bool_written: "BoolSerializer (Some b) = Some (if b then ''true'' else ''false'')"
  by (simp add: BoolSerializer_def snprintf_str)

lemma bool_words: "means_false ''false''" "\<not> means_false ''true''" "means_true ''true''"
  by (simp_all add: means_false_def means_true_def word_cmp_simps)

interpretation row_gps_logging: config_param entry_gps_logging
  "\<lambda>c st. GPS_SaveLog (gps_logging c) PathConfig (set_cfg (gps_logging_update (\<lambda>_. gps_logging c)) st)" "\<lambda>_. True"
proof (rule rowI, goal_cases)
  case (2 c st)
  show ?case
    using word_text [of "''true''"] word_text [of "''false''"] bool_words
    by (cases "gps_logging c")
      (simp_all add: entry_gps_logging_def bool_written GpsLoggingValidate_def isspace_def)
qed (simp add: g_config_map_def)

interpretation row_gps_print_pos: config_param entry_gps_print_pos
  "\<lambda>c. set_cfg (gps_print_pos_update (\<lambda>_. gps_print_pos c))" "\<lambda>_. True"
proof (rule rowI, goal_cases)
  case (2 c st)
  show ?case
    using word_text [of "''true''"] word_text [of "''false''"] bool_words
    by (cases "gps_print_pos c")
      (simp_all add: entry_gps_print_pos_def bool_written GpsPrintPosValidate_def isspace_def)
qed (simp add: g_config_map_def)

interpretation row_gps_log_file: config_param entry_gps_log_file
  "\<lambda>c st. let st' = set_cfg (gps_log_file_update (\<lambda>_. gps_log_file c)) st
           in GPS_SaveLog (gps_logging (g_ConfigStore st')) PathConfig st'"
  "\<lambda>c. text_ok 1 MAX_GPS_LOG_PATH_LENGTH (gps_log_file c)"
proof (rule rowI, goal_cases)
  case (2 c st)
  then show ?case
    using string_written [of "gps_log_file c" MAX_GPS_LOG_PATH_LENGTH]
    by (auto simp: text_ok_def entry_gps_log_file_def GpsLogFileValidate_def Let_def)
qed (simp add: g_config_map_def)

lemma uere_ok_cases: "uere_ok u \<Longrightarrow> \<exists>x. u = FFin x \<and> 0 < x \<and> x < 100"
  by (cases u) (auto simp: uere_ok_def f32_of_int_exact)

lemma fixed_str_text:
  assumes "0 \<le> x" "x < 1000"
  shows "list_all (\<lambda>c. \<not> isspace c \<and> c \<noteq> NUL) (fixed_str 6 x)" "length (fixed_str 6 x) \<le> 11"
proof -
  define m where "m = nat (rne (x * 10 ^ 6))"
  have fs: "fixed_str 6 x = nat_str (m div 10 ^ 6) @ CHR ''.'' # zpad 6 (nat_str (m mod 10 ^ 6))"
    using assms by (simp add: fixed_str_def Let_def m_def)
  have d: "isdigit c \<Longrightarrow> \<not> isspace c \<and> c \<noteq> NUL" for c by (auto simp: isdigit_def isspace_def)
  have "c \<in> set (zpad 6 (nat_str (m mod 10 ^ 6))) \<Longrightarrow> isdigit c" for c
    using zpad_digits nat_str_digits by blast
  then show "list_all (\<lambda>c. \<not> isspace c \<and> c \<noteq> NUL) (fixed_str 6 x)"
    unfolding fs list_all_iff using d nat_str_digits by (auto simp: isspace_def)
  have "rne (x * 10 ^ 6) \<le> 1000000000"
  proof -
    have "of_int (rne (x * 10 ^ 6)) \<le> x * 10 ^ 6 + 1 / 2" by (rule rne_le_half)
    also have "\<dots> < of_int 1000000001" using assms by simp
    finally show ?thesis unfolding of_int_less_iff by simp
  qed
  then have "m div 10 ^ 6 \<le> 1000000000 div 10 ^ 6" unfolding m_def by (intro div_le_mono) simp
  then have "length (nat_str (m div 10 ^ 6)) \<le> 4" by (intro length_nat_str) simp_all
  moreover have "length (nat_str (m mod 10 ^ 6)) \<le> 6" by (intro length_nat_str) simp_all
  ultimately show "length (fixed_str 6 x) \<le> 11" unfolding fs by (simp add: length_zpad)
qed

lemma float_written:
  assumes "0 \<le> x" "x < 1000" shows "FloatSerializer (Some (FFin x)) = Some (fixed_str 6 x)"
  using fixed_str_text [OF assms]
  by (simp add: FloatSerializer_def snprintf_def snprintf_trunc_fits printf_simps)

interpretation row_gps_uere: config_param entry_gps_uere
  "\<lambda>c. set_cfg (gps_uere_update (\<lambda>_. gps_uere c))" "\<lambda>c. uere_saved (gps_uere c)"
proof (rule rowI, goal_cases)
  case (2 c st)
  then obtain x where x: "gps_uere c = FFin x" "0 < x" "x < 100" "parse_uere (fixed_str 6 x) = FFin x"
    using uere_ok_cases [of "gps_uere c"] by (auto simp: uere_saved_def)
  have "FloatSerializer (Some (FFin x)) = Some (fixed_str 6 x)" using x by (intro float_written) simp_all
  moreover have "value_text (fixed_str 6 x)" "length (fixed_str 6 x) < MAX_GPS_LOG_PATH_LENGTH"
    using fixed_str_text [of x] x value_text_plain by simp_all
  ultimately show ?case
    using x 2 by (auto simp: entry_gps_uere_def GpsUereValidate_def uere_saved_def uere_ok_def)
qed (simp add: g_config_map_def)

text \<open>Every whole number of metres is saved exactly.\<close>

lemma uere_saved_int:
  assumes "0 < n" "n < 100" shows "uere_saved (FFin (of_int n))"
proof -
  have e: "of_int n * 10 ^ 6 = (of_int (n * 10 ^ 6) :: rat)" by simp
  have "dec_literal (fixed_str 6 (of_int n)) = of_int n"
    using dec_literal_fixed_str [of "of_int n" 6] assms unfolding e rne_of_int by simp
  then have "parse_uere (fixed_str 6 (of_int n)) = FFin (of_int n)"
    using assms by (intro parse_uere_int) simp_all
  then show ?thesis using assms by (simp add: uere_saved_def uere_ok_def f32_of_int_exact)
qed

section \<open>The range error near zero\<close>

text \<open>
  A range error below half a millionth is accepted by its validator but saved as
  \<open>0.000000\<close>, a text the same validator refuses: the setting is lost on the next start.
\<close>

theorem tiny_uere_lost:
  assumes "0 < x" "x < 1 / 2000000" "gps_uere c = FFin x"
  shows "uere_ok (gps_uere c) \<and> serializer entry_gps_uere c = Some ''0.000000'' \<and>
    validator entry_gps_uere (Some ''0.000000'') st = (False, st)"
proof -
  have "rne (x * 10 ^ 6) = 0"
  proof -
    have "\<lfloor>x * 10 ^ 6\<rfloor> = 0" using assms(1,2) by (simp add: floor_eq_iff)
    then show ?thesis using assms(1,2) by (simp add: rne_def Let_def)
  qed
  then have "fixed_str 6 x = nat_str 0 @ CHR ''.'' # zpad 6 (nat_str 0)"
    using assms(1) by (simp add: fixed_str_def Let_def)
  moreover have "nat_str 0 = ''0''" by code_simp
  moreover have "zpad 6 ''0'' = ''000000''" by (simp add: zpad_def numeral_eq_Suc)
  ultimately have s: "fixed_str 6 x = ''0.000000''" by simp
  have "dec_literal ''0.000000'' = 0"
    using dec_literal_fixed_str [of x 6] assms(1) \<open>rne (x * 10 ^ 6) = 0\<close> unfolding s by simp
  then have "parse_uere ''0.000000'' = FFin 0" using parse_uere_int [of "''0.000000''" 0] by simp
  moreover have "FloatSerializer (Some (FFin x)) = Some (fixed_str 6 x)"
    using assms by (intro float_written) simp_all
  ultimately show ?thesis
    using assms s by (simp add: uere_ok_def f32_of_int_exact entry_gps_uere_def GpsUereValidate_def)
qed

theorem tiny_uere_lost_witness:
  "uere_ok (FFin (1 / 10000000)) \<and>
   serializer entry_gps_uere (default_config\<lparr>gps_uere := FFin (1 / 10000000)\<rparr>) = Some ''0.000000''"
  using tiny_uere_lost [of "1 / 10000000" "default_config\<lparr>gps_uere := FFin (1 / 10000000)\<rparr>"] by simp

end
