(* ===== verification/Debug_Log.thy ===== *)
theory Debug_Log
  imports Config_Validation
begin

text \<open>
  \<open>app/src/debug.c\<close>: formatted output to the UART and the log file, and the logger behind
  the \<open>LOGx\<close> macros, which filters by level and routes by the configured output.
\<close>

abbreviation LOG_LEVEL_BUFFER_SIZE :: nat where "LOG_LEVEL_BUFFER_SIZE \<equiv> 1024"

text \<open>The value of the enumeration constant.\<close>

fun level_num :: "t_logLevel \<Rightarrow> nat" where
  "level_num LOG_LEVEL_NONE = 0"
| "level_num LOG_LEVEL_ERROR = 1"
| "level_num LOG_LEVEL_WARN = 2"
| "level_num LOG_LEVEL_INFO = 3"
| "level_num LOG_LEVEL_DEBUG = 4"

record RTC_Time_t =
  rtc_year :: int
  rtc_month :: int
  rtc_day :: int
  rtc_hour :: int
  rtc_minute :: int
  rtc_second :: int
  rtc_timeZone :: int
  rtc_timeZoneMinutes :: int

text \<open>
  \<open>vsnprintf\<close> returns the untruncated length; the clamp then keeps what the buffer holds.
\<close>

definition clamped :: "cstr \<Rightarrow> cstr" where
  "clamped s = (let len = length s;
                    len' = (if LOG_LEVEL_BUFFER_SIZE \<le> len then LOG_LEVEL_BUFFER_SIZE - 1 else len)
                in take len' (snprintf_trunc LOG_LEVEL_BUFFER_SIZE s))"

definition UART_Printf :: "cstr \<Rightarrow> fmtarg list \<Rightarrow> effect list" where
  "UART_Printf fmt args =
     (let s = sprintf fmt args in if 0 < length s then [Uart (clamped s)] else [])"

text \<open>\<open>fwrite\<close> is the result of \<open>API_FS_Write(g_log_file, ...)\<close> on the bytes.\<close>

definition FILE_Printf :: "(cstr \<Rightarrow> int) \<Rightarrow> cstr \<Rightarrow> fmtarg list \<Rightarrow> effect list" where
  "FILE_Printf fwrite fmt args =
     (let s = sprintf fmt args; buf = clamped s
      in if 0 < length s
         then LogFile buf # (if fwrite buf \<le> 0 then [Uart buf] else [])
         else [])"

text \<open>The calls of the \<open>LOGx\<close> macros, with the message formatted but not yet filtered.\<close>

definition LOGE :: "cstr \<Rightarrow> cstr \<Rightarrow> fmtarg list \<Rightarrow> effect" where
  "LOGE tag fmt args = Log LOG_LEVEL_ERROR tag (sprintf fmt args)"
definition LOGW :: "cstr \<Rightarrow> cstr \<Rightarrow> fmtarg list \<Rightarrow> effect" where
  "LOGW tag fmt args = Log LOG_LEVEL_WARN tag (sprintf fmt args)"
definition LOGI :: "cstr \<Rightarrow> cstr \<Rightarrow> fmtarg list \<Rightarrow> effect" where
  "LOGI tag fmt args = Log LOG_LEVEL_INFO tag (sprintf fmt args)"
definition LOGD :: "cstr \<Rightarrow> cstr \<Rightarrow> fmtarg list \<Rightarrow> effect" where
  "LOGD tag fmt args = Log LOG_LEVEL_DEBUG tag (sprintf fmt args)"

definition timebuf :: "RTC_Time_t \<Rightarrow> cstr" where
  "timebuf t = snprintf 16 ''%02u:%02u.%02u'' [AInt (rtc_hour t), AInt (rtc_minute t), AInt (rtc_second t)]"

definition log_message_internal ::
  "t_Config \<Rightarrow> RTC_Time_t \<Rightarrow> (cstr \<Rightarrow> int) \<Rightarrow> t_logLevel \<Rightarrow> cstr \<Rightarrow> cstr \<Rightarrow> effect list" where
  "log_message_internal cfg now fwrite level tag text =
     (if level_num level > level_num (logLevel cfg) \<or> level = LOG_LEVEL_NONE then []
      else
        let message = snprintf_trunc LOG_LEVEL_BUFFER_SIZE text; tb = timebuf now;
            lv = the (LogLevelSerializer (Some level))
        in case logOutput cfg of
             LOGGER_OUTPUT_TRACE \<Rightarrow>
               [TraceOut (level_num level) (sprintf (''[%s] [%s] %s'' @ [LF]) [AStr tb, AStr tag, AStr message])]
           | LOGGER_OUTPUT_FILE \<Rightarrow>
               FILE_Printf fwrite (''[%s] [%s] [%s] %s'' @ [LF]) [AStr tb, AStr tag, AStr lv, AStr message]
           | LOGGER_OUTPUT_UART \<Rightarrow>
               UART_Printf (''[%s] [%s] [%s] %s'' @ [LF]) [AStr tb, AStr tag, AStr lv, AStr message])"

text \<open>A trace of effects as it leaves the device, with the logger's calls carried out.\<close>

fun route :: "t_Config \<Rightarrow> RTC_Time_t \<Rightarrow> (cstr \<Rightarrow> int) \<Rightarrow> effect \<Rightarrow> effect list" where
  "route cfg now fwrite (Log level tag message) = log_message_internal cfg now fwrite level tag message"
| "route cfg now fwrite e = [e]"

section \<open>Lemmas\<close>

lemma clamped_eq: "clamped s = take 1023 s"
  by (simp add: clamped_def snprintf_trunc_def Let_def)

lemma length_clamped: "length (clamped s) < LOG_LEVEL_BUFFER_SIZE"
  by (simp add: clamped_eq)

lemma clamped_fits: "length s < LOG_LEVEL_BUFFER_SIZE \<Longrightarrow> clamped s = s"
  by (simp add: clamped_eq)

lemma log_line:
  "sprintf (''[%s] [%s] [%s] %s'' @ [LF]) [AStr a, AStr b, AStr c, AStr d] =
   CHR ''['' # a @ ''] ['' @ b @ ''] ['' @ c @ ''] '' @ d @ [LF]"
  by (simp add: printf_simps)

lemma trace_line:
  "sprintf (''[%s] [%s] %s'' @ [LF]) [AStr a, AStr b, AStr c] =
   CHR ''['' # a @ ''] ['' @ b @ ''] '' @ c @ [LF]"
  by (simp add: printf_simps)

definition log_text :: "RTC_Time_t \<Rightarrow> t_logLevel \<Rightarrow> cstr \<Rightarrow> cstr \<Rightarrow> cstr" where
  "log_text now level tag message =
     CHR ''['' # timebuf now @ ''] ['' @ tag @ ''] ['' @ the (LogLevelSerializer (Some level)) @ ''] '' @ message @ [LF]"

text \<open>
  C23. The logger emits nothing above the configured level, and below it one line on the
  configured output, whole when it fits the line buffer; a failed write to the log file is
  repeated on the UART.
\<close>

theorem log_filter_and_route:
  assumes "level \<noteq> LOG_LEVEL_NONE" "length (log_text now level tag message) < LOG_LEVEL_BUFFER_SIZE"
  shows "log_message_internal cfg now fwrite level tag message =
    (if level_num level > level_num (logLevel cfg) then []
     else case logOutput cfg of
       LOGGER_OUTPUT_UART \<Rightarrow> [Uart (log_text now level tag message)]
     | LOGGER_OUTPUT_FILE \<Rightarrow>
         LogFile (log_text now level tag message) #
         (if fwrite (log_text now level tag message) \<le> 0 then [Uart (log_text now level tag message)] else [])
     | LOGGER_OUTPUT_TRACE \<Rightarrow>
         [TraceOut (level_num level) (CHR ''['' # timebuf now @ ''] ['' @ tag @ ''] '' @ message @ [LF])])"
proof -
  have m: "snprintf_trunc LOG_LEVEL_BUFFER_SIZE message = message"
    using assms(2) by (intro snprintf_trunc_fits) (simp add: log_text_def)
  have t: "sprintf (''[%s] [%s] [%s] %s'' @ [LF])
      [AStr (timebuf now), AStr tag, AStr (the (LogLevelSerializer (Some level))), AStr message] =
      log_text now level tag message"
    unfolding log_line log_text_def ..
  have ne: "0 < length (log_text now level tag message)" by (simp add: log_text_def)
  show ?thesis
    unfolding log_message_internal_def Let_def m UART_Printf_def FILE_Printf_def t trace_line clamped_fits [OF assms(2)]
    using assms(1) ne by (auto split: t_logOutput.splits)
qed

theorem log_filter_and_route_witness:
  "log_message_internal default_config \<lparr>rtc_year = 2024, rtc_month = 1, rtc_day = 1, rtc_hour = 7, rtc_minute = 5,
      rtc_second = 9, rtc_timeZone = 0, rtc_timeZoneMinutes = 0\<rparr> (\<lambda>_. 0) LOG_LEVEL_DEBUG ''Net'' ''up'' = []
   \<and> length (log_message_internal default_config \<lparr>rtc_year = 2024, rtc_month = 1, rtc_day = 1, rtc_hour = 7, rtc_minute = 5,
      rtc_second = 9, rtc_timeZone = 0, rtc_timeZoneMinutes = 0\<rparr> (\<lambda>_. 0) LOG_LEVEL_WARN ''Net'' ''up'') = 1"
proof -
  let ?now = "\<lparr>rtc_year = 2024, rtc_month = 1, rtc_day = 1, rtc_hour = 7, rtc_minute = 5,
      rtc_second = 9, rtc_timeZone = 0, rtc_timeZoneMinutes = 0\<rparr>"
  have "length (timebuf ?now) < 16" by (simp add: timebuf_def snprintf_def length_snprintf_trunc)
  then have l: "length (log_text ?now lv ''Net'' ''up'') < LOG_LEVEL_BUFFER_SIZE" for lv
    by (cases lv) (simp_all add: log_text_def LogLevelSerializer_def)
  show ?thesis
    using log_filter_and_route [OF _ l [of LOG_LEVEL_DEBUG], of default_config "\<lambda>_. 0"]
      log_filter_and_route [OF _ l [of LOG_LEVEL_WARN], of default_config "\<lambda>_. 0"]
    by (simp add: default_config_def)
qed

text \<open>No line on the UART outgrows the buffer, whatever the message.\<close>

lemma log_bounded:
  "Uart s \<in> set (log_message_internal cfg now fwrite level tag message) \<Longrightarrow> length s < LOG_LEVEL_BUFFER_SIZE"
  using length_clamped
  by (auto simp: log_message_internal_def UART_Printf_def FILE_Printf_def Let_def split: if_splits t_logOutput.splits)

lemma UART_Printf_one: "fmt = c # cs \<Longrightarrow> c \<noteq> CHR ''%'' \<Longrightarrow> \<exists>s. UART_Printf fmt args = [Uart s]"
  by (simp add: UART_Printf_def sprintf_def Let_def)

lemma length_UART_Printf [simp]: "c \<noteq> CHR ''%'' \<Longrightarrow> length (UART_Printf (c # cs) args) = 1"
proof -
  assume "c \<noteq> CHR ''%''"
  then obtain s where "UART_Printf (c # cs) args = [Uart s]" using UART_Printf_one [OF refl] by blast
  then show ?thesis by simp
qed

end
