(* ===== verification/Config_Store.thy ===== *)
theory Config_Store
  imports Debug_Log
begin

text \<open>
  \<open>app/src/config_store.c\<close>: the line parser, the loader that reads the file in chunks
  through a 256-byte buffer, the saver, and the initialisation with defaults. The loader
  is related to a plain fold over the lines of the file, and loading what was saved
  restores the configuration.
\<close>

abbreviation tag_config :: cstr where "tag_config \<equiv> ''Config''"

section \<open>One line\<close>

definition parse_line :: "cstr option \<Rightarrow> cfg_state \<Rightarrow> bool \<times> cfg_state \<times> effect list" where
  "parse_line line st = (case line of None \<Rightarrow> (False, st, [])
     | Some l \<Rightarrow>
       (case strchr l (CHR ''='') of None \<Rightarrow> (False, st, [])
        | Some (key, rest) \<Rightarrow>
          let k = trim key; v = trim (tl rest) in
          (case getConfigMap (Some k) of
             None \<Rightarrow> (False, st, [LOGE tag_config ''Unknown config key: %s'' [AStr k]])
           | Some entry \<Rightarrow>
             let (ok, st') = validator entry (Some v) st in
             if \<not> ok then (False, st', [LOGE tag_config ''Invalid value for %s: %s'' [AStr k, AStr v]])
             else (True, st', []))))"

section \<open>The file interface\<close>

text \<open>
  The file belongs to the SDK: the results of \<open>API_FS_Open\<close> and \<open>API_FS_GetFileSize\<close>, the
  bytes of the file, and what \<open>API_FS_Read\<close> returns at a position for a requested count.
  A non-negative result transfers that many bytes.
\<close>

record fs_file =
  open_ret :: int
  size_ret :: int
  file_bytes :: "char list"
  read_ret :: "nat \<Rightarrow> int \<Rightarrow> int"

text \<open>
  The documented behaviour: a read transfers at least one and at most \<open>count\<close> bytes while
  there are any (it may fall short of \<open>count\<close>), and 0 at the end of the file.
\<close>

definition read_ok :: "fs_file \<Rightarrow> bool" where
  "read_ok f \<longleftrightarrow> (\<forall>pos count. 0 < count \<longrightarrow>
     (if pos < length (file_bytes f)
      then 0 < read_ret f pos count \<and> read_ret f pos count \<le> count
         \<and> read_ret f pos count \<le> int (length (file_bytes f) - pos)
      else read_ret f pos count = 0))"

section \<open>Loading\<close>

text \<open>\<open>strchr(curr_position, '\n')\<close>: the search stops at a NUL.\<close>

definition find_newline :: "char list \<Rightarrow> cstr option" where
  "find_newline cur = map_option fst (strchr (cstr_of cur) LF)"

lemma find_newline_length: "find_newline cur = Some l \<Longrightarrow> length l < length cur"
proof -
  assume "find_newline cur = Some l"
  then obtain r where "strchr (cstr_of cur) LF = Some (l, r)" by (auto simp: find_newline_def)
  then have "cstr_of cur = l @ r" "r \<noteq> []" using strchr_append by fastforce+
  then show ?thesis
    by (metis cstr_of_def length_append length_greater_0_conv length_takeWhile_le less_add_same_cancel1 order_less_le_trans)
qed

text \<open>
  The inner loop over the lines of the buffer: \<open>cur\<close> is the valid data from
  \<open>curr_position\<close> on, \<open>final\<close> is \<open>file_size <= 0\<close>. The result is the new \<open>leftover\<close> (-1
  after a last line without newline) with the bytes it counts.
\<close>

definition take_line :: "cstr \<Rightarrow> bool \<Rightarrow> cfg_state \<Rightarrow> cfg_state \<times> effect list" where
  "take_line l skip st =
     (if skip then (st, [LOGW tag_config ''Skipping long line exceeding buffer size'' []])
      else snd (parse_line (Some (cstr_of l)) st))"

function line_loop :: "bool \<Rightarrow> char list \<Rightarrow> bool \<Rightarrow> cfg_state \<Rightarrow> effect list \<Rightarrow>
    int \<times> char list \<times> bool \<times> cfg_state \<times> effect list" where
  "line_loop final cur skip st eff =
     (if cur = [] then (0, [], skip, st, eff)
      else case find_newline cur of
        None \<Rightarrow>
          if final then let (st', e) = take_line cur skip st in (- 1, [], False, st', eff @ e)
          else (int (length cur), cur, skip, st, eff)
      | Some l \<Rightarrow>
          let (st', e) = take_line l skip st
          in line_loop final (drop (length l + 1) cur) False st' (eff @ e))"
  by pat_completeness auto
termination
  by (relation "measure (\<lambda>(final, cur, _). length cur)") (auto dest: find_newline_length)

declare line_loop.simps [simp del]

text \<open>
  The outer loop: the read position, \<open>file_size\<close>, \<open>leftover\<close> with the bytes it counts,
  and the flag. With \<open>leftover = -1\<close> the read goes to the byte before the buffer, so the
  first byte read would be lost. \<open>None\<close> would be a loop that never ends.
\<close>

partial_function (option) load_loop ::
  "fs_file \<Rightarrow> nat \<Rightarrow> int \<Rightarrow> int \<Rightarrow> char list \<Rightarrow> bool \<Rightarrow> cfg_state \<Rightarrow> effect list \<Rightarrow>
    (bool \<times> cfg_state \<times> effect list) option" where
  "load_loop f pos file_size leftover buf skip st eff =
     (let read_bytes = read_ret f pos (int MAX_LINE_LENGTH - leftover - 1) in
      if read_bytes < 0
      then Some (False, st, eff @ [LOGD tag_config ''Read error: %d'' [AInt read_bytes]])
      else
        let chunk = take (nat read_bytes) (drop pos (file_bytes f));
            pos' = pos + nat read_bytes;
            file_size' = file_size - read_bytes;
            leftover' = leftover + read_bytes;
            buf' = (if leftover < 0 then drop (nat (- leftover)) chunk else buf @ chunk)
        in if leftover' \<le> 0 then Some (True, st, eff)
           else if find_newline buf' = None \<and> leftover' \<ge> int MAX_LINE_LENGTH - 1
           then load_loop f pos' file_size' 0 [] True st
                  (eff @ [LOGD tag_config ''Buffer overflow, skipping long line'' []])
           else
             let (left2, rest, skip', st', eff') = line_loop (file_size' \<le> 0) buf' skip st eff
             in load_loop f pos' file_size' left2 rest skip' st' eff')"

definition ConfigStore_Load :: "cstr option \<Rightarrow> fs_file \<Rightarrow> cfg_state \<Rightarrow> (bool \<times> cfg_state \<times> effect list) option" where
  "ConfigStore_Load filename f st = (case filename of None \<Rightarrow> Some (False, st, [])
     | Some name \<Rightarrow>
       if open_ret f < 0
       then Some (False, st, [LOGD tag_config ''Open file %s failed. err= %d'' [AStr name, AInt (open_ret f)]])
       else if size_ret f \<le> 0
       then Some (True, st, [LOGD tag_config ''File %s is empty. err= %d'' [AStr name, AInt (size_ret f)]])
       else load_loop f 0 (size_ret f) 0 [] False st [])"

section \<open>Saving\<close>

text \<open>
  \<open>wret\<close> is the result of \<open>API_FS_Write\<close> on the bytes of a line. \<open>len\<close> is the length
  before truncation, so a text longer than the buffer would make the write run past it;
  \<open>save_line_fits\<close> excludes that for every stored configuration.
\<close>

definition save_format :: cstr where
  "save_format = ''%-20s = %s'' @ CRLF"

definition save_entry :: "cstr \<Rightarrow> (cstr \<Rightarrow> int) \<Rightarrow> t_Config \<Rightarrow> t_config_map \<Rightarrow> effect list" where
  "save_entry filename wret c e = (case serializer e c of
       None \<Rightarrow> [LOGE tag_config ''Serializer for %s failed.'' [AStr (param_name e)]]
     | Some value_str \<Rightarrow>
       let args = [AStr (param_name e), AStr value_str];
           len = length (sprintf save_format args);
           line = take len (snprintf (MAX_LINE_LENGTH - 1) save_format args)
       in FsWrite filename line #
          (if wret line \<noteq> int len then [LOGE tag_config ''Write failed for %s'' [AStr (param_name e)]] else []))"

definition ConfigStore_Save :: "cstr option \<Rightarrow> int \<Rightarrow> (cstr \<Rightarrow> int) \<Rightarrow> t_Config \<Rightarrow> bool \<times> effect list" where
  "ConfigStore_Save filename fd wret c = (case filename of None \<Rightarrow> (False, [])
     | Some name \<Rightarrow>
       if fd < 0 then (False, [LOGE tag_config ''Open config file failed: %d'' [AInt fd]])
       else (True, FsTrunc name # concat (map (save_entry name wret c) g_config_map)))"

text \<open>The content of a file after a trace of effects.\<close>

fun file_after :: "cstr \<Rightarrow> char list \<Rightarrow> effect list \<Rightarrow> char list" where
  "file_after name bs [] = bs"
| "file_after name bs (FsTrunc n # es) = file_after name (if n = name then [] else bs) es"
| "file_after name bs (FsWrite n s # es) = file_after name (if n = name then bs @ s else bs) es"
| "file_after name bs (_ # es) = file_after name bs es"

section \<open>Initialisation\<close>

text \<open>
  \<open>info_imei\<close> is the result of \<open>INFO_GetIMEI\<close> with the characters it stores. The default
  of the device name becomes the IMEI, which the row then designates.
\<close>

definition imei_entry :: "cstr \<Rightarrow> t_config_map \<Rightarrow> t_config_map" where
  "imei_entry i e = (if param_name e = param_name entry_device_name then e\<lparr>default_value := i\<rparr> else e)"

fun init_entry :: "t_config_map \<Rightarrow> cfg_state \<times> effect list \<Rightarrow> cfg_state \<times> effect list" where
  "init_entry e (st, eff) =
     (let (ok, st') = validator e (Some (default_value e)) st
      in if ok then (st', eff)
         else (st', eff @ UART_Printf (''Invalid default value for %s: %s'' @ CRLF)
                          [AStr (param_name e), AStr (default_value e)]))"

definition ConfigStore_Init :: "bool \<times> cstr \<Rightarrow> fs_file \<Rightarrow> cfg_state \<Rightarrow> (cfg_state \<times> effect list) option" where
  "ConfigStore_Init info_imei f st =
     (let (got, i) = info_imei;
          st1 = set_cfg (imei_update (\<lambda>_. i)) st;
          eff1 = (if got then [] else
                  UART_Printf ''Failed to get imei, using default device name: %s'' [AStr DEFAULT_DEVICE_NAME]);
          rows = (if got then map (imei_entry i) g_config_map else g_config_map);
          (st2, eff2) = fold init_entry rows (st1, eff1)
      in map_option (\<lambda>(ok, st3, eff3).
           (st3, eff2 @ eff3 @
             (if ok then [] else [LOGE tag_config ''loading config file failed: %s'' [AStr CONFIG_FILE_PATH]])))
         (ConfigStore_Load (Some CONFIG_FILE_PATH) f st2))"

section \<open>The loader is a fold over the lines\<close>

fun split_lines :: "char list \<Rightarrow> char list list" where
  "split_lines [] = []"
| "split_lines (c # cs) =
     (if c = LF then [] # split_lines cs
      else case split_lines cs of [] \<Rightarrow> [[c]] | l # ls \<Rightarrow> (c # l) # ls)"

text \<open>A line of at least 255 characters does not fit the buffer and is skipped.\<close>

definition load_line :: "cstr \<Rightarrow> cfg_state \<Rightarrow> cfg_state" where
  "load_line l st = (if length l < MAX_LINE_LENGTH - 1 then fst (snd (parse_line (Some l) st)) else st)"

definition load_text :: "char list \<Rightarrow> cfg_state \<Rightarrow> cfg_state" where
  "load_text bs = fold load_line (split_lines bs)"

definition load_from :: "bool \<Rightarrow> char list \<Rightarrow> cfg_state \<Rightarrow> cfg_state" where
  "load_from skip bs = fold load_line (drop (if skip then 1 else 0) (split_lines bs))"

lemma split_lines_Nil_iff: "split_lines bs = [] \<longleftrightarrow> bs = []"
  by (cases bs) (auto split: list.splits)

lemma split_lines_line: "LF \<notin> set l \<Longrightarrow> split_lines (l @ LF # t) = l # split_lines t"
  by (induction l) auto

lemma split_lines_last: "LF \<notin> set l \<Longrightarrow> l \<noteq> [] \<Longrightarrow> split_lines l = [l]"
proof (induction l)
  case (Cons c l)
  then show ?case by (cases "l = []") auto
qed simp

lemma split_lines_glue:
  "LF \<notin> set l \<Longrightarrow> l \<noteq> [] \<Longrightarrow>
   split_lines (l @ t) = (case split_lines t of [] \<Rightarrow> [l] | x # xs \<Rightarrow> (l @ x) # xs)"
proof (induction l)
  case (Cons c l)
  then show ?case by (cases "l = []") (auto split: list.splits)
qed simp

lemma find_newline_Some:
  assumes "NUL \<notin> set cur" "find_newline cur = Some l"
  shows "LF \<notin> set l" "cur = l @ LF # drop (length l + 1) cur"
proof -
  obtain r where r: "strchr cur LF = Some (l, r)" using assms by (auto simp: find_newline_def cstr_of_id)
  then show "LF \<notin> set l" "cur = l @ LF # drop (length l + 1) cur" using strchr_append [OF r] by auto
qed

lemma find_newline_None: "NUL \<notin> set cur \<Longrightarrow> find_newline cur = None \<longleftrightarrow> LF \<notin> set cur"
  by (simp add: find_newline_def cstr_of_id strchr_None_iff)

lemma take_line_state:
  "NUL \<notin> set l \<Longrightarrow> length l < 255 \<Longrightarrow> fst (take_line l skip st) = (if skip then st else load_line l st)"
  by (simp add: take_line_def load_line_def cstr_of_id)

lemma load_from_line:
  "LF \<notin> set l \<Longrightarrow> load_from skip (l @ LF # t) st = load_from False t (if skip then st else load_line l st)"
  by (simp add: load_from_def split_lines_line)

lemma load_from_last:
  "LF \<notin> set l \<Longrightarrow> l \<noteq> [] \<Longrightarrow> load_from skip l st = (if skip then st else load_line l st)"
  by (simp add: load_from_def split_lines_last)

lemma load_from_Nil [simp]: "load_from skip [] st = st"
  by (simp add: load_from_def)

lemma load_from_long:
  assumes "LF \<notin> set l" "255 \<le> length l"
  shows "load_from skip (l @ t) st = load_from True t st"
proof -
  have ne: "l \<noteq> []" using assms(2) by auto
  show ?thesis
    using split_lines_glue [OF assms(1) ne, of t] assms(2)
    by (cases "split_lines t") (auto simp: load_from_def load_line_def)
qed

lemma line_loop_spec:
  "NUL \<notin> set cur \<Longrightarrow> length cur \<le> 255 \<Longrightarrow> LF \<in> set cur \<or> length cur < 255 \<Longrightarrow> (final \<Longrightarrow> t = []) \<Longrightarrow>
   \<exists>left rest skip' st' eff'.
     line_loop final cur skip st eff = (left, rest, skip', st', eff') \<and>
     load_from skip (cur @ t) st = load_from skip' (rest @ t) st' \<and>
     LF \<notin> set rest \<and> NUL \<notin> set rest \<and> length rest < 255 \<and>
     (if final then rest = [] \<and> left \<le> 0 \<and> - 1 \<le> left else left = int (length rest))"
proof (induction final cur skip st eff rule: line_loop.induct)
  case (1 final cur skip st eff)
  show ?case
  proof (cases "cur = []")
    case True
    then show ?thesis by (simp add: line_loop.simps)
  next
    case ne: False
    show ?thesis
    proof (cases "find_newline cur")
      case None
      then have lf: "LF \<notin> set cur" "length cur < 255" using 1 find_newline_None by auto
      show ?thesis
      proof (cases final)
        case True
        obtain st' e where tl: "take_line cur skip st = (st', e)" by fastforce
        then have "st' = (if skip then st else load_line cur st)"
          using take_line_state [OF "1.prems"(1) lf(2), of skip st] by simp
        then have l: "load_from skip (cur @ t) st = st'"
          using load_from_last [OF lf(1) ne] "1.prems"(4) True by simp
        have "line_loop final cur skip st eff = (- 1, [], False, st', eff @ e)"
          using tl None True ne by (subst line_loop.simps) simp
        then show ?thesis
          by (intro exI conjI, assumption) (use l True "1.prems"(4) in auto)
      next
        case False
        then have "line_loop final cur skip st eff = (int (length cur), cur, skip, st, eff)"
          using None ne by (subst line_loop.simps) simp
        then show ?thesis
          by (intro exI conjI, assumption) (use lf False "1.prems"(1) in auto)
      qed
    next
      case (Some l)
      note fn = find_newline_Some [OF "1.prems"(1) Some]
      define r where "r = drop (length l + 1) cur"
      have cur: "cur = l @ LF # r" using fn(2) unfolding r_def .
      obtain st' e where tl: "take_line l skip st = (st', e)" by fastforce
      have ll: "length l < 255" "NUL \<notin> set l" using "1.prems" unfolding cur by auto
      then have st': "st' = (if skip then st else load_line l st)" using take_line_state [of l skip st] tl by simp
      have "load_from skip (cur @ t) st = load_from False (r @ t) st'"
        unfolding cur st' using load_from_line [OF fn(1), of skip "r @ t"] by simp
      moreover have "line_loop final cur skip st eff = line_loop final r False st' (eff @ e)"
        using Some ne tl by (simp add: line_loop.simps [of final cur] r_def)
      moreover have "\<exists>left rest skip' st'' eff'. line_loop final r False st' (eff @ e) = (left, rest, skip', st'', eff') \<and>
          load_from False (r @ t) st' = load_from skip' (rest @ t) st'' \<and> LF \<notin> set rest \<and> NUL \<notin> set rest \<and>
          length rest < 255 \<and> (if final then rest = [] \<and> left \<le> 0 \<and> - 1 \<le> left else left = int (length rest))"
        unfolding r_def
        by (rule "1.IH" [OF ne Some tl [symmetric] refl])
          (use "1.prems" cur in \<open>auto simp: r_def [symmetric]\<close>)
      ultimately show ?thesis by metis
    qed
  qed
qed

lemma load_loop_spec:
  assumes f: "read_ok f" "NUL \<notin> set (file_bytes f)"
  shows "pos \<le> length (file_bytes f) \<Longrightarrow> LF \<notin> set buf \<Longrightarrow> NUL \<notin> set buf \<Longrightarrow> length buf < 255 \<Longrightarrow>
    (if pos = length (file_bytes f) then buf = [] \<and> left \<le> 0 \<and> - 1 \<le> left else left = int (length buf)) \<Longrightarrow>
    \<exists>eff'. load_loop f pos (int (length (file_bytes f) - pos)) left buf skip st eff =
      Some (True, load_from skip (buf @ drop pos (file_bytes f)) st, eff')"
proof (induction "length (file_bytes f) - pos" arbitrary: pos left buf skip st eff rule: less_induct)
  case less
  let ?bs = "file_bytes f" and ?r = "read_ret f pos (int MAX_LINE_LENGTH - left - 1)"
  show ?case
  proof (cases "pos = length ?bs")
    case True
    then have "?r = 0" using f(1) less.prems(5) unfolding read_ok_def by auto
    then show ?thesis using True less.prems(5) by (subst load_loop.simps) simp
  next
    case False
    then have left: "left = int (length buf)" and pos: "pos < length ?bs" using less.prems by auto
    define r where "r = nat ?r"
    have r: "?r = int r" "0 < r" "length buf + r \<le> 255" "pos + r \<le> length ?bs"
    proof -
      have "0 < ?r \<and> ?r \<le> int MAX_LINE_LENGTH - left - 1 \<and> ?r \<le> int (length ?bs - pos)"
      proof -
        have "0 < int MAX_LINE_LENGTH - left - 1" using left less.prems(4) by simp
        then show ?thesis using f(1) pos unfolding read_ok_def by meson
      qed
      then show "?r = int r" "0 < r" "length buf + r \<le> 255" "pos + r \<le> length ?bs"
        using left pos unfolding r_def by linarith+
    qed
    define B where "B = buf @ take r (drop pos ?bs)"
    define R where "R = drop (pos + r) ?bs"
    have B: "length B = length buf + r" "NUL \<notin> set B" "buf @ drop pos ?bs = B @ R"
      using r less.prems(3) f(2) unfolding B_def R_def
      by (auto dest!: in_set_takeD in_set_dropD simp: add.commute [of pos] simp flip: drop_drop)
    have sz: "int (length ?bs - pos) - int r = int (length ?bs - (pos + r))" using r by simp
    have step: "load_loop f pos (int (length ?bs - pos)) left buf skip st eff =
      (if find_newline B = None \<and> 255 \<le> length B
       then load_loop f (pos + r) (int (length ?bs - (pos + r))) 0 [] True st
              (eff @ [LOGD tag_config ''Buffer overflow, skipping long line'' []])
       else case line_loop (length ?bs \<le> pos + r) B skip st eff of (left2, rest, skip', st', eff') \<Rightarrow>
         load_loop f (pos + r) (int (length ?bs - (pos + r))) left2 rest skip' st' eff')"
    proof -
      have c: "(int r < 0) = False" "(left < 0) = False" "(left + int r \<le> 0) = False"
        "(int MAX_LINE_LENGTH - 1 \<le> left + int r) = (255 \<le> length B)"
        "(int (length ?bs - (pos + r)) \<le> 0) = (length ?bs \<le> pos + r)"
        using left r B(1) by auto
      show ?thesis
        by (subst load_loop.simps) (simp only: Let_def r(1) c nat_int if_False B_def [symmetric] sz)
    qed
    have dec: "length ?bs - (pos + r) < length ?bs - pos" using r pos by simp
    show ?thesis
    proof (cases "find_newline B = None \<and> 255 \<le> length B")
      case True
      then have "load_from skip (B @ R) st = load_from True R st"
        using load_from_long find_newline_None [OF B(2)] by blast
      then show ?thesis unfolding step B(3) using True less.hyps [OF dec, of "[]" 0 True st] r
        by (simp add: R_def)
    next
      case False
      have "\<exists>left2 rest skip' st' eff'. line_loop (length ?bs \<le> pos + r) B skip st eff = (left2, rest, skip', st', eff') \<and>
        load_from skip (B @ R) st = load_from skip' (rest @ R) st' \<and> LF \<notin> set rest \<and> NUL \<notin> set rest \<and> length rest < 255 \<and>
        (if length ?bs \<le> pos + r then rest = [] \<and> left2 \<le> 0 \<and> - 1 \<le> left2 else left2 = int (length rest))"
        by (rule line_loop_spec) (use B r False find_newline_None [OF B(2)] in \<open>auto simp: R_def\<close>)
      then obtain left2 rest skip' st' eff' where l: "line_loop (length ?bs \<le> pos + r) B skip st eff = (left2, rest, skip', st', eff')"
        "load_from skip (B @ R) st = load_from skip' (rest @ R) st'" "LF \<notin> set rest" "NUL \<notin> set rest" "length rest < 255"
        "if length ?bs \<le> pos + r then rest = [] \<and> left2 \<le> 0 \<and> - 1 \<le> left2 else left2 = int (length rest)"
        by blast
      have "if pos + r = length ?bs then rest = [] \<and> left2 \<le> 0 \<and> - 1 \<le> left2 else left2 = int (length rest)"
        using l(6) r(4) by (auto split: if_splits)
      then show ?thesis unfolding step B(3) l(2) using False l(1) less.hyps [OF dec r(4) l(3-5)]
        by (auto simp: R_def)
    qed
  qed
qed

lemma ConfigStore_Load_returns:
  assumes "read_ok f" "NUL \<notin> set (file_bytes f)" "0 \<le> open_ret f" "size_ret f = int (length (file_bytes f))"
  shows "\<exists>eff. ConfigStore_Load (Some name) f st = Some (True, load_text (file_bytes f) st, eff)"
proof (cases "file_bytes f = []")
  case True
  then show ?thesis using assms by (simp add: ConfigStore_Load_def load_text_def)
next
  case False
  have "\<exists>eff'. load_loop f 0 (int (length (file_bytes f) - 0)) 0 [] False st [] =
      Some (True, load_from False ([] @ drop 0 (file_bytes f)) st, eff')"
    by (rule load_loop_spec) (use assms False in auto)
  then show ?thesis using assms False by (simp add: ConfigStore_Load_def load_text_def load_from_def)
qed

text \<open>
  C7. Loading a configuration file always returns, and its effect on the configuration is
  that of applying the parser to each line of the file in order, lines of 255 or more
  characters skipped: independent of how the reads split the file into chunks, of lines
  that straddle two chunks, and of a missing newline at the end.
\<close>

theorem ConfigStore_Load_lines:
  assumes "read_ok f" "NUL \<notin> set (file_bytes f)" "0 \<le> open_ret f" "size_ret f = int (length (file_bytes f))"
  shows "\<exists>eff. ConfigStore_Load (Some name) f st = Some (True, load_text (file_bytes f) st, eff)"
  by (rule ConfigStore_Load_returns [OF assms])

theorem ConfigStore_Load_lines_witness:
  "\<exists>st eff. ConfigStore_Load (Some CONFIG_FILE_PATH)
      \<lparr>open_ret = 3, size_ret = 13, file_bytes = ''apn=a'' @ [CR, LF] @ ''x=b'' @ [LF] @ ''pp'',
       read_ret = \<lambda>pos count. min 4 (min count (int (13 - pos)))\<rparr> boot_state = Some (True, st, eff)
    \<and> apn (g_ConfigStore st) = ''a''"
proof -
  let ?bs = "''apn=a'' @ [CR, LF] @ ''x=b'' @ [LF] @ ''pp''"
  let ?f = "\<lparr>open_ret = 3, size_ret = 13, file_bytes = ?bs,
       read_ret = \<lambda>pos count. min 4 (min count (int (13 - pos)))\<rparr>"
  have "read_ok ?f" by (auto simp: read_ok_def)
  then have "\<exists>eff. ConfigStore_Load (Some CONFIG_FILE_PATH) ?f boot_state = Some (True, load_text ?bs boot_state, eff)"
    using ConfigStore_Load_lines [of ?f CONFIG_FILE_PATH boot_state] by simp
  moreover have "apn (g_ConfigStore (load_text ?bs boot_state)) = ''a''"
    by (simp add: load_text_def load_line_def parse_line_def trim_strip strip_def isspace_def getConfigMap_def
        g_config_map_def entry_defs strcmp_eq_def ApnValidate_def set_cfg_def strncpy0_def)
  ultimately show ?thesis by auto
qed

section \<open>Loading what was saved\<close>

definition saved_line :: "cstr \<Rightarrow> cstr \<Rightarrow> cstr" where
  "saved_line n v = n @ replicate (20 - length n) (CHR '' '') @ '' = '' @ v @ [CR]"

lemma save_format_eq: "sprintf save_format [AStr n, AStr v] = saved_line n v @ [LF]"
  by (simp add: save_format_def saved_line_def printf_simps)

lemma saved_line_parts:
  assumes "value_text n" "CHR ''='' \<notin> set n" "value_text v"
  shows "\<exists>k r. strchr (saved_line n v) (CHR ''='') = Some (k, r) \<and> trim k = n \<and> trim (tl r) = v"
proof -
  let ?k = "n @ replicate (20 - length n) (CHR '' '') @ '' ''"
  have sp: "isspace (CHR '' '')" "isspace CR" by (simp_all add: isspace_def)
  have "saved_line n v = ?k @ CHR ''='' # '' '' @ v @ [CR]" by (simp add: saved_line_def)
  moreover have "CHR ''='' \<notin> set ?k" using assms(2) by auto
  ultimately have "strchr (saved_line n v) (CHR ''='') = Some (?k, CHR ''='' # '' '' @ v @ [CR])"
    using strchr_eq by metis
  moreover have "strip ?k = n"
    using strip_append_space [of "replicate (20 - length n) (CHR '' '') @ '' ''" n] sp assms(1)
    by (simp add: value_text_def)
  moreover have "strip ('' '' @ v @ [CR]) = v"
    using strip_space_append [of "'' ''" "v @ [CR]"] strip_append_space [of "[CR]" v] sp assms(3)
    by (simp add: value_text_def)
  ultimately show ?thesis by (simp add: trim_strip)
qed

context config_param
begin

lemma parse_saved:
  assumes "ok c" "serializer e c = Some s"
  shows "parse_line (Some (saved_line (param_name e) s)) st = (True, restore c st, [])"
proof -
  obtain k r where "strchr (saved_line (param_name e) s) (CHR ''='') = Some (k, r)"
    "trim k = param_name e" "trim (tl r) = s"
    using saved_line_parts [of "param_name e" s] name_text reads_back(1) [OF assms] by blast
  then show ?thesis using reads_back(3) [OF assms] found by (simp add: parse_line_def)
qed

lemma length_saved:
  assumes "ok c" "serializer e c = Some s" shows "length (saved_line (param_name e) s) < 152"
  using name_text reads_back(2) [OF assms] by (auto simp: saved_line_def)

lemma load_saved:
  assumes "ok c" "serializer e c = Some s"
  shows "load_line (saved_line (param_name e) s) st = restore c st"
  using length_saved [OF assms] parse_saved [OF assms] by (simp add: load_line_def)

lemma saved_no_break:
  assumes "ok c" "serializer e c = Some s"
  shows "LF \<notin> set (saved_line (param_name e) s)" "NUL \<notin> set (saved_line (param_name e) s)"
  using name_text reads_back(1) [OF assms] by (auto simp: saved_line_def value_text_def)

text \<open>The row's share of a save, with writes that succeed.\<close>

lemma save_writes:
  assumes "ok c" "\<And>l. wret l = int (length l)"
  shows "\<exists>s. serializer e c = Some s \<and> save_entry name wret c e = [FsWrite name (saved_line (param_name e) s @ [LF])]"
proof -
  obtain s where s: "serializer e c = Some s" using written [OF assms(1), of undefined] by auto
  have "length (saved_line (param_name e) s @ [LF]) < MAX_LINE_LENGTH - 1" using length_saved [OF assms(1) s] by simp
  then show ?thesis using s assms(2)
    by (simp add: save_entry_def Let_def save_format_eq snprintf_def snprintf_trunc_fits)
qed

text \<open>One saved line in front of a text: loading it restores the field and goes on.\<close>

lemma load_row:
  assumes "ok c" "\<And>l. wret l = int (length l)"
  shows "load_text (file_after name [] (save_entry name wret c e) @ t) st = load_text t (restore c st)"
    "NUL \<notin> set (file_after name [] (save_entry name wret c e))"
    "\<exists>l. save_entry name wret c e = [FsWrite name l]"
proof -
  obtain s where s: "serializer e c = Some s"
    "save_entry name wret c e = [FsWrite name (saved_line (param_name e) s @ [LF])]"
    using save_writes [OF assms] by blast
  show "load_text (file_after name [] (save_entry name wret c e) @ t) st = load_text t (restore c st)"
    using saved_no_break(1) [OF assms(1) s(1)] load_saved [OF assms(1) s(1)]
    by (simp add: s(2) load_text_def split_lines_line)
  show "NUL \<notin> set (file_after name [] (save_entry name wret c e))"
    using saved_no_break(2) [OF assms(1) s(1)] by (simp add: s(2))
  show "\<exists>l. save_entry name wret c e = [FsWrite name l]" using s(2) by blast
qed

end

text \<open>A configuration each of whose fields survives its text.\<close>

definition config_saved :: "t_Config \<Rightarrow> bool" where
  "config_saved c \<longleftrightarrow>
     text_ok 1 MAX_DEVICE_NAME_LENGTH (device_name c) \<and> text_ok 1 MAX_SERVER_ADDR_LENGTH (server_addr c) \<and>
     port_ok (server_port c) \<and> text_ok 1 MAX_APN_LENGTH (apn c) \<and> text_ok 0 MAX_APN_USER_LENGTH (apn_user c) \<and>
     text_ok 0 MAX_APN_USER_LENGTH (apn_pass c) \<and> logLevel c \<noteq> LOG_LEVEL_NONE \<and> uere_saved (gps_uere c) \<and>
     text_ok 1 MAX_GPS_LOG_PATH_LENGTH (gps_log_file c)"

definition saved_file :: "t_Config \<Rightarrow> char list" where
  "saved_file c = file_after CONFIG_FILE_PATH [] (snd (ConfigStore_Save (Some CONFIG_FILE_PATH) 0 (\<lambda>l. int (length l)) c))"

lemma file_after_append: "file_after n bs (es @ fs) = file_after n (file_after n bs es) fs"
  by (induction n bs es rule: file_after.induct) auto

lemma file_after_rows:
  assumes "\<And>e. e \<in> set es \<Longrightarrow> \<exists>l. save_entry n wret c e = [FsWrite n l]"
  shows "file_after n bs (concat (map (save_entry n wret c) es)) =
    bs @ concat (map (\<lambda>e. file_after n [] (save_entry n wret c e)) es)"
  using assms
proof (induction es arbitrary: bs)
  case (Cons e es)
  obtain l where "save_entry n wret c e = [FsWrite n l]" using Cons.prems [of e] by auto
  then show ?case using Cons by (simp add: file_after_append)
qed simp

abbreviation row_text :: "t_Config \<Rightarrow> t_config_map \<Rightarrow> char list" where
  "row_text c e \<equiv> file_after CONFIG_FILE_PATH [] (save_entry CONFIG_FILE_PATH (\<lambda>l. int (length l)) c e)"

lemmas row_loads =
  row_device_name.load_row(1) [OF _ refl] row_server.load_row(1) [OF _ refl]
  row_port.load_row(1) [OF _ refl] row_protocol.load_row(1) [OF _ refl] row_apn.load_row(1) [OF _ refl]
  row_apn_user.load_row(1) [OF _ refl] row_apn_pass.load_row(1) [OF _ refl]
  row_log_level.load_row(1) [OF _ refl] row_log_output.load_row(1) [OF _ refl]
  row_gps_uere.load_row(1) [OF _ refl] row_gps_logging.load_row(1) [OF _ refl]
  row_gps_log_file.load_row(1) [OF _ refl] row_gps_print_pos.load_row(1) [OF _ refl]

lemmas row_no_NUL =
  row_device_name.load_row(2) [OF _ refl] row_server.load_row(2) [OF _ refl]
  row_port.load_row(2) [OF _ refl] row_protocol.load_row(2) [OF _ refl] row_apn.load_row(2) [OF _ refl]
  row_apn_user.load_row(2) [OF _ refl] row_apn_pass.load_row(2) [OF _ refl]
  row_log_level.load_row(2) [OF _ refl] row_log_output.load_row(2) [OF _ refl]
  row_gps_uere.load_row(2) [OF _ refl] row_gps_logging.load_row(2) [OF _ refl]
  row_gps_log_file.load_row(2) [OF _ refl] row_gps_print_pos.load_row(2) [OF _ refl]

lemmas row_shape =
  row_device_name.load_row(3) [OF _ refl] row_server.load_row(3) [OF _ refl]
  row_port.load_row(3) [OF _ refl] row_protocol.load_row(3) [OF _ refl] row_apn.load_row(3) [OF _ refl]
  row_apn_user.load_row(3) [OF _ refl] row_apn_pass.load_row(3) [OF _ refl]
  row_log_level.load_row(3) [OF _ refl] row_log_output.load_row(3) [OF _ refl]
  row_gps_uere.load_row(3) [OF _ refl] row_gps_logging.load_row(3) [OF _ refl]
  row_gps_log_file.load_row(3) [OF _ refl] row_gps_print_pos.load_row(3) [OF _ refl]

lemma rows_written:
  assumes "config_saved c" "e \<in> set g_config_map"
  shows "\<exists>l. save_entry CONFIG_FILE_PATH (\<lambda>l. int (length l)) c e = [FsWrite CONFIG_FILE_PATH l]"
    "NUL \<notin> set (row_text c e)"
proof -
  have "list_all (\<lambda>e. \<exists>l. save_entry CONFIG_FILE_PATH (\<lambda>l. int (length l)) c e = [FsWrite CONFIG_FILE_PATH l])
      g_config_map"
    unfolding g_config_map_def list.pred_inject
    by (intro conjI TrueI row_shape) (use assms(1) in \<open>simp_all add: config_saved_def\<close>)
  then show "\<exists>l. save_entry CONFIG_FILE_PATH (\<lambda>l. int (length l)) c e = [FsWrite CONFIG_FILE_PATH l]"
    using assms(2) by (simp add: list_all_iff)
  have "list_all (\<lambda>e. NUL \<notin> set (row_text c e)) g_config_map"
    unfolding g_config_map_def list.pred_inject
    by (intro conjI TrueI row_no_NUL) (use assms(1) in \<open>simp_all add: config_saved_def\<close>)
  then show "NUL \<notin> set (row_text c e)" using assms(2) by (simp add: list_all_iff)
qed

lemma saved_file_rows:
  "config_saved c \<Longrightarrow> saved_file c = concat (map (row_text c) g_config_map)"
  using file_after_rows [of g_config_map CONFIG_FILE_PATH "\<lambda>l. int (length l)" c "[]"] rows_written(1) [of c]
  by (simp add: saved_file_def ConfigStore_Save_def)

lemma load_saved_file:
  assumes "config_saved c"
  shows "load_text (saved_file c) st =
    \<lparr>g_ConfigStore = c\<lparr>imei := imei (g_ConfigStore st)\<rparr>, isSaveLog = gps_logging c, gpsLogPath = PathConfig\<rparr>"
proof -
  have e: "load_text [] st' = st'" for st' by (simp add: load_text_def)
  show ?thesis
    unfolding saved_file_rows [OF assms] g_config_map_def list.map concat.simps append_assoc
    using assms row_gps_print_pos.load_row(1) [OF _ refl, of CONFIG_FILE_PATH c "[]"]
    by (simp add: row_loads config_saved_def e,
        intro cfg_state.equality t_Config.equality, simp_all add: set_cfg_def GPS_SaveLog_def Let_def)
qed

text \<open>
  C6. Loading what \<open>ConfigStore_Save\<close> wrote restores the saved configuration field by field
  (the IMEI, which is not saved, stays that of the loader) and sets the GPS log switch to
  match, from any state of the loader and however the reads are chunked, for every
  configuration whose texts survive a line.
\<close>

theorem save_load_roundtrip:
  assumes "config_saved c" "read_ok f" "file_bytes f = saved_file c" "0 \<le> open_ret f"
    "size_ret f = int (length (saved_file c))"
  shows "\<exists>eff. ConfigStore_Load (Some CONFIG_FILE_PATH) f st = Some (True,
    \<lparr>g_ConfigStore = c\<lparr>imei := imei (g_ConfigStore st)\<rparr>, isSaveLog = gps_logging c, gpsLogPath = PathConfig\<rparr>, eff)"
proof -
  have "NUL \<notin> set (saved_file c)"
    using rows_written(2) [OF assms(1)] unfolding saved_file_rows [OF assms(1)] by auto
  then show ?thesis
    using ConfigStore_Load_returns [of f CONFIG_FILE_PATH st] assms load_saved_file [OF assms(1), of st] by simp
qed

lemma default_saved: "config_saved default_config"
proof -
  have t: "list_all (\<lambda>c. \<not> isspace c \<and> c \<noteq> NUL) s \<Longrightarrow> lo \<le> length s \<Longrightarrow> length s < n \<Longrightarrow> text_ok lo n s" for lo n s
    by (simp add: text_ok_def value_text_plain)
  have "uere_saved (FFin 5)" using uere_saved_int [of 5] by simp
  then show ?thesis unfolding config_saved_def default_config_def port_ok_def
    by (auto simp: strtol_5055 isspace_def intro!: t)
qed

theorem save_load_roundtrip_witness:
  "\<exists>eff. ConfigStore_Load (Some CONFIG_FILE_PATH)
     \<lparr>open_ret = 1, size_ret = int (length (saved_file default_config)), file_bytes = saved_file default_config,
      read_ret = \<lambda>pos count. min 1 (min count (int (length (saved_file default_config) - pos)))\<rparr> boot_state =
    Some (True, \<lparr>g_ConfigStore = default_config, isSaveLog = False, gpsLogPath = PathConfig\<rparr>, eff)"
proof -
  let ?f = "\<lparr>open_ret = 1, size_ret = int (length (saved_file default_config)), file_bytes = saved_file default_config,
      read_ret = \<lambda>pos count. min 1 (min count (int (length (saved_file default_config) - pos)))\<rparr>"
  have "read_ok ?f" by (auto simp: read_ok_def)
  moreover have "default_config\<lparr>imei := []\<rparr> = default_config" "imei (g_ConfigStore boot_state) = []" "\<not> gps_logging default_config"
    by (simp_all add: default_config_def boot_state_def zero_config_def)
  ultimately show ?thesis
    using save_load_roundtrip [OF default_saved, of ?f boot_state] by simp
qed

section \<open>Values a save loses\<close>

text \<open>
  A log level of \<open>none\<close> is accepted by its validator but not preserved by a save: the
  serializer writes an empty value, and the line that is written leaves the loader's log
  level unchanged.
\<close>

lemma log_level_none_lost:
  assumes "logLevel c = LOG_LEVEL_NONE"
  shows "logLevel (g_ConfigStore (snd (validator entry_log_level (Some ''none'') st))) = LOG_LEVEL_NONE \<and>
    serializer entry_log_level c = Some [] \<and>
    save_entry CONFIG_FILE_PATH (\<lambda>l. int (length l)) c entry_log_level =
      [FsWrite CONFIG_FILE_PATH (saved_line ''log_level'' [] @ [LF])] \<and>
    load_line (saved_line ''log_level'' []) st = st"
proof -
  have s: "serializer entry_log_level c = Some []" using assms by (simp add: entry_log_level_def LogLevelSerializer_def)
  have n: "param_name entry_log_level = ''log_level''" by (simp add: entry_log_level_def)
  have v: "logLevel (g_ConfigStore (snd (validator entry_log_level (Some ''none'') st))) = LOG_LEVEL_NONE"
    by (simp add: entry_log_level_def LogLevelValidate_def word_cmp_simps set_cfg_def)
  have w: "save_entry CONFIG_FILE_PATH (\<lambda>l. int (length l)) c entry_log_level =
      [FsWrite CONFIG_FILE_PATH (saved_line ''log_level'' [] @ [LF])]"
    unfolding save_entry_def s n option.case Let_def save_format_eq
    by (simp add: saved_line_def snprintf_def save_format_eq snprintf_trunc_fits)
  have e: "entry_log_level \<in> set g_config_map" by (simp add: g_config_map_def)
  obtain k r where p: "strchr (saved_line ''log_level'' []) (CHR ''='') = Some (k, r)" "trim k = ''log_level''" "trim (tl r) = []"
    using saved_line_parts [of "''log_level''" "[]"] names_ok [OF e] n value_text_plain [of "[]"] by auto
  have "getConfigMap (Some ''log_level'') = Some entry_log_level" using getConfigMap_entry [OF e] n by simp
  moreover have "validator entry_log_level (Some []) st = (False, st)"
    by (simp add: entry_log_level_def LogLevelValidate_def word_cmp_simps)
  ultimately have "snd (snd (parse_line (Some (saved_line ''log_level'' [])) st)) \<noteq> [] \<and>
      fst (snd (parse_line (Some (saved_line ''log_level'' [])) st)) = st"
    using p by (simp add: parse_line_def)
  then have "load_line (saved_line ''log_level'' []) st = st" unfolding load_line_def by simp
  then show ?thesis using s v w by simp
qed

lemma log_level_none_lost_example:
  "load_line (saved_line ''log_level'' []) boot_state = boot_state \<and> logLevel zero_config = LOG_LEVEL_NONE"
  using log_level_none_lost [of zero_config boot_state] by (simp add: zero_config_def)

text \<open>
  The port validator checks the value of its text but not its length: a text of digits
  with a value from 1 to 65535 is accepted and cut to 7 characters, so leading zeros that
  push it past the field change the port, to the quotient by the power of ten cut off.
\<close>

lemma port_truncated:
  assumes "s \<noteq> []" "\<forall>c \<in> set s. isdigit c" "0 < dec_val 0 s" "dec_val 0 s \<le> 65535"
  shows "PortValidate (Some s) st = (True, set_cfg (server_port_update (\<lambda>_. take 7 s)) st) \<and>
    (7 < length s \<longrightarrow> fst (strtol (take 7 s) 10) = int (dec_val 0 s div 10 ^ (length s - 7)))"
proof -
  have a: "strtol s 10 = (int (dec_val 0 s), [])" using assms by (simp add: strtol_dec)
  have b: "dec_val 0 s = dec_val 0 (take 7 s) * 10 ^ (length s - 7) + dec_val 0 (drop 7 s)"
    using dec_val_append [of 0 "take 7 s" "drop 7 s"] dec_val_acc [of "dec_val 0 (take 7 s)" "drop 7 s"] by simp
  have d: "dec_val 0 t < 10 ^ length t" if "\<forall>c \<in> set t. isdigit c" for t
    using that
  proof (induction t rule: rev_induct)
    case (snoc c t)
    then have "dec_val 0 t < 10 ^ length t" "digit_val c < 10" by (simp_all add: digit_val_less)
    then show ?case by (simp add: dec_val_append)
  qed simp
  have "dec_val 0 (drop 7 s) < 10 ^ (length s - 7)" using d [of "drop 7 s"] assms(2) by (auto dest: in_set_dropD)
  then have q: "dec_val 0 s div 10 ^ (length s - 7) = dec_val 0 (take 7 s)" unfolding b by simp
  have "strtol (take 7 s) 10 = (int (dec_val 0 (take 7 s)), [])"
  proof -
    have "dec_val 0 (take 7 s) \<le> 65535" unfolding q [symmetric]
      by (rule le_trans [OF div_le_dividend assms(4)])
    then show ?thesis using assms(1,2) by (subst strtol_dec) (auto dest: in_set_takeD)
  qed
  then show ?thesis using a q assms(3,4) by (simp add: PortValidate_def strncpy0_def)
qed

lemma port_truncated_example:
  "PortValidate (Some ''0000005055'') boot_state = (True, set_cfg (server_port_update (\<lambda>_. ''0000005'')) boot_state)"
  using port_truncated [of "''0000005055''" boot_state] by (simp add: isdigit_def digit_val_def)

section \<open>After initialisation the configuration is well formed\<close>

lemma parse_line_wf:
  assumes "state_wf st" "NUL \<notin> set l" shows "state_wf (fst (snd (parse_line (Some l) st)))"
proof (cases "strchr l (CHR ''='')")
  case None
  then show ?thesis using assms(1) by (simp add: parse_line_def)
next
  case (Some kr)
  obtain k r where kr: "kr = (k, r)" by fastforce
  have r: "NUL \<notin> set (trim (tl r))"
    using strchr_append [of l "CHR ''=''" k r] Some kr assms(2) set_strip [of "tl r"]
    by (auto simp: trim_strip)
  show ?thesis
  proof (cases "getConfigMap (Some (trim k))")
    case None
    then show ?thesis using Some kr assms(1) by (simp add: parse_line_def)
  next
    case (Some e)
    then have "e \<in> set g_config_map" using find_entry_Some by (auto simp: getConfigMap_def)
    then have "state_wf (snd (validator e (Some (trim (tl r))) st))"
      using config_validator.keeps [OF validators_contract assms(1)] r by fastforce
    then show ?thesis using Some kr \<open>strchr l (CHR ''='') = Some kr\<close>
      by (auto simp: parse_line_def Let_def split: prod.splits if_splits)
  qed
qed

text \<open>
  The loader on a file of any content, with NUL bytes too, whose reads may also fail: a read at a
  position before the end delivers something or reports an error, and at the end nothing.
\<close>

definition reads_end :: "fs_file \<Rightarrow> bool" where
  "reads_end f \<longleftrightarrow> (\<forall>pos count. 0 < count \<longrightarrow>
     (if pos < length (file_bytes f)
      then read_ret f pos count \<noteq> 0 \<and> read_ret f pos count \<le> count \<and> read_ret f pos count \<le> int (length (file_bytes f) - pos)
      else read_ret f pos count \<le> 0))"

lemma take_line_wf: "state_wf st \<Longrightarrow> state_wf (fst (take_line l skip st))"
  by (simp add: take_line_def parse_line_wf cstr_of_no_NUL)

lemma line_loop_wf:
  assumes "line_loop final cur skip st eff = (left, rest, skip', st', eff')"
    "length cur \<le> 255" "find_newline cur \<noteq> None \<or> length cur < 255" "state_wf st"
  shows "state_wf st' \<and> length rest < 255 \<and> (if final then rest = [] \<and> left \<le> 0 \<and> - 1 \<le> left else left = int (length rest))"
  using assms
proof (induction final cur skip st eff rule: line_loop.induct)
  case (1 final cur skip st eff)
  note ll = "1.prems"(1) [unfolded line_loop.simps [of final cur]]
  show ?case
  proof (cases "cur = [] \<or> find_newline cur = None")
    case True
    then show ?thesis using ll "1.prems"(3,4) take_line_wf [of st cur skip] by (auto split: if_splits prod.splits)
  next
    case False
    then obtain l where l: "cur \<noteq> []" "find_newline cur = Some l" by auto
    obtain st1 e where t: "take_line l skip st = (st1, e)" by fastforce
    have "state_wf st1" using take_line_wf [OF "1.prems"(4), of l skip] t by simp
    moreover have "length (drop (length l + 1) cur) < 255" using "1.prems"(2) l(1) by (cases cur) simp_all
    ultimately show ?thesis using ll l t "1.IH" [OF l t [symmetric] refl] by simp
  qed
qed

lemma load_loop_wf:
  assumes f: "reads_end f"
  shows "pos \<le> length (file_bytes f) \<Longrightarrow> length buf < 255 \<Longrightarrow> state_wf st \<Longrightarrow>
    (if pos = length (file_bytes f) then buf = [] \<and> left \<le> 0 \<and> - 1 \<le> left else left = int (length buf)) \<Longrightarrow>
    \<exists>ok st' eff'. load_loop f pos (int (length (file_bytes f) - pos)) left buf skip st eff = Some (ok, st', eff') \<and> state_wf st'"
proof (induction "length (file_bytes f) - pos" arbitrary: pos left buf skip st eff rule: less_induct)
  case less
  let ?bs = "file_bytes f" and ?r = "read_ret f pos (int MAX_LINE_LENGTH - left - 1)"
  have count: "0 < int MAX_LINE_LENGTH - left - 1" using less.prems(2,4) by (auto split: if_splits)
  show ?case
  proof (cases "?r < 0 \<or> pos = length ?bs")
    case True
    moreover have "?r \<le> 0" if "pos = length ?bs" using f count that unfolding reads_end_def by (metis less_irrefl)
    ultimately have "?r < 0 \<or> ?r = 0 \<and> left \<le> 0" using less.prems(4) by (auto simp: order_le_less)
    then show ?thesis using less.prems(3) by (subst load_loop.simps) (auto simp: Let_def)
  next
    case False
    then have left: "left = int (length buf)" and pos: "pos < length ?bs" using less.prems by auto
    define r where "r = nat ?r"
    have "?r \<noteq> 0 \<and> ?r \<le> int MAX_LINE_LENGTH - left - 1 \<and> ?r \<le> int (length ?bs - pos)"
      using f count pos unfolding reads_end_def by meson
    then have r: "?r = int r" "0 < r" "length buf + r \<le> 255" "pos + r \<le> length ?bs"
      using False left pos unfolding r_def by linarith+
    define B where "B = buf @ take r (drop pos ?bs)"
    have B: "length B = length buf + r" using r by (simp add: B_def)
    have sz: "int (length ?bs - pos) - int r = int (length ?bs - (pos + r))" using r by simp
    have dec: "length ?bs - (pos + r) < length ?bs - pos" using r pos by simp
    have c: "(int r < 0) = False" "(left < 0) = False" "(left + int r \<le> 0) = False"
      "(int MAX_LINE_LENGTH - 1 \<le> left + int r) = (255 \<le> length B)"
      "(int (length ?bs - (pos + r)) \<le> 0) = (length ?bs \<le> pos + r)"
      using left r B by auto
    obtain left2 rest skip' st' eff' where l: "line_loop (length ?bs \<le> pos + r) B skip st eff = (left2, rest, skip', st', eff')"
      by (metis prod_cases5)
    have step: "load_loop f pos (int (length ?bs - pos)) left buf skip st eff =
      (if find_newline B = None \<and> 255 \<le> length B
       then load_loop f (pos + r) (int (length ?bs - (pos + r))) 0 [] True st
              (eff @ [LOGD tag_config ''Buffer overflow, skipping long line'' []])
       else load_loop f (pos + r) (int (length ?bs - (pos + r))) left2 rest skip' st' eff')"
      by (subst load_loop.simps) (simp only: Let_def r(1) c nat_int if_False B_def [symmetric] sz l prod.case)
    show ?thesis
    proof (cases "find_newline B = None \<and> 255 \<le> length B")
      case True
      then show ?thesis unfolding step using less.hyps [OF dec r(4), of "[]" st 0] less.prems(3) by simp
    next
      case False
      have w: "state_wf st' \<and> length rest < 255 \<and>
          (if length ?bs \<le> pos + r then rest = [] \<and> left2 \<le> 0 \<and> - 1 \<le> left2 else left2 = int (length rest))"
        using line_loop_wf [OF l] False B r(3) less.prems(3) by auto
      have "if pos + r = length ?bs then rest = [] \<and> left2 \<le> 0 \<and> - 1 \<le> left2 else left2 = int (length rest)"
        using w r(4) by (auto split: if_splits)
      then show ?thesis unfolding step using False less.hyps [OF dec r(4)] w by auto
    qed
  qed
qed

lemma ConfigStore_Load_wf:
  assumes "reads_end f" "0 < size_ret f \<longrightarrow> size_ret f = int (length (file_bytes f))" "state_wf st"
  shows "\<exists>ok st' eff. ConfigStore_Load (Some name) f st = Some (ok, st', eff) \<and> state_wf st'"
proof (cases "0 \<le> open_ret f \<and> 0 < size_ret f")
  case True
  then show ?thesis
    using load_loop_wf [OF assms(1), of 0 "[]" st 0 False "[]"] assms(2,3) by (auto simp: ConfigStore_Load_def)
next
  case False
  then show ?thesis using assms(3) by (auto simp: ConfigStore_Load_def)
qed

definition imei_default :: "cstr \<Rightarrow> t_Config" where
  "imei_default i = default_config\<lparr>imei := i, device_name := i\<rparr>"

lemma init_rows_imei:
  assumes "i \<noteq> []" "length i < 16"
  shows "fold init_entry (map (imei_entry i) g_config_map) (set_cfg (imei_update (\<lambda>_. i)) boot_state, eff) =
    (\<lparr>g_ConfigStore = imei_default i, isSaveLog = False, gpsLogPath = PathConfig\<rparr>, eff)"
  using assms
  by (simp add: g_config_map_def imei_entry_def entry_defs validator_defs default_simps default_config_def
      imei_default_def)

lemma init_rows_default:
  "fold init_entry g_config_map (set_cfg (imei_update (\<lambda>_. i)) boot_state, eff) =
    (\<lparr>g_ConfigStore = default_config\<lparr>imei := i\<rparr>, isSaveLog = False, gpsLogPath = PathConfig\<rparr>, eff)"
  by (simp add: g_config_map_def entry_defs validator_defs default_simps default_config_def DEFAULT_DEVICE_NAME_def)

lemma ConfigStore_Init_returns:
  assumes "reads_end f" "0 < size_ret f \<longrightarrow> size_ret f = int (length (file_bytes f))"
    "length i < MAX_IMEI_LENGTH" "NUL \<notin> set i" "got \<longrightarrow> i \<noteq> []"
  shows "\<exists>st eff. ConfigStore_Init (got, i) f boot_state = Some (st, eff) \<and> state_wf st"
proof -
  define st2 where "st2 = \<lparr>g_ConfigStore = (if got then imei_default i else default_config\<lparr>imei := i\<rparr>),
    isSaveLog = False, gpsLogPath = PathConfig\<rparr>"
  have wf: "state_wf st2" using assms(3-5) default_wf
    by (auto simp: st2_def state_wf_def cfg_wf_def log_switch_ok_def imei_default_def cstr_ok_def
        default_config_def Suc_le_eq)
  have rows: "\<exists>e2. fold init_entry (if got then map (imei_entry i) g_config_map else g_config_map)
      (set_cfg (imei_update (\<lambda>_. i)) boot_state, e1) = (st2, e2)" for e1
    using init_rows_imei [of i e1] init_rows_default [of i e1] assms(3,5) by (simp add: st2_def)
  obtain e2 where r: "fold init_entry (if got then map (imei_entry i) g_config_map else g_config_map)
      (set_cfg (imei_update (\<lambda>_. i)) boot_state,
        if got then [] else UART_Printf ''Failed to get imei, using default device name: %s'' [AStr DEFAULT_DEVICE_NAME]) =
      (st2, e2)" using rows by blast
  obtain ok st3 e3 where "ConfigStore_Load (Some CONFIG_FILE_PATH) f st2 = Some (ok, st3, e3)" "state_wf st3"
    using ConfigStore_Load_wf [OF assms(1,2) wf] by blast
  then show ?thesis unfolding ConfigStore_Init_def Let_def prod.case r by simp
qed

text \<open>
  C8. Initialisation always returns and leaves a well-formed configuration, whatever bytes the
  configuration file contains, NUL bytes, overlong lines and nonsense included, whether it could be opened
  or not, whether reading it fails at some point or delivers it in pieces, and whether the IMEI was
  available: mandatory strings are non-empty and terminated within their arrays, the range
  error lies strictly between 0 and 100, and the GPS log switch follows \<open>gps_logging\<close>. Of the
  SDK it relies on this: a positive file size is the size of the file, a read before its end does
  not deliver zero bytes, and an IMEI is a non-empty text that fits its array.
\<close>

theorem ConfigStore_Init_wf:
  assumes "reads_end f" "0 < size_ret f \<longrightarrow> size_ret f = int (length (file_bytes f))"
    "length i < MAX_IMEI_LENGTH" "NUL \<notin> set i" "got \<longrightarrow> i \<noteq> []"
  shows "\<exists>st eff. ConfigStore_Init (got, i) f boot_state = Some (st, eff) \<and> state_wf st"
  using assms by (rule ConfigStore_Init_returns)

text \<open>The witness: a line cut by a NUL byte, and a second read that fails.\<close>

theorem ConfigStore_Init_wf_witness:
  "\<exists>st eff. ConfigStore_Init (True, ''868'') \<lparr>open_ret = 1, size_ret = 8, file_bytes = ''port='' @ [NUL, CHR ''x'', LF],
     read_ret = \<lambda>pos count. if pos < 6 then min count (int (6 - pos)) else - 1\<rparr> boot_state = Some (st, eff) \<and> state_wf st"
proof -
  let ?f = "\<lparr>open_ret = 1, size_ret = 8, file_bytes = ''port='' @ [NUL, CHR ''x'', LF],
     read_ret = \<lambda>pos count. if pos < 6 then min count (int (6 - pos)) else - 1\<rparr>"
  have "reads_end ?f" by (auto simp: reads_end_def)
  then show ?thesis using ConfigStore_Init_wf [of ?f "''868''" True] by simp
qed

end
