(* ===== verification/Minmea.thy ===== *)
theory Minmea
  imports Utils
begin

text \<open>
  The NMEA parser, \<open>libs/gps/minmea/src/minmea.c\<close>: checksum and integrity check, the
  \<open>scanf\<close>-like field scanner, sentence identification and the eight frame parsers.

  The scanner stores each value as soon as it is read, so a sentence that turns out
  malformed has already overwritten the fields before the error. It is modelled by
  returning, with the success flag, the values stored so far; the frame parsers store
  them through one setter per argument of the call.
\<close>

section \<open>Checksums\<close>

definition hex2int :: "char \<Rightarrow> int" where
  "hex2int c =
     (if 48 \<le> code c \<and> code c \<le> 57 then int (code c) - 48
      else if 65 \<le> code c \<and> code c \<le> 70 then int (code c) - 65 + 10
      else if 97 \<le> code c \<and> code c \<le> 102 then int (code c) - 97 + 10
      else - 1)"

fun xor_until_star :: "u8 \<Rightarrow> cstr \<Rightarrow> u8" where
  "xor_until_star checksum [] = checksum"
| "xor_until_star checksum (c # cs) =
     (if c = CHR ''*'' then checksum else xor_until_star (checksum XOR byte c) cs)"

definition minmea_checksum :: "cstr \<Rightarrow> u8" where
  "minmea_checksum sentence =
     (case sentence of
        [] \<Rightarrow> xor_until_star 0 []
      | c # cs \<Rightarrow> if c = CHR ''$'' then xor_until_star 0 cs else xor_until_star 0 sentence)"

abbreviation MINMEA_MAX_LENGTH :: nat where "MINMEA_MAX_LENGTH \<equiv> 80"

text \<open>The loop of \<open>minmea_check\<close> also stops at a character that is not printable.\<close>

fun check_loop :: "u8 \<Rightarrow> cstr \<Rightarrow> u8 \<times> cstr" where
  "check_loop checksum [] = (checksum, [])"
| "check_loop checksum (c # cs) =
     (if c \<noteq> CHR ''*'' \<and> isprint c then check_loop (checksum XOR byte c) cs else (checksum, c # cs))"

definition check_tail :: "cstr \<Rightarrow> bool" where
  "check_tail sentence \<longleftrightarrow> sentence = [] \<or> strcmp_eq sentence [LF] \<or> strcmp_eq sentence CRLF"

definition minmea_check :: "cstr \<Rightarrow> bool \<Rightarrow> bool" where
  "minmea_check sentence strict =
     (if length sentence > MINMEA_MAX_LENGTH + 3 then False
      else if at_ptr sentence \<noteq> CHR ''$'' then False
      else
        let (checksum, rest) = check_loop 0 (tl sentence) in
        if at_ptr rest = CHR ''*'' then
          let p = tl rest; upper = hex2int (at_ptr p) in
          if upper = - 1 then False
          else let q = tl p; lower = hex2int (at_ptr q) in
            if lower = - 1 then False
            else if int (unat checksum) \<noteq> upper * 16 + lower then False
            else check_tail (tl q)
        else if strict then False
        else check_tail rest)"

section \<open>The scanner\<close>

definition minmea_isfield :: "char \<Rightarrow> bool" where
  "minmea_isfield c \<longleftrightarrow> isprint c \<and> c \<noteq> CHR '','' \<and> c \<noteq> CHR ''*''"

definition char_at :: "cstr \<Rightarrow> nat \<Rightarrow> char" where
  "char_at s i = (if i < length s then s ! i else NUL)"

datatype scan_val =
    SvChar char | SvDir int | SvFloat minmea_float | SvInt int | SvStr cstr
  | SvType cstr | SvDate minmea_date | SvTime minmea_time

definition scan_char :: "cstr option \<Rightarrow> char" where
  "scan_char field = (case field of None \<Rightarrow> NUL
     | Some s \<Rightarrow> if minmea_isfield (at_ptr s) then at_ptr s else NUL)"

definition scan_dir :: "cstr option \<Rightarrow> int option" where
  "scan_dir field = (case field of None \<Rightarrow> Some 0
     | Some s \<Rightarrow>
       if minmea_isfield (at_ptr s) then
         (if at_ptr s = CHR ''N'' \<or> at_ptr s = CHR ''E'' then Some 1
          else if at_ptr s = CHR ''S'' \<or> at_ptr s = CHR ''W'' then Some (- 1)
          else None)
       else Some 0)"

text \<open>
  The digits of a fractional value. \<open>value\<close> is -1 until a digit is read; when it would
  outgrow 31 bits, further decimals are dropped and further integer digits are an error.
\<close>

fun frac_loop :: "int \<Rightarrow> int \<Rightarrow> int \<Rightarrow> cstr \<Rightarrow> (int \<times> int \<times> int) option" where
  "frac_loop sign val scale [] = Some (sign, val, scale)"
| "frac_loop sign val scale (c # cs) =
     (if \<not> minmea_isfield c then Some (sign, val, scale)
      else if c = CHR ''+'' \<and> sign = 0 \<and> val = - 1 then frac_loop 1 val scale cs
      else if c = CHR ''-'' \<and> sign = 0 \<and> val = - 1 then frac_loop (- 1) val scale cs
      else if isdigit c then
        (let digit = int (digit_val c); v = (if val = - 1 then 0 else val) in
         if v > (INT_MAX - digit) div 10
         then (if scale \<noteq> 0 then Some (sign, v, scale) else None)
         else frac_loop sign (10 * v + digit) (if scale \<noteq> 0 then i32 (scale * 10) else scale) cs)
      else if c = CHR ''.'' \<and> scale = 0 then frac_loop sign val 1 cs
      else if c = CHR '' '' then
        (if sign \<noteq> 0 \<or> val \<noteq> - 1 \<or> scale \<noteq> 0 then None else frac_loop sign val scale cs)
      else None)"

definition scan_frac :: "cstr option \<Rightarrow> minmea_float option" where
  "scan_frac field =
     Option.bind (case field of None \<Rightarrow> Some (0, - 1, 0) | Some s \<Rightarrow> frac_loop 0 (- 1) 0 s)
       (\<lambda>(sign, val, scale).
          if (sign \<noteq> 0 \<or> scale \<noteq> 0) \<and> val = - 1 then None
          else
            let (v, sc) = (if val = - 1 then (0, 0) else if scale = 0 then (val, 1) else (val, scale));
                v' = (if sign \<noteq> 0 then i32 (v * sign) else v)
            in Some \<lparr>fl_value = v', fl_scale = sc\<rparr>)"

definition scan_int :: "cstr option \<Rightarrow> int option" where
  "scan_int field = (case field of None \<Rightarrow> Some 0
     | Some s \<Rightarrow> let (v, endptr) = strtol s 10 in if minmea_isfield (at_ptr endptr) then None else Some v)"

definition scan_str :: "cstr option \<Rightarrow> cstr" where
  "scan_str field = (case field of None \<Rightarrow> [] | Some s \<Rightarrow> takeWhile minmea_isfield s)"

definition scan_type :: "cstr option \<Rightarrow> cstr option" where
  "scan_type field = (case field of None \<Rightarrow> None
     | Some s \<Rightarrow>
       if char_at s 0 \<noteq> CHR ''$'' then None
       else if list_all (\<lambda>f. minmea_isfield (char_at s (1 + f))) [0..<5] then Some (take 5 (tl s))
       else None)"

definition two_digits :: "cstr \<Rightarrow> nat \<Rightarrow> int" where
  "two_digits s i = fst (strtol [char_at s i, char_at s (i + 1)] 10)"

definition six_digits :: "cstr \<Rightarrow> bool" where
  "six_digits s \<longleftrightarrow> list_all (\<lambda>f. isdigit (char_at s f)) [0..<6]"

definition scan_date :: "cstr option \<Rightarrow> minmea_date option" where
  "scan_date field = (case field of None \<Rightarrow> Some \<lparr>day = - 1, month = - 1, year = - 1\<rparr>
     | Some s \<Rightarrow>
       if minmea_isfield (at_ptr s) then
         (if six_digits s
          then Some \<lparr>day = two_digits s 0, month = two_digits s 2, year = two_digits s 4\<rparr> else None)
       else Some \<lparr>day = - 1, month = - 1, year = - 1\<rparr>)"

text \<open>At most six decimals are read, so \<open>value\<close> stays below a million and does not wrap.\<close>

fun micro_loop :: "nat \<Rightarrow> nat \<Rightarrow> cstr \<Rightarrow> nat \<times> nat" where
  "micro_loop val scale [] = (val, scale)"
| "micro_loop val scale (c # cs) =
     (if isdigit c \<and> scale > 1 then micro_loop (val * 10 + digit_val c) (scale div 10) cs
      else (val, scale))"

definition scan_time :: "cstr option \<Rightarrow> minmea_time option" where
  "scan_time field = (case field of
       None \<Rightarrow> Some \<lparr>hours = - 1, minutes = - 1, seconds = - 1, microseconds = - 1\<rparr>
     | Some s \<Rightarrow>
       if minmea_isfield (at_ptr s) then
         (if six_digits s then
            let u = (if char_at s 6 = CHR ''.''
                     then let (v, sc) = micro_loop 0 1000000 (drop 7 s) in int (v * sc) else 0)
            in Some \<lparr>hours = two_digits s 0, minutes = two_digits s 2, seconds = two_digits s 4, microseconds = u\<rparr>
          else None)
       else Some \<lparr>hours = - 1, minutes = - 1, seconds = - 1, microseconds = - 1\<rparr>)"

text \<open>One conversion: \<open>None\<close> is \<open>parse_error\<close>, the list the values it stores.\<close>

definition scan_one :: "char \<Rightarrow> cstr option \<Rightarrow> scan_val list option" where
  "scan_one type field =
     (if type = CHR ''c'' then Some [SvChar (scan_char field)]
      else if type = CHR ''d'' then map_option (\<lambda>v. [SvDir v]) (scan_dir field)
      else if type = CHR ''f'' then map_option (\<lambda>v. [SvFloat v]) (scan_frac field)
      else if type = CHR ''i'' then map_option (\<lambda>v. [SvInt v]) (scan_int field)
      else if type = CHR ''s'' then Some [SvStr (scan_str field)]
      else if type = CHR ''t'' then map_option (\<lambda>v. [SvType v]) (scan_type field)
      else if type = CHR ''D'' then map_option (\<lambda>v. [SvDate v]) (scan_date field)
      else if type = CHR ''T'' then map_option (\<lambda>v. [SvTime v]) (scan_time field)
      else if type = CHR ''_'' then Some []
      else None)"

text \<open>The macro \<open>next_field()\<close>: the new \<open>sentence\<close> and \<open>field\<close>.\<close>

definition next_field :: "cstr \<Rightarrow> cstr \<times> cstr option" where
  "next_field sentence =
     (let s = dropWhile minmea_isfield sentence
      in if at_ptr s = CHR '','' then (tl s, Some (tl s)) else (s, None))"

fun scan_go :: "cstr \<Rightarrow> bool \<Rightarrow> cstr \<Rightarrow> cstr option \<Rightarrow> bool \<times> scan_val list" where
  "scan_go [] optional sentence field = (True, [])"
| "scan_go (type # format) optional sentence field =
     (if type = CHR '';'' then scan_go format True sentence field
      else if field = None \<and> \<not> optional then (False, [])
      else case scan_one type field of
        None \<Rightarrow> (False, [])
      | Some vs \<Rightarrow>
          let (s', f') = next_field sentence; (ok, rest) = scan_go format optional s' f'
          in (ok, vs @ rest))"

definition minmea_scan :: "cstr \<Rightarrow> cstr \<Rightarrow> bool \<times> scan_val list" where
  "minmea_scan sentence format = scan_go format False sentence (Some sentence)"

section \<open>Sentence identification\<close>

text \<open>The strings the scanner stored; \<open>[]\<close> stands for an argument that was not stored.\<close>

fun type_arg :: "scan_val list \<Rightarrow> cstr" where
  "type_arg (SvType s # _) = s"
| "type_arg _ = []"

definition minmea_talker_id :: "cstr \<Rightarrow> cstr option" where
  "minmea_talker_id sentence =
     (let (ok, vs) = minmea_scan sentence ''t''
      in if \<not> ok then None else Some (take 2 (type_arg vs)))"

definition minmea_sentence_id :: "cstr \<Rightarrow> bool \<Rightarrow> minmea_sentence_id" where
  "minmea_sentence_id sentence strict =
     (if \<not> minmea_check sentence strict then MINMEA_INVALID
      else let (ok, vs) = minmea_scan sentence ''t''; t = drop 2 (type_arg vs) in
        if \<not> ok then MINMEA_INVALID
        else if strcmp_eq t ''RMC'' then MINMEA_SENTENCE_RMC
        else if strcmp_eq t ''GGA'' then MINMEA_SENTENCE_GGA
        else if strcmp_eq t ''GSA'' then MINMEA_SENTENCE_GSA
        else if strcmp_eq t ''GLL'' then MINMEA_SENTENCE_GLL
        else if strcmp_eq t ''GST'' then MINMEA_SENTENCE_GST
        else if strcmp_eq t ''GSV'' then MINMEA_SENTENCE_GSV
        else if strcmp_eq t ''VTG'' then MINMEA_SENTENCE_VTG
        else if strcmp_eq t ''ZDA'' then MINMEA_SENTENCE_ZDA
        else MINMEA_UNKNOWN)"

section \<open>The frame parsers\<close>

text \<open>
  \<open>store_args\<close> carries out the stores of a \<open>minmea_scan\<close> call: one setter per argument,
  applied to as many values as were read. A local variable of the parser has the setter
  \<open>local_arg\<close> and is read back from the values.
\<close>

fun store_args :: "(scan_val \<Rightarrow> 'f \<Rightarrow> 'f) list \<Rightarrow> scan_val list \<Rightarrow> 'f \<Rightarrow> 'f" where
  "store_args (s # ss) (v # vs) f = store_args ss vs (s v f)"
| "store_args _ _ f = f"

definition local_arg :: "scan_val \<Rightarrow> 'f \<Rightarrow> 'f" where
  "local_arg v f = f"
definition time_arg :: "((minmea_time \<Rightarrow> minmea_time) \<Rightarrow> 'f \<Rightarrow> 'f) \<Rightarrow> scan_val \<Rightarrow> 'f \<Rightarrow> 'f" where
  "time_arg upd v f = (case v of SvTime t \<Rightarrow> upd (\<lambda>_. t) f | _ \<Rightarrow> f)"
definition date_arg :: "((minmea_date \<Rightarrow> minmea_date) \<Rightarrow> 'f \<Rightarrow> 'f) \<Rightarrow> scan_val \<Rightarrow> 'f \<Rightarrow> 'f" where
  "date_arg upd v f = (case v of SvDate t \<Rightarrow> upd (\<lambda>_. t) f | _ \<Rightarrow> f)"
definition float_arg :: "((minmea_float \<Rightarrow> minmea_float) \<Rightarrow> 'f \<Rightarrow> 'f) \<Rightarrow> scan_val \<Rightarrow> 'f \<Rightarrow> 'f" where
  "float_arg upd v f = (case v of SvFloat x \<Rightarrow> upd (\<lambda>_. x) f | _ \<Rightarrow> f)"
definition int_arg :: "((int \<Rightarrow> int) \<Rightarrow> 'f \<Rightarrow> 'f) \<Rightarrow> scan_val \<Rightarrow> 'f \<Rightarrow> 'f" where
  "int_arg upd v f = (case v of SvInt x \<Rightarrow> upd (\<lambda>_. x) f | _ \<Rightarrow> f)"
definition char_arg :: "((char \<Rightarrow> char) \<Rightarrow> 'f \<Rightarrow> 'f) \<Rightarrow> scan_val \<Rightarrow> 'f \<Rightarrow> 'f" where
  "char_arg upd v f = (case v of SvChar x \<Rightarrow> upd (\<lambda>_. x) f | _ \<Rightarrow> f)"

lemmas arg_defs = local_arg_def time_arg_def date_arg_def float_arg_def int_arg_def char_arg_def

definition char_val :: "scan_val list \<Rightarrow> nat \<Rightarrow> char" where
  "char_val vs k = (case vs ! k of SvChar c \<Rightarrow> c | _ \<Rightarrow> NUL)"
definition dir_val :: "scan_val list \<Rightarrow> nat \<Rightarrow> int" where
  "dir_val vs k = (case vs ! k of SvDir d \<Rightarrow> d | _ \<Rightarrow> 0)"

text \<open>\<open>x.value *= direction\<close>\<close>

definition scale_by :: "int \<Rightarrow> minmea_float \<Rightarrow> minmea_float" where
  "scale_by d x = x\<lparr>fl_value := i32 (fl_value x * d)\<rparr>"

definition type_is :: "scan_val list \<Rightarrow> cstr \<Rightarrow> bool" where
  "type_is vs name \<longleftrightarrow> strcmp_eq (drop 2 (type_arg vs)) name"

definition minmea_parse_rmc :: "minmea_sentence_rmc \<Rightarrow> cstr \<Rightarrow> bool \<times> minmea_sentence_rmc" where
  "minmea_parse_rmc frame sentence =
     (let (ok, vs) = minmea_scan sentence ''tTcfdfdffDfd'';
          f = store_args
            [local_arg, time_arg rmc_time_update, local_arg,
             float_arg rmc_latitude_update, local_arg, float_arg rmc_longitude_update, local_arg,
             float_arg rmc_speed_update, float_arg rmc_course_update, date_arg rmc_date_update,
             float_arg rmc_variation_update, local_arg] vs frame
      in if \<not> ok then (False, f)
         else if \<not> type_is vs ''RMC'' then (False, f)
         else (True, f\<lparr>rmc_valid := (char_val vs 2 = CHR ''A''),
                       rmc_latitude := scale_by (dir_val vs 4) (rmc_latitude f),
                       rmc_longitude := scale_by (dir_val vs 6) (rmc_longitude f),
                       rmc_variation := scale_by (dir_val vs 11) (rmc_variation f)\<rparr>))"

definition minmea_parse_gga :: "minmea_sentence_gga \<Rightarrow> cstr \<Rightarrow> bool \<times> minmea_sentence_gga" where
  "minmea_parse_gga frame sentence =
     (let (ok, vs) = minmea_scan sentence ''tTfdfdiiffcfcf_'';
          f = store_args
            [local_arg, time_arg gga_time_update,
             float_arg gga_latitude_update, local_arg, float_arg gga_longitude_update, local_arg,
             int_arg gga_fix_quality_update, int_arg gga_satellites_tracked_update,
             float_arg gga_hdop_update, float_arg gga_altitude_update, char_arg gga_altitude_units_update,
             float_arg gga_height_update, char_arg gga_height_units_update, float_arg gga_dgps_age_update] vs frame
      in if \<not> ok then (False, f)
         else if \<not> type_is vs ''GGA'' then (False, f)
         else (True, f\<lparr>gga_latitude := scale_by (dir_val vs 3) (gga_latitude f),
                       gga_longitude := scale_by (dir_val vs 5) (gga_longitude f)\<rparr>))"

definition gsa_sat_arg :: "nat \<Rightarrow> scan_val \<Rightarrow> minmea_sentence_gsa \<Rightarrow> minmea_sentence_gsa" where
  "gsa_sat_arg k = int_arg (\<lambda>g. gsa_sats_update (\<lambda>l. l[k := g (l ! k)]))"

definition minmea_parse_gsa :: "minmea_sentence_gsa \<Rightarrow> cstr \<Rightarrow> bool \<times> minmea_sentence_gsa" where
  "minmea_parse_gsa frame sentence =
     (let (ok, vs) = minmea_scan sentence ''tciiiiiiiiiiiiifff'';
          f = store_args
            ([local_arg, char_arg gsa_mode_update, int_arg gsa_fix_type_update] @
             map gsa_sat_arg [0..<12] @
             [float_arg gsa_pdop_update, float_arg gsa_hdop_update, float_arg gsa_vdop_update]) vs frame
      in if \<not> ok then (False, f)
         else if \<not> type_is vs ''GSA'' then (False, f)
         else (True, f))"

definition minmea_parse_gll :: "minmea_sentence_gll \<Rightarrow> cstr \<Rightarrow> bool \<times> minmea_sentence_gll" where
  "minmea_parse_gll frame sentence =
     (let (ok, vs) = minmea_scan sentence ''tfdfdTc;c'';
          f = store_args
            [local_arg, float_arg gll_latitude_update, local_arg, float_arg gll_longitude_update, local_arg,
             time_arg gll_time_update, char_arg gll_status_update, char_arg gll_mode_update] vs frame
      in if \<not> ok then (False, f)
         else if \<not> type_is vs ''GLL'' then (False, f)
         else (True, f\<lparr>gll_latitude := scale_by (dir_val vs 2) (gll_latitude f),
                       gll_longitude := scale_by (dir_val vs 4) (gll_longitude f)\<rparr>))"

definition minmea_parse_gst :: "minmea_sentence_gst \<Rightarrow> cstr \<Rightarrow> bool \<times> minmea_sentence_gst" where
  "minmea_parse_gst frame sentence =
     (let (ok, vs) = minmea_scan sentence ''tTfffffff'';
          f = store_args
            [local_arg, time_arg gst_time_update, float_arg gst_rms_deviation_update,
             float_arg gst_semi_major_deviation_update, float_arg gst_semi_minor_deviation_update,
             float_arg gst_semi_major_orientation_update, float_arg gst_latitude_error_deviation_update,
             float_arg gst_longitude_error_deviation_update, float_arg gst_altitude_error_deviation_update] vs frame
      in if \<not> ok then (False, f)
         else if \<not> type_is vs ''GST'' then (False, f)
         else (True, f))"

definition gsv_sat_arg :: "nat \<Rightarrow> ((int \<Rightarrow> int) \<Rightarrow> minmea_sat_info \<Rightarrow> minmea_sat_info) \<Rightarrow>
    scan_val \<Rightarrow> minmea_sentence_gsv \<Rightarrow> minmea_sentence_gsv" where
  "gsv_sat_arg k upd = int_arg (\<lambda>g. gsv_sats_update (\<lambda>l. l[k := upd g (l ! k)]))"

definition gsv_sat_args :: "nat \<Rightarrow> (scan_val \<Rightarrow> minmea_sentence_gsv \<Rightarrow> minmea_sentence_gsv) list" where
  "gsv_sat_args k = [gsv_sat_arg k sat_nr_update, gsv_sat_arg k sat_elevation_update,
     gsv_sat_arg k sat_azimuth_update, gsv_sat_arg k sat_snr_update]"

definition minmea_parse_gsv :: "minmea_sentence_gsv \<Rightarrow> cstr \<Rightarrow> bool \<times> minmea_sentence_gsv" where
  "minmea_parse_gsv frame sentence =
     (let (ok, vs) = minmea_scan sentence ''tiii;iiiiiiiiiiiiiiii'';
          f = store_args
            ([local_arg, int_arg gsv_total_msgs_update, int_arg gsv_msg_nr_update, int_arg gsv_total_sats_update] @
             concat (map gsv_sat_args [0..<4])) vs frame
      in if \<not> ok then (False, f)
         else if \<not> type_is vs ''GSV'' then (False, f)
         else (True, f))"

definition minmea_parse_vtg :: "minmea_sentence_vtg \<Rightarrow> cstr \<Rightarrow> bool \<times> minmea_sentence_vtg" where
  "minmea_parse_vtg frame sentence =
     (let (ok, vs) = minmea_scan sentence ''tfcfcfcfc;c'';
          f = store_args
            [local_arg, float_arg vtg_true_track_degrees_update, local_arg,
             float_arg vtg_magnetic_track_degrees_update, local_arg,
             float_arg vtg_speed_knots_update, local_arg, float_arg vtg_speed_kph_update, local_arg, local_arg] vs frame
      in if \<not> ok then (False, f)
         else if \<not> type_is vs ''VTG'' then (False, f)
         else if char_val vs 2 \<noteq> CHR ''T'' \<or> char_val vs 4 \<noteq> CHR ''M'' \<or>
                 char_val vs 6 \<noteq> CHR ''N'' \<or> char_val vs 8 \<noteq> CHR ''K'' then (False, f)
         else (True, f\<lparr>vtg_faa_mode := char_val vs 9\<rparr>))"

definition zda_date_arg :: "((int \<Rightarrow> int) \<Rightarrow> minmea_date \<Rightarrow> minmea_date) \<Rightarrow> scan_val \<Rightarrow>
    minmea_sentence_zda \<Rightarrow> minmea_sentence_zda" where
  "zda_date_arg upd = int_arg (\<lambda>g. zda_date_update (upd g))"

definition minmea_parse_zda :: "minmea_sentence_zda \<Rightarrow> cstr \<Rightarrow> bool \<times> minmea_sentence_zda" where
  "minmea_parse_zda frame sentence =
     (let (ok, vs) = minmea_scan sentence ''tTiiiii'';
          f = store_args
            [local_arg, time_arg zda_time_update, zda_date_arg day_update, zda_date_arg month_update,
             zda_date_arg year_update, int_arg zda_hour_offset_update, int_arg zda_minute_offset_update] vs frame
      in if \<not> ok then (False, f)
         else if \<not> type_is vs ''ZDA'' then (False, f)
         else if \<bar>zda_hour_offset f\<bar> > 13 \<or> zda_minute_offset f > 59 \<or> zda_minute_offset f < 0 then (False, f)
         else (True, f))"

text \<open>
  \<open>minmea_gettime\<close>: \<open>timegm\<close> belongs to the C library and is a parameter on the fields of
  \<open>struct tm\<close>; the result is the return value and, on success, \<open>tv_sec\<close> and \<open>tv_nsec\<close>.
\<close>

record c_tm =
  tm_year :: int
  tm_mon :: int
  tm_mday :: int
  tm_hour :: int
  tm_min :: int
  tm_sec :: int

definition minmea_gettime :: "(c_tm \<Rightarrow> int) \<Rightarrow> minmea_date \<Rightarrow> minmea_time \<Rightarrow> int \<times> (int \<times> int) option" where
  "minmea_gettime timegm date tm =
     (if year date = - 1 \<or> hours tm = - 1 then (- 1, None)
      else
        let y = (if year date < 80 then 2000 + year date - 1900
                 else if year date \<ge> 1900 then year date - 1900 else year date);
            timestamp = timegm \<lparr>tm_year = y, tm_mon = month date - 1, tm_mday = day date,
              tm_hour = hours tm, tm_min = minutes tm, tm_sec = seconds tm\<rparr>
        in if timestamp \<noteq> - 1 then (0, Some (timestamp, microseconds tm * 1000)) else (- 1, None))"

section \<open>The checksum detects a changed character\<close>

text \<open>A sentence around a payload, with two checksum digits.\<close>

definition hex_char :: "nat \<Rightarrow> char" where
  "hex_char d = (if d < 10 then char_of (48 + d) else char_of (55 + d))"

definition nmea_frame :: "cstr \<Rightarrow> u8 \<Rightarrow> cstr" where
  "nmea_frame payload k =
     CHR ''$'' # payload @ CHR ''*'' # hex_char (unat k div 16) # hex_char (unat k mod 16) # CRLF"

abbreviation payload_ok :: "cstr \<Rightarrow> bool" where
  "payload_ok p \<equiv> (\<forall>c \<in> set p. isprint c \<and> c \<noteq> CHR ''*'')"

lemma hex2int_hex_char: "d < 16 \<Longrightarrow> hex2int (hex_char d) = int d"
  by (auto simp: hex2int_def hex_char_def)

lemma xor_until_star_payload:
  "payload_ok p \<Longrightarrow> xor_until_star k (p @ CHR ''*'' # r) = xor_until_star k p"
  by (induction p arbitrary: k) auto

lemma check_loop_payload:
  "payload_ok p \<Longrightarrow> check_loop k (p @ CHR ''*'' # r) = (xor_until_star k p, CHR ''*'' # r)"
  by (induction p arbitrary: k) auto

lemma xor_start: "xor_until_star k p = k XOR xor_until_star 0 p"
proof (induction p arbitrary: k)
  case (Cons c p)
  show ?case
  proof (cases "c = CHR ''*''")
    case False
    then show ?thesis using Cons [of "k XOR byte c"] Cons [of "byte c"] by (simp add: xor.assoc)
  qed simp
qed simp

lemma xor_append:
  "payload_ok p \<Longrightarrow> xor_until_star k (p @ q) = xor_until_star (xor_until_star k p) q"
  by (induction p arbitrary: k) auto

lemma u8_eq_iff: "(a :: u8) = b \<longleftrightarrow> unat a = unat b"
  by (simp add: word_eq_iff_unsigned)

lemma minmea_check_frame:
  assumes "payload_ok p" "length p \<le> 77"
  shows "minmea_check (nmea_frame p k) strict \<longleftrightarrow> xor_until_star 0 p = k"
proof -
  have k: "unat k < 256" using unsigned_less [of k] by simp
  have eq: "int (unat (xor_until_star 0 p)) = int (unat k div 16) * 16 + int (unat k mod 16)
      \<longleftrightarrow> xor_until_star 0 p = k"
  proof -
    have "int (unat k div 16) * 16 + int (unat k mod 16) = int (unat k)"
      by (metis div_mult_mod_eq of_nat_add of_nat_mult of_nat_numeral)
    then show ?thesis unfolding u8_eq_iff by linarith
  qed
  have h: "hex2int (hex_char (unat k div 16)) = int (unat k div 16)"
    "hex2int (hex_char (unat k mod 16)) = int (unat k mod 16)"
    using k by (auto intro!: hex2int_hex_char)
  show ?thesis
    unfolding minmea_check_def nmea_frame_def
    using assms eq by (simp add: check_loop_payload h check_tail_def strcmp_eq_def Let_def)
qed

lemma byte_eq_iff: "byte c = byte d \<longleftrightarrow> c = d"
  by (metis unat_byte of_char_eq_iff)

text \<open>
  C11. \<open>minmea_check\<close> accepts a sentence exactly when the two checksum digits are the
  exclusive or of its payload; in particular it rejects every sentence in which a single
  payload character was replaced by another printable one.
\<close>

theorem minmea_check_detects:
  assumes "payload_ok (p @ c # r)" "payload_ok (p @ d # r)" "length (p @ d # r) \<le> 77"
  shows "minmea_check (nmea_frame (p @ d # r) (minmea_checksum (CHR ''$'' # p @ c # r))) strict \<longleftrightarrow> c = d"
proof -
  note inj = byte_eq_iff [of c d]
  have s: "minmea_checksum (CHR ''$'' # p @ c # r) = xor_until_star 0 (p @ c # r)"
    by (simp add: minmea_checksum_def)
  have x: "xor_until_star 0 (p @ e # r) = (xor_until_star 0 p XOR xor_until_star 0 r) XOR byte e"
    if "payload_ok (p @ e # r)" for e
  proof -
    have "xor_until_star 0 (p @ e # r) = xor_until_star (xor_until_star 0 p XOR byte e) r"
      using that by (simp add: xor_append)
    then show ?thesis using xor_start [of "xor_until_star 0 p XOR byte e" r]
      by (simp add: xor.assoc xor.commute xor.left_commute)
  qed
  have cancel: "a XOR u = a XOR v \<longleftrightarrow> u = v" for a u v :: u8
    by (metis xor.assoc xor_self_eq xor.left_neutral)
  show ?thesis
    unfolding s minmea_check_frame [OF assms(2,3)] x [OF assms(1)] x [OF assms(2)] cancel
    using inj by auto
qed

theorem minmea_check_detects_witness:
  "minmea_check (nmea_frame ''GPGSV,4,4,13'' (minmea_checksum ''$GPGSV,4,4,13'')) True \<and>
   \<not> minmea_check (nmea_frame ''GPGSV,4,4,14'' (minmea_checksum ''$GPGSV,4,4,13'')) True"
  using minmea_check_detects [of "''GPGSV,4,4,1''" "CHR ''3''" "[]" "CHR ''3''" True]
    minmea_check_detects [of "''GPGSV,4,4,1''" "CHR ''3''" "[]" "CHR ''4''" True]
  by (simp add: isprint_def)

section \<open>Scanning what a receiver prints\<close>

text \<open>A number with \<open>k\<close> decimals, a two-digit number, a time and a date, as a receiver writes them.\<close>

definition dec_text :: "nat \<Rightarrow> nat \<Rightarrow> cstr" where
  "dec_text k v = (if k = 0 then nat_str v
     else nat_str (v div 10 ^ k) @ CHR ''.'' # zpad k (nat_str (v mod 10 ^ k)))"

definition two_text :: "nat \<Rightarrow> cstr" where
  "two_text n = [digit_char (n div 10), digit_char (n mod 10)]"

definition sep_ok :: "cstr \<Rightarrow> bool" where
  "sep_ok t \<longleftrightarrow> \<not> minmea_isfield (at_ptr t)"

lemma isfield_digit: "isdigit c \<Longrightarrow> minmea_isfield c"
  by (auto simp: minmea_isfield_def isprint_def isdigit_def)

lemma isfield_consts [simp]:
  "\<not> minmea_isfield (CHR '','')" "\<not> minmea_isfield (CHR ''*'')" "\<not> minmea_isfield NUL" "minmea_isfield (CHR ''.'')"
  by (simp_all add: minmea_isfield_def isprint_def)

lemma sep_ok_consts [simp]: "sep_ok (CHR '','' # t)" "sep_ok (CHR ''*'' # t)" "sep_ok []"
  by (simp_all add: sep_ok_def)

text \<open>The fractional scanner on digits that do not overflow.\<close>

lemma frac_digits:
  "\<forall>c \<in> set ds. isdigit c \<Longrightarrow> 0 \<le> v \<Longrightarrow> int (dec_val (nat v) ds) \<le> INT_MAX \<Longrightarrow>
   0 \<le> sc \<Longrightarrow> sc * 10 ^ length ds \<le> INT_MAX \<Longrightarrow>
   frac_loop sg v sc (ds @ t) = frac_loop sg (int (dec_val (nat v) ds)) (sc * 10 ^ length ds) t"
proof (induction ds arbitrary: v sc)
  case (Cons c ds)
  let ?d = "int (digit_val c)"
  have dc: "isdigit c" "minmea_isfield c" "c \<noteq> CHR ''+''" "c \<noteq> CHR ''-''"
    using Cons.prems(1) isfield_digit by (auto simp: isdigit_def)
  have nv: "nat (10 * v + ?d) = 10 * nat v + digit_val c" using Cons.prems(2) by (simp add: nat_add_distrib nat_mult_distrib)
  have mono: "a \<le> dec_val a t" for a t using dec_val_acc [of a t] by (simp add: trans_le_add1)
  have le: "10 * v + ?d \<le> INT_MAX"
    using mono [of "10 * nat v + digit_val c" ds] Cons.prems(2,3) by simp
  have nov: "\<not> v > (INT_MAX - ?d) div 10"
  proof -
    have "v * 10 \<le> INT_MAX - ?d" using le by simp
    then have "v * 10 div 10 \<le> (INT_MAX - ?d) div 10" by (rule zdiv_mono1) simp
    then show ?thesis by simp
  qed
  have p: "1 \<le> (10 :: int) ^ length ds" by simp
  have sc10: "sc * 10 \<le> INT_MAX"
  proof -
    have "sc * 10 * 1 \<le> sc * 10 * 10 ^ length ds" using Cons.prems(4) p by (intro mult_left_mono) simp_all
    then show ?thesis using Cons.prems(5) by simp
  qed
  have "frac_loop sg v sc ((c # ds) @ t) = frac_loop sg (10 * v + ?d) (sc * 10) (ds @ t)"
    using dc nov Cons.prems(2,4) sc10 by (simp add: Let_def in_i32_def)
  also have "\<dots> = frac_loop sg (int (dec_val (nat (10 * v + ?d)) ds)) (sc * 10 * 10 ^ length ds) t"
    by (rule Cons.IH) (use Cons.prems nv in \<open>simp_all add: mult.assoc\<close>)
  finally show ?case using nv by (simp add: mult.assoc)
qed simp

lemma frac_first:
  "ds \<noteq> [] \<Longrightarrow> \<forall>c \<in> set ds. isdigit c \<Longrightarrow> frac_loop sg (- 1) sc (ds @ t) = frac_loop sg 0 sc (ds @ t)"
proof (cases ds)
  case (Cons c cs)
  assume d: "\<forall>c \<in> set ds. isdigit c"
  then have "isdigit c" "minmea_isfield c" "c \<noteq> CHR ''+''" "c \<noteq> CHR ''-''"
    using Cons isfield_digit by (auto simp: isdigit_def)
  then show ?thesis using Cons by (simp add: Let_def)
qed simp

lemma frac_stop: "sep_ok t \<Longrightarrow> frac_loop sg v sc t = Some (sg, v, sc)"
  by (cases t) (auto simp: sep_ok_def)

lemma frac_dot: "0 \<le> v \<Longrightarrow> frac_loop sg v 0 (CHR ''.'' # t) = frac_loop sg v 1 t"
  by (simp add: isdigit_def)

lemma scan_frac_text:
  assumes "int v \<le> INT_MAX" "k \<le> 9" "sep_ok t"
  shows "scan_frac (Some (dec_text k v @ t)) = Some \<lparr>fl_value = int v, fl_scale = 10 ^ k\<rparr>"
proof (cases "k = 0")
  case True
  have "frac_loop 0 (- 1) 0 (nat_str v @ t) = Some (0, int v, 0)"
    using frac_first [of "nat_str v" 0 0 t] frac_digits [of "nat_str v" 0 0 0 t] assms nat_str_digits frac_stop
    by simp
  then show ?thesis using True by (simp add: scan_frac_def dec_text_def)
next
  case False
  let ?ip = "nat_str (v div 10 ^ k)" and ?fr = "zpad k (nat_str (v mod 10 ^ k))"
  have d: "\<forall>c \<in> set ?ip. isdigit c" "\<forall>c \<in> set ?fr. isdigit c" using nat_str_digits zpad_digits by blast+
  have l: "length ?fr = k" by (intro length_zpad length_nat_str) (use False in simp_all)
  have dv: "dec_val (v div 10 ^ k) ?fr = v"
    using dec_val_acc [of "v div 10 ^ k" ?fr] l div_mult_mod_eq [of v "10 ^ k"] by simp
  have "int (v div 10 ^ k) \<le> int v" by (simp add: div_le_dividend)
  then have ivp: "int (v div 10 ^ k) \<le> INT_MAX" using assms(1) by linarith
  have pk: "(10 :: int) ^ k \<le> INT_MAX"
  proof -
    have "(10 :: int) ^ k \<le> 10 ^ 9" using assms(2) by (intro power_increasing) simp_all
    then show ?thesis by simp
  qed
  have "frac_loop 0 (- 1) 0 (?ip @ CHR ''.'' # ?fr @ t) = frac_loop 0 (int (v div 10 ^ k)) 0 (CHR ''.'' # ?fr @ t)"
    using frac_first [OF nat_str_not_Nil d(1), of 0 0 "CHR ''.'' # ?fr @ t"]
      frac_digits [OF d(1), of 0 0 0 "CHR ''.'' # ?fr @ t"] ivp by simp
  also have "\<dots> = frac_loop 0 (int (v div 10 ^ k)) 1 (?fr @ t)" by (rule frac_dot) simp
  also have "\<dots> = Some (0, int v, 10 ^ k)"
    using frac_digits [OF d(2), of "int (v div 10 ^ k)" 1 0 t] dv l assms(1,3) pk frac_stop by simp
  finally show ?thesis using False by (simp add: scan_frac_def dec_text_def)
qed

definition type_text :: "cstr \<Rightarrow> cstr" where "type_text n = CHR ''$'' # n"
definition char_text :: "char \<Rightarrow> cstr" where "char_text c = [c]"
definition time_text :: "nat \<Rightarrow> nat \<Rightarrow> nat \<Rightarrow> nat \<Rightarrow> cstr" where
  "time_text h m s ms = two_text h @ two_text m @ two_text s @ CHR ''.'' # zpad 3 (nat_str ms)"
definition date_text :: "nat \<Rightarrow> nat \<Rightarrow> nat \<Rightarrow> cstr" where
  "date_text d m y = two_text d @ two_text m @ two_text y"

lemma strtol_two: "n < 100 \<Longrightarrow> strtol (two_text n) 10 = (int n, [])"
proof -
  assume n: "n < 100"
  then have d: "n div 10 < 10" "n mod 10 < 10" by auto
  have "dec_val 0 (two_text n) = 10 * (n div 10) + n mod 10" using d by (simp add: two_text_def)
  then have "dec_val 0 (two_text n) = n" by (simp only: mult_div_mod_eq)
  then show ?thesis using n d by (subst strtol_dec) (auto simp: two_text_def)
qed

lemma two_text_nth: "n < 100 \<Longrightarrow> two_text n = [a, b] \<Longrightarrow> fst (strtol [a, b] 10) = int n \<and> isdigit a \<and> isdigit b"
  using strtol_two [of n] by (auto simp: two_text_def)

text \<open>Six digits in pairs, followed by anything.\<close>

lemma pairs:
  assumes "a < 100" "b < 100" "c < 100" "s = two_text a @ two_text b @ two_text c @ t"
  shows "six_digits s" "two_digits s 0 = int a" "two_digits s 2 = int b" "two_digits s 4 = int c"
    "drop 6 s = t" "minmea_isfield (at_ptr s)" "char_at s 6 = at_ptr t" "drop 7 s = tl t"
proof -
  obtain a1 a2 b1 b2 c1 c2 where t: "two_text a = [a1, a2]" "two_text b = [b1, b2]" "two_text c = [c1, c2]"
    by (simp add: two_text_def)
  have s: "s = [a1, a2, b1, b2, c1, c2] @ t" using assms(4) t by simp
  note n = two_text_nth [OF assms(1) t(1)] two_text_nth [OF assms(2) t(2)] two_text_nth [OF assms(3) t(3)]
  show "six_digits s" using n by (simp add: s six_digits_def char_at_def upt_conv_Cons nth_Cons')
  show "two_digits s 0 = int a" "two_digits s 2 = int b" "two_digits s 4 = int c"
    using n by (simp_all add: s two_digits_def char_at_def nth_Cons')
  show "drop 6 s = t" "minmea_isfield (at_ptr s)" using n isfield_digit by (simp_all add: s)
  show "char_at s 6 = at_ptr t" "drop 7 s = tl t" by (cases t; simp add: s char_at_def nth_append drop_Cons')+
qed

lemma micro_digits:
  "\<forall>c \<in> set ds. isdigit c \<Longrightarrow> length ds \<le> j \<Longrightarrow> sep_ok t \<Longrightarrow>
   micro_loop v (10 ^ j) (ds @ t) = (dec_val v ds, 10 ^ (j - length ds))"
proof (induction ds arbitrary: v j)
  case Nil
  have "\<not> isdigit (at_ptr t)" using Nil isfield_digit by (auto simp: sep_ok_def)
  then show ?case by (cases t) auto
next
  case (Cons c ds)
  then obtain i where j: "j = Suc i" by (cases j) auto
  have "1 \<le> (10 :: nat) ^ i" by simp
  then have "1 < 10 * (10 :: nat) ^ i" by linarith
  then show ?case using Cons j by (simp add: mult.commute)
qed

lemma scan_time_text:
  assumes "h < 100" "m < 100" "s < 100" "ms < 1000" "sep_ok t"
  shows "scan_time (Some (time_text h m s ms @ t)) =
    Some \<lparr>hours = int h, minutes = int m, seconds = int s, microseconds = int (ms * 1000)\<rparr>"
proof -
  let ?z = "zpad 3 (nat_str ms)"
  have l: "length ?z = 3" by (intro length_zpad length_nat_str) (use assms in simp_all)
  have d: "\<forall>c \<in> set ?z. isdigit c" using nat_str_digits zpad_digits by blast
  have u: "micro_loop 0 1000000 (?z @ t) = (ms, 1000)"
    using micro_digits [OF d, of 6 t 0] l assms(5) by simp
  have e: "time_text h m s ms @ t = two_text h @ two_text m @ two_text s @ CHR ''.'' # ?z @ t"
    by (simp add: time_text_def)
  define x where "x = time_text h m s ms @ t"
  note p = pairs [OF assms(1-3) e [folded x_def]]
  show ?thesis unfolding x_def [symmetric] by (simp add: scan_time_def p u)
qed

lemma scan_date_text:
  assumes "d < 100" "m < 100" "y < 100"
  shows "scan_date (Some (date_text d m y @ t)) = Some \<lparr>day = int d, month = int m, year = int y\<rparr>"
  using pairs [OF assms refl, of t] by (simp add: scan_date_def date_text_def)

lemma scan_type_text:
  assumes "length n = 5" "\<forall>c \<in> set n. minmea_isfield c"
  shows "scan_type (Some (type_text n @ t)) = Some n"
proof -
  have "minmea_isfield (char_at (type_text n @ t) (1 + f))" if "f < 5" for f
    using that assms by (simp add: char_at_def type_text_def nth_append)
  then show ?thesis using assms(1)
    by (simp add: scan_type_def type_text_def list_all_iff) (simp add: char_at_def)
qed

lemma next_field_comma:
  "list_all minmea_isfield w \<Longrightarrow> next_field (w @ CHR '','' # r) = (r, Some r)"
  by (induction w) (auto simp: next_field_def)

lemma scan_field:
  assumes "scan_one ty (Some (w @ CHR '','' # r)) = Some vs" "ty \<noteq> CHR '';''" "list_all minmea_isfield w"
  shows "scan_go (ty # fmt) opt (w @ CHR '','' # r) (Some (w @ CHR '','' # r)) =
    (let (ok, rest) = scan_go fmt opt r (Some r) in (ok, vs @ rest))"
  using assms by (simp add: next_field_comma)

lemma scan_last:
  assumes "scan_one ty (Some (w @ t)) = Some vs" "ty \<noteq> CHR '';''"
  shows "scan_go [ty] opt (w @ t) (Some (w @ t)) = (True, vs)"
  using assms by (simp split: prod.splits)

text \<open>A decimal number in front of a separator.\<close>

lemma strtol_loop_fits:
  "\<forall>c \<in> set ds. isdigit c \<Longrightarrow> dec_val ret ds \<le> L \<Longrightarrow> sep_ok t \<Longrightarrow> flag = 1 \<or> flag = 0 \<and> ds \<noteq> [] \<Longrightarrow>
   strtol_loop 10 (L div 10) (L mod 10) ret flag (ds @ t) = (dec_val ret ds, 1, t)"
proof (induction ds arbitrary: ret flag)
  case Nil
  show ?case
  proof (cases t)
    case (Cons c cs)
    then have "\<not> isdigit c" "\<not> isalpha c" using Nil isfield_digit
      by (auto simp: sep_ok_def minmea_isfield_def ctype_simps)
    then show ?thesis using Cons Nil by (simp add: strtol_digit_None)
  qed (use Nil in simp)
next
  case (Cons c cs)
  have d: "digit_val c < 10" "strtol_digit c = Some (digit_val c)"
    using Cons.prems by (simp_all add: digit_val_less strtol_digit_isdigit)
  have "10 * ret + digit_val c \<le> dec_val (10 * ret + digit_val c) cs"
    using dec_val_acc [of "10 * ret + digit_val c" cs] by (simp add: trans_le_add1)
  then have "10 * ret + digit_val c \<le> L" using Cons.prems by simp
  moreover have "L = 10 * (L div 10) + L mod 10" by simp
  ultimately have c: "\<not> (L div 10 < ret \<or> ret = L div 10 \<and> L mod 10 < digit_val c)" using d(1) by linarith
  have "strtol_loop 10 (L div 10) (L mod 10) (10 * ret + digit_val c) 1 (cs @ t) = (dec_val (10 * ret + digit_val c) cs, 1, t)"
    by (rule Cons.IH) (use Cons.prems in simp_all)
  then show ?case using c d Cons.prems by (auto simp: not_le mult.commute [of ret])
qed

lemma strtol_nat_str_sep:
  assumes "n \<le> 2147483647" "sep_ok t"
  shows "strtol (nat_str n @ t) 10 = (int n, t)"
proof -
  obtain c cs where s: "nat_str n = c # cs" using nat_str_not_Nil by (cases "nat_str n") auto
  then have c: "isdigit c" using nat_str_digits [of c n] by simp
  have sg: "strtol_sign (dropWhile isspace (nat_str n @ t)) = (False, nat_str n @ t)"
    using strtol_sign_digit [OF c, of "cs @ t"] s by simp
  define L :: nat where "L = 2147483647"
  have lp: "strtol_loop 10 (L div 10) (L mod 10) 0 0 (nat_str n @ t) = (n, 1, t)"
    using strtol_loop_fits [of "nat_str n" 0 L t 0] assms nat_str_digits by (simp add: L_def)
  have pf: "strtol_prefix 10 (nat_str n @ t) = (10, nat_str n @ t)" by (simp add: strtol_prefix_def)
  show ?thesis using lp unfolding strtol_def sg prod.case pf Let_def if_False L_def [symmetric] by simp
qed

section \<open>Whole sentences\<close>

text \<open>
  \<open>fields_text ws t\<close> is the text of the fields \<open>ws\<close>, separated by commas and followed by
  \<open>t\<close>; \<open>reads ty w vs\<close> says that the conversion \<open>ty\<close> takes the field \<open>w\<close> for the values
  \<open>vs\<close>, whatever separator follows.
\<close>

fun fields_text :: "cstr list \<Rightarrow> cstr \<Rightarrow> cstr" where
  "fields_text [] t = t"
| "fields_text [w] t = w @ t"
| "fields_text (w # ws) t = w @ CHR '','' # fields_text ws t"

definition reads :: "char \<Rightarrow> cstr \<Rightarrow> scan_val list \<Rightarrow> bool" where
  "reads ty w vs \<longleftrightarrow> ty \<noteq> CHR '';'' \<and> list_all minmea_isfield w \<and>
     (\<forall>t. sep_ok t \<longrightarrow> scan_one ty (Some (w @ t)) = Some vs)"

fun reads_all :: "char list \<Rightarrow> cstr list \<Rightarrow> scan_val list list \<Rightarrow> bool" where
  "reads_all (ty # fmt) (w # ws) (vs # vss) \<longleftrightarrow>
     reads ty w vs \<and> (fmt = [] \<and> ws = [] \<and> vss = [] \<or> reads_all fmt ws vss)"
| "reads_all _ _ _ \<longleftrightarrow> False"

lemma reads_all_one: "reads ty w vs \<Longrightarrow> reads_all [ty] [w] [vs]"
  by simp

lemma reads_all_more: "reads ty w vs \<Longrightarrow> reads_all fmt ws vss \<Longrightarrow> reads_all (ty # fmt) (w # ws) (vs # vss)"
  by simp

lemmas reads_all_intros = reads_all_one reads_all_more

lemma scan_fields:
  "reads_all fmt ws vss \<Longrightarrow> sep_ok t \<Longrightarrow>
   scan_go fmt opt (fields_text ws t) (Some (fields_text ws t)) = (True, concat vss)"
proof (induction fmt ws vss rule: reads_all.induct)
  case (1 ty fmt w ws vs vss)
  have r: "ty \<noteq> CHR '';''" "list_all minmea_isfield w" "sep_ok s \<Longrightarrow> scan_one ty (Some (w @ s)) = Some vs" for s
    using 1(2) by (simp_all add: reads_def)
  show ?case
  proof (cases ws)
    case Nil
    then have "fmt = []" "vss = []" using 1(2) by (cases fmt; simp)+
    then show ?thesis using Nil scan_last [OF r(3) r(1)] 1(3) by simp
  next
    case (Cons w' ws')
    then have "reads_all fmt ws vss" using 1(2) by simp
    then have "scan_go fmt opt (fields_text ws t) (Some (fields_text ws t)) = (True, concat vss)"
      using 1(1,3) by blast
    then show ?thesis using scan_field [OF r(3) r(1,2)] Cons by (simp del: scan_go.simps)
  qed
qed simp_all


lemma isfield_list_all: "\<forall>c \<in> set w. isdigit c \<Longrightarrow> list_all minmea_isfield w"
  by (auto simp: list_all_iff isfield_digit)

lemma reads_type: "length n = 5 \<Longrightarrow> list_all minmea_isfield n \<Longrightarrow> reads (CHR ''t'') (type_text n) [SvType n]"
  using scan_type_text by (auto simp: reads_def scan_one_def type_text_def list_all_iff minmea_isfield_def isprint_def)

lemma reads_time:
  assumes "h < 100" "m < 100" "s < 100" "ms < 1000"
  shows "reads (CHR ''T'') (time_text h m s ms)
    [SvTime \<lparr>hours = int h, minutes = int m, seconds = int s, microseconds = int (ms * 1000)\<rparr>]"
proof -
  have "list_all minmea_isfield (zpad 3 (nat_str ms))"
    by (rule isfield_list_all) (use nat_str_digits zpad_digits in blast)
  moreover have "list_all minmea_isfield (two_text n)" if "n < 100" for n
    using that by (intro isfield_list_all) (auto simp: two_text_def)
  ultimately have "list_all minmea_isfield (time_text h m s ms)" using assms by (simp add: time_text_def)
  then show ?thesis using scan_time_text [OF assms] by (simp add: reads_def scan_one_def)
qed

lemma reads_date:
  assumes "d < 100" "m < 100" "y < 100"
  shows "reads (CHR ''D'') (date_text d m y) [SvDate \<lparr>day = int d, month = int m, year = int y\<rparr>]"
proof -
  have "list_all minmea_isfield (two_text n)" if "n < 100" for n
    using that by (intro isfield_list_all) (auto simp: two_text_def)
  then have "list_all minmea_isfield (date_text d m y)" using assms by (simp add: date_text_def)
  then show ?thesis using scan_date_text [OF assms] by (simp add: reads_def scan_one_def)
qed

lemma reads_char: "minmea_isfield c \<Longrightarrow> reads (CHR ''c'') (char_text c) [SvChar c]"
  by (simp add: reads_def scan_one_def scan_char_def char_text_def)

definition dir_sign :: "char \<Rightarrow> int" where
  "dir_sign c = (if c = CHR ''S'' \<or> c = CHR ''W'' then - 1 else 1)"

lemma reads_dir: "c \<in> set ''NESW'' \<Longrightarrow> reads (CHR ''d'') (char_text c) [SvDir (dir_sign c)]"
  by (auto simp: reads_def scan_one_def scan_dir_def char_text_def dir_sign_def minmea_isfield_def isprint_def)

lemma reads_int: "n \<le> 2147483647 \<Longrightarrow> reads (CHR ''i'') (nat_str n) [SvInt (int n)]"
  using nat_str_digits isfield_list_all [of "nat_str n"]
  by (simp add: reads_def scan_one_def scan_int_def strtol_nat_str_sep) (simp add: sep_ok_def)

lemma reads_dec:
  assumes "int v \<le> INT_MAX" "k \<le> 9"
  shows "reads (CHR ''f'') (dec_text k v) [SvFloat \<lparr>fl_value = int v, fl_scale = 10 ^ k\<rparr>]"
proof -
  have "list_all minmea_isfield (nat_str n)" "list_all minmea_isfield (zpad k (nat_str n))" for n
    by (rule isfield_list_all, use nat_str_digits zpad_digits in blast)+
  then have "list_all minmea_isfield (dec_text k v)" by (simp add: dec_text_def)
  then show ?thesis using scan_frac_text [OF assms] by (simp add: reads_def scan_one_def)
qed

lemmas reads_intros = reads_type reads_time reads_date reads_char reads_dir reads_int reads_dec

definition rmc_text :: "minmea_time \<Rightarrow> char \<Rightarrow> nat \<Rightarrow> char \<Rightarrow> nat \<Rightarrow> char \<Rightarrow> nat \<Rightarrow> nat \<Rightarrow> minmea_date \<Rightarrow> nat \<Rightarrow> char \<Rightarrow> cstr \<Rightarrow> cstr" where
  "rmc_text t st lat ns lon ew spd crs d var vew cks =
     fields_text [type_text ''GPRMC'',
       time_text (nat (hours t)) (nat (minutes t)) (nat (seconds t)) (nat (microseconds t) div 1000),
       char_text st, dec_text 4 lat, char_text ns, dec_text 4 lon, char_text ew,
       dec_text 2 spd, dec_text 2 crs, date_text (nat (day d)) (nat (month d)) (nat (year d)),
       dec_text 1 var, char_text vew] (CHR ''*'' # cks)"

definition time_ok :: "minmea_time \<Rightarrow> bool" where
  "time_ok t \<longleftrightarrow> hours t \<in> {0..<24} \<and> minutes t \<in> {0..<60} \<and> seconds t \<in> {0..<61} \<and>
     microseconds t \<in> {0..<1000000} \<and> 1000 dvd microseconds t"

definition date_ok :: "minmea_date \<Rightarrow> bool" where
  "date_ok d \<longleftrightarrow> day d \<in> {1..31} \<and> month d \<in> {1..12} \<and> year d \<in> {0..<100}"

lemma reads_time_ok:
  assumes "time_ok t"
  shows "reads (CHR ''T'')
    (time_text (nat (hours t)) (nat (minutes t)) (nat (seconds t)) (nat (microseconds t) div 1000)) [SvTime t]"
proof -
  obtain k where k: "microseconds t = 1000 * k" using assms by (auto simp: time_ok_def)
  then have "nat (microseconds t) div 1000 = nat k" "0 \<le> k" "k < 1000"
    using assms by (auto simp: time_ok_def nat_mult_distrib)
  then show ?thesis
    using reads_time [of "nat (hours t)" "nat (minutes t)" "nat (seconds t)" "nat k"] assms k
    by (cases t) (simp add: time_ok_def mult.commute nat_less_iff)
qed

lemma reads_date_ok:
  "date_ok d \<Longrightarrow> reads (CHR ''D'') (date_text (nat (day d)) (nat (month d)) (nat (year d))) [SvDate d]"
  using reads_date [of "nat (day d)" "nat (month d)" "nat (year d)"]
  by (cases d) (simp add: date_ok_def nat_less_iff)

lemma in_i32_sign: "int v \<le> INT_MAX \<Longrightarrow> i32 (int v * dir_sign c) = int v * dir_sign c"
  by (rule i32_id) (simp add: in_i32_def dir_sign_def)

lemma parse_rmc_text:
  assumes "time_ok t" "date_ok d" "minmea_isfield st"
    "int lat \<le> INT_MAX" "int lon \<le> INT_MAX" "int spd \<le> INT_MAX" "int crs \<le> INT_MAX" "int var \<le> INT_MAX"
    "ns \<in> set ''NS''" "ew \<in> set ''EW''" "vew \<in> set ''EW''"
  shows "minmea_parse_rmc frame (rmc_text t st lat ns lon ew spd crs d var vew cks) =
    (True, \<lparr>rmc_time = t, rmc_valid = (st = CHR ''A''),
       rmc_latitude = \<lparr>fl_value = int lat * dir_sign ns, fl_scale = 10000\<rparr>,
       rmc_longitude = \<lparr>fl_value = int lon * dir_sign ew, fl_scale = 10000\<rparr>,
       rmc_speed = \<lparr>fl_value = int spd, fl_scale = 100\<rparr>, rmc_course = \<lparr>fl_value = int crs, fl_scale = 100\<rparr>,
       rmc_date = d, rmc_variation = \<lparr>fl_value = int var * dir_sign vew, fl_scale = 10\<rparr>\<rparr>)"
proof -
  let ?fl = "\<lambda>v k. [SvFloat \<lparr>fl_value = int v, fl_scale = 10 ^ k\<rparr>]"
  let ?vss = "[[SvType ''GPRMC''], [SvTime t], [SvChar st], ?fl lat 4, [SvDir (dir_sign ns)], ?fl lon 4,
    [SvDir (dir_sign ew)], ?fl spd 2, ?fl crs 2, [SvDate d], ?fl var 1, [SvDir (dir_sign vew)]]"
  have dirs: "ns \<in> set ''NESW''" "ew \<in> set ''NESW''" "vew \<in> set ''NESW''" using assms(9-11) by auto
  have ty: "reads (CHR ''t'') (type_text ''GPRMC'') [SvType ''GPRMC'']"
    by (rule reads_type) (simp_all add: minmea_isfield_def isprint_def)
  have sc: "minmea_scan (rmc_text t st lat ns lon ew spd crs d var vew cks) ''tTcfdfdffDfd'' = (True, concat ?vss)"
    unfolding minmea_scan_def rmc_text_def
    by (rule scan_fields, intro reads_all_intros ty reads_time_ok reads_date_ok reads_char reads_dir reads_dec dirs assms)
      simp_all
  note i32 = in_i32_sign [OF assms(4), of ns] in_i32_sign [OF assms(5), of ew] in_i32_sign [OF assms(8), of vew]
  show ?thesis unfolding minmea_parse_rmc_def sc Let_def prod.case
    by (cases frame) (simp add: arg_defs type_is_def strcmp_eq_def char_val_def dir_val_def scale_by_def i32)
qed

text \<open>C12. An RMC sentence as a receiver prints it is read back field by field: \<open>minmea_parse_rmc\<close>
  succeeds for any time, date, position, speed, course and variation that fit the fields,
  stores the printed numbers with their scales, and gives the coordinates and the variation
  the sign of their direction letter, whatever follows the asterisk.\<close>

theorem rmc_roundtrip:
  assumes "time_ok t" "date_ok d" "minmea_isfield st"
    "int lat \<le> INT_MAX" "int lon \<le> INT_MAX" "int spd \<le> INT_MAX" "int crs \<le> INT_MAX" "int var \<le> INT_MAX"
    "ns \<in> set ''NS''" "ew \<in> set ''EW''" "vew \<in> set ''EW''"
  shows "minmea_parse_rmc frame (rmc_text t st lat ns lon ew spd crs d var vew cks) =
    (True, \<lparr>rmc_time = t, rmc_valid = (st = CHR ''A''),
       rmc_latitude = \<lparr>fl_value = int lat * dir_sign ns, fl_scale = 10000\<rparr>,
       rmc_longitude = \<lparr>fl_value = int lon * dir_sign ew, fl_scale = 10000\<rparr>,
       rmc_speed = \<lparr>fl_value = int spd, fl_scale = 100\<rparr>, rmc_course = \<lparr>fl_value = int crs, fl_scale = 100\<rparr>,
       rmc_date = d, rmc_variation = \<lparr>fl_value = int var * dir_sign vew, fl_scale = 10\<rparr>\<rparr>)"
  using assms by (rule parse_rmc_text)

lemma rmc_roundtrip_witness:
  "\<forall>frame0. minmea_parse_rmc frame0 (rmc_text \<lparr>hours = 12, minutes = 35, seconds = 19, microseconds = 250000\<rparr> (CHR ''A'')
      4807038 (CHR ''N'') 1131000 (CHR ''W'') 2240 8440 \<lparr>day = 23, month = 3, year = 94\<rparr> 31 (CHR ''W'') ''6A'') =
    (True, \<lparr>rmc_time = \<lparr>hours = 12, minutes = 35, seconds = 19, microseconds = 250000\<rparr>, rmc_valid = True,
       rmc_latitude = \<lparr>fl_value = 4807038, fl_scale = 10000\<rparr>,
       rmc_longitude = \<lparr>fl_value = - 1131000, fl_scale = 10000\<rparr>,
       rmc_speed = \<lparr>fl_value = 2240, fl_scale = 100\<rparr>, rmc_course = \<lparr>fl_value = 8440, fl_scale = 100\<rparr>,
       rmc_date = \<lparr>day = 23, month = 3, year = 94\<rparr>, rmc_variation = \<lparr>fl_value = - 31, fl_scale = 10\<rparr>\<rparr>)"
  by (rule allI, subst rmc_roundtrip) (simp_all add: time_ok_def date_ok_def minmea_isfield_def isprint_def dir_sign_def)

definition gga_text :: "minmea_time \<Rightarrow> nat \<Rightarrow> char \<Rightarrow> nat \<Rightarrow> char \<Rightarrow> nat \<Rightarrow> nat \<Rightarrow> nat \<Rightarrow> nat \<Rightarrow> nat \<Rightarrow> nat \<Rightarrow> cstr \<Rightarrow> cstr" where
  "gga_text t lat ns lon ew q n hdop alt hgt age cks =
     fields_text [type_text ''GPGGA'',
       time_text (nat (hours t)) (nat (minutes t)) (nat (seconds t)) (nat (microseconds t) div 1000),
       dec_text 4 lat, char_text ns, dec_text 4 lon, char_text ew, nat_str q, nat_str n,
       dec_text 1 hdop, dec_text 1 alt, char_text (CHR ''M''), dec_text 1 hgt, char_text (CHR ''M''),
       dec_text 1 age, ''0000''] (CHR ''*'' # cks)"

text \<open>A GGA sentence as a receiver prints it is read back field by field: \<open>minmea_parse_gga\<close>
  succeeds for any time, position, fix quality, satellite count, dilution, altitude, geoid
  height and correction age that fit the fields, stores the numbers with their scales, and
  gives the coordinates the sign of their direction letter.\<close>

lemma gga_roundtrip:
  assumes "time_ok t" "int lat \<le> INT_MAX" "int lon \<le> INT_MAX" "q \<le> 2147483647" "n \<le> 2147483647"
    "int hdop \<le> INT_MAX" "int alt \<le> INT_MAX" "int hgt \<le> INT_MAX" "int age \<le> INT_MAX"
    "ns \<in> set ''NS''" "ew \<in> set ''EW''"
  shows "minmea_parse_gga frame (gga_text t lat ns lon ew q n hdop alt hgt age cks) =
    (True, \<lparr>gga_time = t, gga_latitude = \<lparr>fl_value = int lat * dir_sign ns, fl_scale = 10000\<rparr>,
       gga_longitude = \<lparr>fl_value = int lon * dir_sign ew, fl_scale = 10000\<rparr>,
       gga_fix_quality = int q, gga_satellites_tracked = int n,
       gga_hdop = \<lparr>fl_value = int hdop, fl_scale = 10\<rparr>,
       gga_altitude = \<lparr>fl_value = int alt, fl_scale = 10\<rparr>, gga_altitude_units = CHR ''M'',
       gga_height = \<lparr>fl_value = int hgt, fl_scale = 10\<rparr>, gga_height_units = CHR ''M'',
       gga_dgps_age = \<lparr>fl_value = int age, fl_scale = 10\<rparr>\<rparr>)"
proof -
  let ?fl = "\<lambda>v k. [SvFloat \<lparr>fl_value = int v, fl_scale = 10 ^ k\<rparr>]"
  let ?M = "[SvChar (CHR ''M'')]"
  let ?vss = "[[SvType ''GPGGA''], [SvTime t], ?fl lat 4, [SvDir (dir_sign ns)], ?fl lon 4,
    [SvDir (dir_sign ew)], [SvInt (int q)], [SvInt (int n)], ?fl hdop 1, ?fl alt 1, ?M, ?fl hgt 1, ?M, ?fl age 1, []]"
  have dirs: "ns \<in> set ''NESW''" "ew \<in> set ''NESW''" using assms(10,11) by auto
  have ty: "reads (CHR ''t'') (type_text ''GPGGA'') [SvType ''GPGGA'']"
    by (rule reads_type) (simp_all add: minmea_isfield_def isprint_def)
  have skip: "reads (CHR ''_'') ''0000'' []"
    by (simp add: reads_def scan_one_def minmea_isfield_def isprint_def)
  have m: "minmea_isfield (CHR ''M'')" by (simp add: minmea_isfield_def isprint_def)
  have sc: "minmea_scan (gga_text t lat ns lon ew q n hdop alt hgt age cks) ''tTfdfdiiffcfcf_'' = (True, concat ?vss)"
    unfolding minmea_scan_def gga_text_def
    by (rule scan_fields, intro reads_all_intros ty skip m reads_time_ok reads_char reads_dir reads_dec reads_int dirs assms)
      simp_all
  note i32 = in_i32_sign [OF assms(2), of ns] in_i32_sign [OF assms(3), of ew]
  show ?thesis unfolding minmea_parse_gga_def sc Let_def prod.case
    by (cases frame) (simp add: arg_defs type_is_def strcmp_eq_def char_val_def dir_val_def scale_by_def i32)
qed

lemma gga_roundtrip_example:
  "\<forall>frame0. minmea_parse_gga frame0 (gga_text \<lparr>hours = 1, minutes = 2, seconds = 3, microseconds = 0\<rparr>
      4807038 (CHR ''S'') 1131000 (CHR ''E'') 1 8 9 5454 469 0 ''47'') =
    (True, \<lparr>gga_time = \<lparr>hours = 1, minutes = 2, seconds = 3, microseconds = 0\<rparr>,
       gga_latitude = \<lparr>fl_value = - 4807038, fl_scale = 10000\<rparr>,
       gga_longitude = \<lparr>fl_value = 1131000, fl_scale = 10000\<rparr>,
       gga_fix_quality = 1, gga_satellites_tracked = 8,
       gga_hdop = \<lparr>fl_value = 9, fl_scale = 10\<rparr>,
       gga_altitude = \<lparr>fl_value = 5454, fl_scale = 10\<rparr>, gga_altitude_units = CHR ''M'',
       gga_height = \<lparr>fl_value = 469, fl_scale = 10\<rparr>, gga_height_units = CHR ''M'',
       gga_dgps_age = \<lparr>fl_value = 0, fl_scale = 10\<rparr>\<rparr>)"
  by (rule allI, subst gga_roundtrip) (simp_all add: time_ok_def dir_sign_def)

end
