(* ===== verification/Gps_Parse.thy ===== *)
theory Gps_Parse
  imports Minmea
begin

text \<open>
  Frames of NMEA sentences, \<open>libs/gps/src/gps_parse.c\<close>: \<open>ParseOneNmea\<close> dispatches a
  sentence to its parser and stores the result in \<open>g_gps_info\<close>, \<open>GPS_Parse\<close> cuts a buffer
  into sentences. The static variables of both functions are fields of the state.
  \<open>GPS_DEBUG_I\<close> is empty because \<open>GPS_DEBUG\<close> is 0.
\<close>

section \<open>State\<close>

definition GPS_PARSE_MAX_GSA_NUMBER :: nat where
  [simp]: "GPS_PARSE_MAX_GSA_NUMBER = 2"
definition GPS_PARSE_MAX_GSV_NUMBER :: nat where
  [simp]: "GPS_PARSE_MAX_GSV_NUMBER = 20"

record GPS_Info_t =
  gi_rmc :: minmea_sentence_rmc
  gi_gsa :: "minmea_sentence_gsa list"
  gi_gga :: minmea_sentence_gga
  gi_gll :: minmea_sentence_gll
  gi_gst :: minmea_sentence_gst
  gi_gsv :: "minmea_sentence_gsv list"
  gi_vtg :: minmea_sentence_vtg
  gi_zda :: minmea_sentence_zda

record parse_state =
  g_gps_info :: GPS_Info_t
  flag_old :: u8       \<comment> \<open>static of \<open>ParseOneNmea\<close>, as are the two counters\<close>
  gsv_count :: u8
  gsa_count :: u8
  parse_flag :: u8     \<comment> \<open>static \<open>flag\<close> of \<open>GPS_Parse\<close>\<close>

definition Gps_GetInfo :: "parse_state \<Rightarrow> GPS_Info_t" where
  "Gps_GetInfo st = g_gps_info st"

text \<open>Static storage before the first sentence: all zero except \<open>flag_old\<close>.\<close>

definition zero_float :: minmea_float where "zero_float = \<lparr>fl_value = 0, fl_scale = 0\<rparr>"
definition zero_time :: minmea_time where
  "zero_time = \<lparr>hours = 0, minutes = 0, seconds = 0, microseconds = 0\<rparr>"
definition zero_date :: minmea_date where "zero_date = \<lparr>day = 0, month = 0, year = 0\<rparr>"
definition zero_sat :: minmea_sat_info where
  "zero_sat = \<lparr>sat_nr = 0, sat_elevation = 0, sat_azimuth = 0, sat_snr = 0\<rparr>"

definition zero_info :: GPS_Info_t where
  "zero_info = \<lparr>
     gi_rmc = \<lparr>rmc_time = zero_time, rmc_valid = False, rmc_latitude = zero_float, rmc_longitude = zero_float,
       rmc_speed = zero_float, rmc_course = zero_float, rmc_date = zero_date, rmc_variation = zero_float\<rparr>,
     gi_gsa = replicate GPS_PARSE_MAX_GSA_NUMBER \<lparr>gsa_mode = NUL, gsa_fix_type = 0, gsa_sats = replicate 12 0,
       gsa_pdop = zero_float, gsa_hdop = zero_float, gsa_vdop = zero_float\<rparr>,
     gi_gga = \<lparr>gga_time = zero_time, gga_latitude = zero_float, gga_longitude = zero_float, gga_fix_quality = 0,
       gga_satellites_tracked = 0, gga_hdop = zero_float, gga_altitude = zero_float, gga_altitude_units = NUL,
       gga_height = zero_float, gga_height_units = NUL, gga_dgps_age = zero_float\<rparr>,
     gi_gll = \<lparr>gll_latitude = zero_float, gll_longitude = zero_float, gll_time = zero_time,
       gll_status = NUL, gll_mode = NUL\<rparr>,
     gi_gst = \<lparr>gst_time = zero_time, gst_rms_deviation = zero_float, gst_semi_major_deviation = zero_float,
       gst_semi_minor_deviation = zero_float, gst_semi_major_orientation = zero_float,
       gst_latitude_error_deviation = zero_float, gst_longitude_error_deviation = zero_float,
       gst_altitude_error_deviation = zero_float\<rparr>,
     gi_gsv = replicate GPS_PARSE_MAX_GSV_NUMBER \<lparr>gsv_total_msgs = 0, gsv_msg_nr = 0, gsv_total_sats = 0,
       gsv_sats = replicate 4 zero_sat\<rparr>,
     gi_vtg = \<lparr>vtg_true_track_degrees = zero_float, vtg_magnetic_track_degrees = zero_float,
       vtg_speed_knots = zero_float, vtg_speed_kph = zero_float, vtg_faa_mode = NUL\<rparr>,
     gi_zda = \<lparr>zda_time = zero_time, zda_date = zero_date, zda_hour_offset = 0, zda_minute_offset = 0\<rparr>\<rparr>"

definition parse_init :: parse_state where
  "parse_init = \<lparr>g_gps_info = zero_info, flag_old = 0xff, gsv_count = 0, gsa_count = 0, parse_flag = 0\<rparr>"

section \<open>One sentence\<close>

definition set_info :: "(GPS_Info_t \<Rightarrow> GPS_Info_t) \<Rightarrow> parse_state \<Rightarrow> parse_state" where
  "set_info f st = st\<lparr>g_gps_info := f (g_gps_info st)\<rparr>"

definition new_frame :: "u8 \<Rightarrow> parse_state \<Rightarrow> parse_state" where
  "new_frame flg st =
     (if flg \<noteq> flag_old st then st\<lparr>flag_old := flg, gsv_count := 0, gsa_count := 0\<rparr> else st)"

text \<open>The sentence parsers write through the pointer, so what they stored before they
  failed stays.\<close>

definition ParseOneNmea :: "cstr \<Rightarrow> u8 \<Rightarrow> parse_state \<Rightarrow> bool \<times> parse_state" where
  "ParseOneNmea line flg st0 =
     (let st = new_frame flg st0; info = g_gps_info st in
      case minmea_sentence_id line False of
        MINMEA_SENTENCE_RMC \<Rightarrow> (True, set_info (gi_rmc_update (\<lambda>f. snd (minmea_parse_rmc f line))) st)
      | MINMEA_SENTENCE_GGA \<Rightarrow> (True, set_info (gi_gga_update (\<lambda>f. snd (minmea_parse_gga f line))) st)
      | MINMEA_SENTENCE_GST \<Rightarrow> (True, set_info (gi_gst_update (\<lambda>f. snd (minmea_parse_gst f line))) st)
      | MINMEA_SENTENCE_GSV \<Rightarrow>
          (True, if unat (gsv_count st) < GPS_PARSE_MAX_GSV_NUMBER then
             let k = unat (gsv_count st) in
             (set_info (gi_gsv_update (\<lambda>l. l[k := snd (minmea_parse_gsv (l ! k) line)])) st)
               \<lparr>gsv_count := gsv_count st + 1\<rparr>
           else st)
      | MINMEA_SENTENCE_VTG \<Rightarrow> (True, set_info (gi_vtg_update (\<lambda>f. snd (minmea_parse_vtg f line))) st)
      | MINMEA_SENTENCE_ZDA \<Rightarrow> (True, set_info (gi_zda_update (\<lambda>f. snd (minmea_parse_zda f line))) st)
      | MINMEA_SENTENCE_GSA \<Rightarrow>
          (True, if unat (gsa_count st) < GPS_PARSE_MAX_GSA_NUMBER then
             let k = unat (gsa_count st) in
             (set_info (gi_gsa_update (\<lambda>l. l[k := snd (minmea_parse_gsa (l ! k) line)])) st)
               \<lparr>gsa_count := gsa_count st + 1\<rparr>
           else st)
      | MINMEA_SENTENCE_GLL \<Rightarrow> (True, set_info (gi_gll_update (\<lambda>f. snd (minmea_parse_gll f line))) st)
      | _ \<Rightarrow> (False, st))"

section \<open>A buffer of sentences\<close>

text \<open>
  The loop of \<open>GPS_Parse\<close>. A pointer into the buffer is the text from there on; the
  temporary terminator at \<open>index2[2]\<close> makes the sentence the text up to and including its
  CRLF and is taken back. The pointer advances by the length of the sentence from where it
  was, not from the \<open>$\<close> that was found.
\<close>

function parse_frames :: "bool \<Rightarrow> cstr \<Rightarrow> parse_state \<Rightarrow> bool \<times> parse_state" where
  "parse_frames retFlag nmeas st =
     (case strstr nmeas ''$'' of
        None \<Rightarrow> (retFlag, st)
      | Some (_, index1) \<Rightarrow>
          (case strstr index1 CRLF of
             None \<Rightarrow> (retFlag, st)
           | Some (body, index2) \<Rightarrow>
               let n = length body + 2;
                   (r, st') = ParseOneNmea (take n index1) (parse_flag st) st
               in parse_frames r (drop n nmeas) st'))"
  by pat_completeness auto
termination
  by (relation "measure (\<lambda>(_, s, _). length s)")
    (auto dest!: strstr_append simp: is_prefix_append)

definition GPS_Parse :: "cstr \<Rightarrow> parse_state \<Rightarrow> bool \<times> parse_state" where
  "GPS_Parse nmeas st =
     (let (r, st') = parse_frames False nmeas st in (r, st'\<lparr>parse_flag := parse_flag st' + 1\<rparr>))"

declare parse_frames.simps [simp del]

section \<open>Bounds\<close>

text \<open>The satellite arrays have their declared lengths and the counters stay within them.\<close>

definition parse_wf :: "parse_state \<Rightarrow> bool" where
  "parse_wf st \<longleftrightarrow> length (gi_gsv (g_gps_info st)) = GPS_PARSE_MAX_GSV_NUMBER \<and>
     length (gi_gsa (g_gps_info st)) = GPS_PARSE_MAX_GSA_NUMBER \<and>
     unat (gsv_count st) \<le> GPS_PARSE_MAX_GSV_NUMBER \<and> unat (gsa_count st) \<le> GPS_PARSE_MAX_GSA_NUMBER"

lemma new_frame_wf: "parse_wf st \<Longrightarrow> parse_wf (new_frame f st)"
  by (simp add: parse_wf_def new_frame_def)

lemma parse_flag_new_frame [simp]: "parse_flag (new_frame f st) = parse_flag st"
  by (simp add: new_frame_def)

lemma ParseOneNmea_wf: "parse_wf st \<Longrightarrow> parse_wf (snd (ParseOneNmea line f st))"
  using new_frame_wf [of st f]
  by (auto simp: ParseOneNmea_def parse_wf_def set_info_def Let_def unat_inc_u8 split: minmea_sentence_id.split)

lemma ParseOneNmea_flag [simp]: "parse_flag (snd (ParseOneNmea line f st)) = parse_flag st"
  by (simp add: ParseOneNmea_def set_info_def Let_def split: minmea_sentence_id.split)

text \<open>What one sentence keeps, a buffer of sentences keeps.\<close>

lemma parse_frames_keeps:
  assumes "\<And>line f st. P st \<Longrightarrow> P (snd (ParseOneNmea line f st))"
  shows "P st \<Longrightarrow> P (snd (parse_frames r s st))"
proof (induction r s st rule: parse_frames.induct)
  case (1 r s st)
  show ?case
  proof (cases "strstr s ''$''")
    case None
    then show ?thesis using 1(2) by (simp add: parse_frames.simps [of r s])
  next
    case (Some p)
    note p = Some
    obtain a i1 where i1: "p = (a, i1)" by (cases p)
    show ?thesis
    proof (cases "strstr i1 CRLF")
      case None
      then show ?thesis using 1(2) p i1 by (simp add: parse_frames.simps [of r s])
    next
      case (Some q)
      obtain body i2 where q: "q = (body, i2)" by (cases q)
      obtain b st' where o: "ParseOneNmea (take (length body + 2) i1) (parse_flag st) st = (b, st')"
        by fastforce
      then have "P st'" using assms [OF 1(2)] by (metis snd_conv)
      then have "P (snd (parse_frames b (drop (length body + 2) s) st'))"
        using 1(1) [OF p i1 [symmetric] Some q [symmetric] refl o [symmetric]] by blast
      then show ?thesis using p i1 Some q o by (subst parse_frames.simps) (simp add: Let_def)
    qed
  qed
qed

lemma parse_frames_wf: "parse_wf st \<Longrightarrow> parse_wf (snd (parse_frames r s st))"
  by (rule parse_frames_keeps [where P = parse_wf]) (rule ParseOneNmea_wf)

section \<open>A frame of sentences\<close>

text \<open>A sentence starts with a dollar sign and ends with its first CRLF.\<close>

definition sentence_ok :: "cstr \<Rightarrow> bool" where
  "sentence_ok l \<longleftrightarrow> (\<exists>body. l = CHR ''$'' # body @ CRLF \<and> CR \<notin> set body)"

text \<open>The sentences one after the other.\<close>

fun parse_lines :: "u8 \<Rightarrow> cstr list \<Rightarrow> bool \<times> parse_state \<Rightarrow> bool \<times> parse_state" where
  "parse_lines f [] a = a"
| "parse_lines f (l # ls) (r, st) = parse_lines f ls (ParseOneNmea l f st)"

lemma strstr_crlf: "CR \<notin> set body \<Longrightarrow> strstr (body @ CRLF @ t) CRLF = Some (body, CRLF @ t)"
  by (induction body) auto

lemma parse_frames_lines:
  assumes "\<forall>l \<in> set ls. sentence_ok l" "\<forall>p q. strstr t ''$'' = Some (p, q) \<longrightarrow> strstr q CRLF = None"
  shows "parse_frames r (concat ls @ t) st = parse_lines (parse_flag st) ls (r, st)"
  using assms(1)
proof (induction ls arbitrary: r st)
  case Nil
  show ?case using assms(2)
    by (subst parse_frames.simps) (auto split: option.splits)
next
  case (Cons l ls)
  obtain body where l: "l = CHR ''$'' # body @ CRLF" "CR \<notin> set body"
    using Cons.prems by (auto simp: sentence_ok_def)
  let ?s = "concat (l # ls) @ t"
  have s: "?s = l @ concat ls @ t" by simp
  have "strstr (CHR ''$'' # body @ CRLF @ concat ls @ t) CRLF = Some (CHR ''$'' # body, CRLF @ concat ls @ t)"
    using strstr_crlf [of "CHR ''$'' # body" "concat ls @ t"] l(2) by simp
  moreover have "strstr ?s ''$'' = Some ([], ?s)" by (simp add: l)
  moreover have n: "length body + 3 = length l" by (simp add: l)
  have "take (length body + 3) ?s = l" "drop (length body + 3) ?s = concat ls @ t"
    unfolding n s by simp_all
  ultimately have "parse_frames r ?s st =
      (let (r', st') = ParseOneNmea l (parse_flag st) st in parse_frames r' (concat ls @ t) st')"
    by (subst parse_frames.simps) (simp add: l Let_def numeral_3_eq_3)
  also have "\<dots> = parse_lines (parse_flag st) (l # ls) (r, st)"
    using Cons.IH Cons.prems ParseOneNmea_flag [of l "parse_flag st" st]
    by (cases "ParseOneNmea l (parse_flag st) st") simp
  finally show ?case .
qed

text \<open>The sentences of a kind, and what a sequence of them leaves in a slot.\<close>

definition of_kind :: "minmea_sentence_id \<Rightarrow> cstr list \<Rightarrow> cstr list" where
  "of_kind i ls = filter (\<lambda>l. minmea_sentence_id l False = i) ls"

definition stored :: "('f \<Rightarrow> cstr \<Rightarrow> bool \<times> 'f) \<Rightarrow> 'f \<Rightarrow> cstr list \<Rightarrow> 'f" where
  "stored parse f ls = foldl (\<lambda>f l. snd (parse f l)) f ls"

lemma of_kind_simps [simp]:
  "of_kind i [] = []"
  "of_kind i (ls @ [l]) = of_kind i ls @ (if minmea_sentence_id l False = i then [l] else [])"
  by (simp_all add: of_kind_def)

lemma stored_simps [simp]:
  "stored parse f [] = f" "stored parse f (ls @ [l]) = snd (parse (stored parse f ls) l)"
  by (simp_all add: stored_def)

lemma parse_lines_snoc:
  "parse_lines f (ls @ [l]) a = ParseOneNmea l f (snd (parse_lines f ls a))"
proof (induction f ls a rule: parse_lines.induct)
  case (1 f a)
  then show ?case by (cases a) simp
qed simp

text \<open>The first satellite slots hold the sentences of the frame, the others keep what they had.\<close>

definition slots :: "('f \<Rightarrow> cstr \<Rightarrow> bool \<times> 'f) \<Rightarrow> 'f list \<Rightarrow> cstr list \<Rightarrow> 'f list" where
  "slots parse old ls = map (\<lambda>k. if k < length ls then snd (parse (old ! k) (ls ! k)) else old ! k) [0..<length old]"

lemma length_slots [simp]: "length (slots parse old ls) = length old"
  by (simp add: slots_def)

lemma slots_Nil [simp]: "slots parse old [] = old"
  by (simp add: slots_def map_nth)

lemma slots_snoc:
  "length ls < length old \<Longrightarrow> (slots parse old ls)[length ls := snd (parse (slots parse old ls ! length ls) l)] =
     slots parse old (ls @ [l])"
  by (rule nth_equalityI) (auto simp: slots_def nth_list_update nth_append)

lemma slots_full: "length old \<le> length ls \<Longrightarrow> slots parse old (ls @ [l]) = slots parse old ls"
  by (rule nth_equalityI) (auto simp: slots_def nth_append)

definition frame_info :: "GPS_Info_t \<Rightarrow> cstr list \<Rightarrow> GPS_Info_t" where
  "frame_info i ls = \<lparr>
     gi_rmc = stored minmea_parse_rmc (gi_rmc i) (of_kind MINMEA_SENTENCE_RMC ls),
     gi_gsa = slots minmea_parse_gsa (gi_gsa i) (of_kind MINMEA_SENTENCE_GSA ls),
     gi_gga = stored minmea_parse_gga (gi_gga i) (of_kind MINMEA_SENTENCE_GGA ls),
     gi_gll = stored minmea_parse_gll (gi_gll i) (of_kind MINMEA_SENTENCE_GLL ls),
     gi_gst = stored minmea_parse_gst (gi_gst i) (of_kind MINMEA_SENTENCE_GST ls),
     gi_gsv = slots minmea_parse_gsv (gi_gsv i) (of_kind MINMEA_SENTENCE_GSV ls),
     gi_vtg = stored minmea_parse_vtg (gi_vtg i) (of_kind MINMEA_SENTENCE_VTG ls),
     gi_zda = stored minmea_parse_zda (gi_zda i) (of_kind MINMEA_SENTENCE_ZDA ls)\<rparr>"

definition slot_count :: "nat \<Rightarrow> nat \<Rightarrow> u8" where
  "slot_count k n = of_nat (min k n)"

definition frame_state :: "u8 \<Rightarrow> parse_state \<Rightarrow> cstr list \<Rightarrow> parse_state" where
  "frame_state f st ls = st\<lparr>g_gps_info := frame_info (g_gps_info st) ls, flag_old := f,
     gsv_count := slot_count GPS_PARSE_MAX_GSV_NUMBER (length (of_kind MINMEA_SENTENCE_GSV ls)),
     gsa_count := slot_count GPS_PARSE_MAX_GSA_NUMBER (length (of_kind MINMEA_SENTENCE_GSA ls))\<rparr>"

lemma frame_state_Nil: "f \<noteq> flag_old st \<Longrightarrow> frame_state f st [] = new_frame f st"
  by (simp add: frame_state_def new_frame_def frame_info_def slot_count_def)

lemma new_frame_frame_state [simp]: "new_frame f (frame_state f st ls) = frame_state f st ls"
  by (simp add: new_frame_def frame_state_def)

lemma new_frame_idem [simp]: "new_frame f (new_frame f st) = new_frame f st"
  by (simp add: new_frame_def)

lemma ParseOneNmea_new_frame: "ParseOneNmea l f (new_frame f st) = ParseOneNmea l f st"
  by (simp add: ParseOneNmea_def)

lemma unat_slot_count: "k \<le> 255 \<Longrightarrow> unat (slot_count k n) = min k n"
  by (simp add: slot_count_def unsigned_of_nat take_bit_nat_eq_self)

lemma slot_count_step:
  "n < k \<Longrightarrow> slot_count k n + 1 = slot_count k (Suc n)"
  "\<not> n < k \<Longrightarrow> slot_count k (Suc n) = slot_count k n"
proof -
  assume "n < k"
  then have "min k n = n" "min k (Suc n) = Suc n" by simp_all
  then show "slot_count k n + 1 = slot_count k (Suc n)" by (simp add: slot_count_def)
next
  assume "\<not> n < k"
  then show "slot_count k (Suc n) = slot_count k n" by (simp add: slot_count_def)
qed

lemma min_if: "n < k \<Longrightarrow> min k n = n" "\<not> n < k \<Longrightarrow> min k n = k" for n k :: nat
  by simp_all

lemma ParseOneNmea_frame_state:
  assumes "parse_wf st"
  shows "ParseOneNmea l f (frame_state f st ls) =
    (minmea_sentence_id l False \<notin> {MINMEA_INVALID, MINMEA_UNKNOWN}, frame_state f st (ls @ [l]))"
proof -
  let ?gsv = "gi_gsv (g_gps_info st)" and ?gsa = "gi_gsa (g_gps_info st)"
  have l: "length ?gsv = 20" "length ?gsa = 2" using assms by (simp_all add: parse_wf_def)
  note s = slots_snoc [of _ ?gsv minmea_parse_gsv l, unfolded l] slots_full [of ?gsv _ minmea_parse_gsv l, unfolded l]
    slots_snoc [of _ ?gsa minmea_parse_gsa l, unfolded l] slots_full [of ?gsa _ minmea_parse_gsa l, unfolded l]
  note d = ParseOneNmea_def frame_state_def set_info_def Let_def frame_info_def new_frame_def
  show ?thesis
  proof (cases "minmea_sentence_id l False")
    case MINMEA_SENTENCE_GSV
    then show ?thesis
      by (cases "length (of_kind MINMEA_SENTENCE_GSV ls) < 20")
        (simp_all add: d unat_slot_count slot_count_step min_if s)
  next
    case MINMEA_SENTENCE_GSA
    then show ?thesis
      by (cases "length (of_kind MINMEA_SENTENCE_GSA ls) < 2")
        (simp_all add: d unat_slot_count slot_count_step min_if s)
  qed (simp_all add: d)
qed

lemma parse_lines_frame:
  assumes "parse_wf st" "f \<noteq> flag_old st" "ls \<noteq> []"
  shows "parse_lines f ls (r, st) =
    (minmea_sentence_id (last ls) False \<notin> {MINMEA_INVALID, MINMEA_UNKNOWN}, frame_state f st ls)"
  using assms(3)
proof (induction ls rule: rev_nonempty_induct)
  case (single l)
  then show ?case
    using ParseOneNmea_frame_state [OF assms(1), of l f "[]"] frame_state_Nil [OF assms(2)]
    by (simp add: ParseOneNmea_new_frame)
next
  case (snoc l ls)
  then show ?case using ParseOneNmea_frame_state [OF assms(1)] by (simp add: parse_lines_snoc)
qed

text \<open>C14. One call of \<open>GPS_Parse\<close> on a buffer of complete sentences, possibly followed by an
  unfinished one, handles each sentence once and in order: every single-sentence record holds
  its last sentence of the buffer, the k-th GSV and GSA sentences are in the k-th array slots
  and never beyond the arrays, the other slots keep what they had, the result says whether the
  last sentence was of a known kind, and the next buffer starts a new frame.\<close>

theorem GPS_Parse_frame:
  assumes "parse_wf st" "parse_flag st \<noteq> flag_old st" "ls \<noteq> []" "\<forall>l \<in> set ls. sentence_ok l"
    "\<forall>p q. strstr t ''$'' = Some (p, q) \<longrightarrow> strstr q CRLF = None"
  shows "GPS_Parse (concat ls @ t) st =
    (minmea_sentence_id (last ls) False \<notin> {MINMEA_INVALID, MINMEA_UNKNOWN},
     st\<lparr>g_gps_info := frame_info (g_gps_info st) ls, flag_old := parse_flag st,
       gsv_count := slot_count 20 (length (of_kind MINMEA_SENTENCE_GSV ls)),
       gsa_count := slot_count 2 (length (of_kind MINMEA_SENTENCE_GSA ls)),
       parse_flag := parse_flag st + 1\<rparr>) \<and>
    parse_wf (snd (GPS_Parse (concat ls @ t) st)) \<and>
    parse_flag (snd (GPS_Parse (concat ls @ t) st)) \<noteq> flag_old (snd (GPS_Parse (concat ls @ t) st))"
proof -
  have e: "GPS_Parse (concat ls @ t) st =
    (minmea_sentence_id (last ls) False \<notin> {MINMEA_INVALID, MINMEA_UNKNOWN},
     (frame_state (parse_flag st) st ls)\<lparr>parse_flag := parse_flag st + 1\<rparr>)"
    unfolding GPS_Parse_def parse_frames_lines [OF assms(4,5)] parse_lines_frame [OF assms(1-3)]
    by (simp add: frame_state_def)
  have w: "parse_wf (snd (GPS_Parse (concat ls @ t) st))"
    using parse_frames_wf [OF assms(1), of False "concat ls @ t"]
    by (cases "parse_frames False (concat ls @ t) st") (simp add: GPS_Parse_def parse_wf_def)
  show ?thesis using w unfolding e by (simp add: frame_state_def)
qed

lemma parse_init_fresh: "parse_wf parse_init" "parse_flag parse_init \<noteq> flag_old parse_init"
  by (simp_all add: parse_wf_def parse_init_def zero_info_def)

lemma GPS_Parse_frame_witness:
  "fst (GPS_Parse (concat [''$GPGSV,4,4,13*7B'' @ CRLF, ''$GPGSV,4,2,13*7D'' @ CRLF] @ ''$GP'') parse_init)
     = (minmea_sentence_id (''$GPGSV,4,2,13*7D'' @ CRLF) False \<notin> {MINMEA_INVALID, MINMEA_UNKNOWN})"
proof -
  have s: "sentence_ok (''$GPGSV,4,4,13*7B'' @ CRLF)" "sentence_ok (''$GPGSV,4,2,13*7D'' @ CRLF)"
    by (auto simp: sentence_ok_def intro: exI [of _ "''GPGSV,4,4,13*7B''"] exI [of _ "''GPGSV,4,2,13*7D''"])
  show ?thesis
    by (subst GPS_Parse_frame [THEN conjunct1]) (use s parse_init_fresh in simp_all)
qed

section \<open>Text in front of the first sentence\<close>

text \<open>When other text stands in front of a sentence, \<open>GPS_Parse\<close> handles the sentence
  again for every whole length of it that fits into that text, because its pointer advances
  from the start of the text and not from the dollar sign: a buffer with \<open>k * length l\<close> or
  more characters of garbage in front of the sentence \<open>l\<close> parses \<open>l\<close> at least \<open>k + 1\<close> times.\<close>

lemma GPS_Parse_garbage:
  assumes "CHR ''$'' \<notin> set g" "l = CHR ''$'' # body @ CRLF" "CR \<notin> set body" "CHR ''$'' \<notin> set body"
  shows "parse_frames r (g @ l) st =
    parse_lines (parse_flag st) (replicate (length g div length l + 1) l) (r, st)"
  using assms(1)
proof (induction "length g" arbitrary: g r st rule: less_induct)
  case less
  have d: "strstr (u @ CHR ''$'' # v) ''$'' = Some (u, CHR ''$'' # v)" if "CHR ''$'' \<notin> set u" for u v
    using that by (induction u) auto
  have d0: "strstr u ''$'' = None" if "CHR ''$'' \<notin> set u" for u
    using that by (induction u) auto
  have c: "strstr l CRLF = Some (CHR ''$'' # body, CRLF)"
    using strstr_crlf [of "CHR ''$'' # body" "[]"] assms(2,3) by simp
  have n: "Suc (Suc (Suc (length body))) = length l" by (simp add: assms(2))
  obtain b st' where o: "ParseOneNmea l (parse_flag st) st = (b, st')" by fastforce
  then have f: "parse_flag st' = parse_flag st" using ParseOneNmea_flag by (metis snd_conv)
  have "strstr (g @ l) ''$'' = Some (g, l)" using d [OF less.prems, of "body @ CRLF"] assms(2) by simp
  then have step: "parse_frames r (g @ l) st = parse_frames b (drop (length l) (g @ l)) st'"
    using c o n by (subst parse_frames.simps) (simp add: Let_def)
  show ?case
  proof (cases "length l \<le> length g")
    case True
    have "length (drop (length l) g) < length g" using True n by simp
    then have "parse_frames b (drop (length l) g @ l) st' =
        parse_lines (parse_flag st') (replicate (length (drop (length l) g) div length l + 1) l) (b, st')"
      using less.prems by (intro less.hyps) (auto dest: in_set_dropD)
    moreover have "length g div length l = Suc ((length g - length l) div length l)"
      using True n by (subst div_if) auto
    ultimately show ?thesis using step True f o by simp
  next
    case False
    let ?m = "length l - length g"
    have "drop (length l) (g @ l) = drop ?m l" using False by simp
    moreover have "CHR ''$'' \<notin> set (drop ?m l)"
      using False assms(2,4) by (cases ?m) (auto dest: in_set_dropD)
    ultimately have "parse_frames b (drop (length l) (g @ l)) st' = (b, st')"
      using d0 by (subst parse_frames.simps) simp
    then show ?thesis using step False o by simp
  qed
qed

lemma GPS_Parse_garbage_example:
  "parse_frames False (replicate 40 (CHR '' '') @ ''$GPGSV,4,4,13*7B'' @ CRLF) parse_init =
     parse_lines 0 [''$GPGSV,4,4,13*7B'' @ CRLF, ''$GPGSV,4,4,13*7B'' @ CRLF, ''$GPGSV,4,4,13*7B'' @ CRLF]
       (False, parse_init)"
proof -
  define g where "g = replicate 40 (CHR '' '')"
  define b where "b = ''GPGSV,4,4,13*7B''"
  have "CHR ''$'' \<notin> set g" "CR \<notin> set b" "CHR ''$'' \<notin> set b" "length g = 40" "length b = 15"
    by (simp_all add: g_def b_def)
  then have "parse_frames False (g @ CHR ''$'' # b @ CRLF) parse_init =
      parse_lines (parse_flag parse_init) (replicate 3 (CHR ''$'' # b @ CRLF)) (False, parse_init)"
    using GPS_Parse_garbage [of g "CHR ''$'' # b @ CRLF" b False parse_init] by simp
  moreover have "parse_flag parse_init = 0" by (simp add: parse_init_def)
  moreover have "replicate 3 x = [x, x, x]" for x :: cstr by (simp add: numeral_3_eq_3)
  ultimately have "parse_frames False (g @ CHR ''$'' # b @ CRLF) parse_init =
      parse_lines 0 [CHR ''$'' # b @ CRLF, CHR ''$'' # b @ CRLF, CHR ''$'' # b @ CRLF] (False, parse_init)"
    by (simp only:)
  then show ?thesis unfolding g_def b_def by simp
qed

end
