(* ===== verification/Ring_Buffer.thy ===== *)
theory Ring_Buffer
  imports Utils
begin

text \<open>
  \<open>libs/utils/src/buffer.c\<close>: the byte queue between the UART interrupt and the GPS
  parser. One cell of the array is never used, so that \<open>front = rear\<close> means empty; the
  indices are 16 bits wide and the capacity 32, and every index computation is the
  32-bit one of the source. The queue is a refinement of a list.
\<close>

section \<open>The structure and its operations\<close>

record Buffer_t =
  front :: u16
  rear :: u16
  bufferData :: "char list"     \<comment> \<open>the array behind \<open>buffer\<close>\<close>
  maxSize :: u32

definition Buffer_Init :: "u32 \<Rightarrow> Buffer_t" where
  "Buffer_Init max_size =
     \<lparr>front = 0, rear = 0, bufferData = (replicate (unat max_size) NUL)[0 := CHR '' ''], maxSize = max_size\<rparr>"

definition Buffer_Size :: "Buffer_t \<Rightarrow> u32" where
  "Buffer_Size b = (ucast (rear b) - ucast (front b) + maxSize b) mod maxSize b"

definition Buffer_Size2 :: "Buffer_t \<Rightarrow> u32 \<Rightarrow> u32" where
  "Buffer_Size2 b index = (index - ucast (front b) + maxSize b) mod maxSize b"

definition Buffer_Clear :: "Buffer_t \<Rightarrow> Buffer_t" where
  "Buffer_Clear b = b\<lparr>front := 0, rear := 0\<rparr>"

text \<open>\<open>front + 1\<close> is an \<open>int\<close>, converted to \<open>uint32_t\<close> by the remainder.\<close>

definition Buffer_StartPostion :: "Buffer_t \<Rightarrow> u32" where
  "Buffer_StartPostion b = (ucast (front b) + 1) mod maxSize b"

fun put_loop :: "Buffer_t \<Rightarrow> char list \<Rightarrow> Buffer_t" where
  "put_loop b [] = b"
| "put_loop b (x # xs) =
     (let r = ucast ((ucast (rear b) + 1) mod maxSize b :: u32) :: u16
      in put_loop (b\<lparr>rear := r, bufferData := (bufferData b)[unat r := x]\<rparr>) xs)"

definition Buffer_Puts :: "Buffer_t \<Rightarrow> char list \<Rightarrow> u16 \<Rightarrow> bool \<times> Buffer_t" where
  "Buffer_Puts b data len =
     (if maxSize b - Buffer_Size b \<le> ucast len then (False, b)
      else (True, put_loop b (take (unat len) data)))"

fun get_loop :: "Buffer_t \<Rightarrow> nat \<Rightarrow> char list \<times> Buffer_t" where
  "get_loop b 0 = ([], b)"
| "get_loop b (Suc n) =
     (let f = ucast ((ucast (front b) + 1) mod maxSize b :: u32) :: u16;
          (ds, b') = get_loop (b\<lparr>front := f\<rparr>) n
      in (bufferData b ! unat f # ds, b'))"

definition Buffer_Gets :: "Buffer_t \<Rightarrow> u16 \<Rightarrow> bool \<times> char list \<times> Buffer_t" where
  "Buffer_Gets b len =
     (if Buffer_Size b < ucast len then (False, [], b)
      else (True, get_loop b (unat len)))"

text \<open>
  \<open>Buffer_Query\<close>: \<open>data\<close> is the pattern, \<open>indexData\<close> the number of its bytes matched so
  far and \<open>indexReturn\<close> where that partial match began. A mismatch starts again at the
  current byte.
\<close>

fun query_loop :: "Buffer_t \<Rightarrow> char list \<Rightarrow> u16 \<Rightarrow> nat \<Rightarrow> u32 \<Rightarrow> u16 \<Rightarrow> int \<Rightarrow> int" where
  "query_loop b data len 0 index indexData indexReturn = - 1"
| "query_loop b data len (Suc n) index indexData indexReturn =
     (let next = (index + 1) mod maxSize b in
      if bufferData b ! unat index = data ! unat indexData
      then (let ret = (if indexData = 0 then int (unat index) else indexReturn)
            in if indexData + 1 = len then ret
               else query_loop b data len n next (indexData + 1) ret)
      else if bufferData b ! unat index = data ! 0
      then (if 1 = len then int (unat index)
            else query_loop b data len n next 1 (int (unat index)))
      else query_loop b data len n next 0 (- 1))"

definition Buffer_Query :: "Buffer_t \<Rightarrow> char list \<Rightarrow> u16 \<Rightarrow> u16 \<Rightarrow> int" where
  "Buffer_Query b data len startPosition =
     query_loop b data len
       (unat ((ucast (rear b) - ucast startPosition + 1 + maxSize b) mod maxSize b))
       (ucast startPosition) 0 (- 1)"

section \<open>Well-formed buffers and their contents\<close>

abbreviation cap :: "Buffer_t \<Rightarrow> nat" where "cap b \<equiv> unat (maxSize b)"

definition buffer_wf :: "Buffer_t \<Rightarrow> bool" where
  "buffer_wf b \<longleftrightarrow> 0 < cap b \<and> cap b \<le> 65536 \<and> unat (front b) < cap b \<and> unat (rear b) < cap b
     \<and> length (bufferData b) = cap b"

text \<open>The cell \<open>i\<close> places after the front.\<close>

definition cell :: "Buffer_t \<Rightarrow> nat \<Rightarrow> nat" where
  "cell b i = (unat (front b) + 1 + i) mod cap b"

definition contents :: "Buffer_t \<Rightarrow> char list" where
  "contents b = map (\<lambda>i. bufferData b ! cell b i) [0..<unat (Buffer_Size b)]"

lemma unat_ucast16: "unat (ucast (w :: u16) :: u32) = unat w"
proof -
  have "unat w < 2 ^ LENGTH(16)" by (rule unsigned_less)
  then show ?thesis by (simp add: unsigned_ucast_eq take_bit_nat_eq_self)
qed

lemma unat_of_nat_u32: "n < 4294967296 \<Longrightarrow> unat (of_nat n :: u32) = n"
  by (simp add: unsigned_of_nat take_bit_nat_eq_self)

lemma u32_diff_add:
  assumes "unat (f :: u32) \<le> unat (r :: u32) + unat m" "unat r + unat m < 4294967296"
  shows "unat (r - f + m) = unat r + unat m - unat f"
proof -
  have "r - f + m = of_nat (unat r + unat m - unat f)"
    using assms(1) by (simp add: of_nat_diff)
  then show ?thesis using assms(2) by (simp only: unat_of_nat_u32)
qed

lemma unat_Buffer_Size:
  assumes "buffer_wf b"
  shows "unat (Buffer_Size b) = (unat (rear b) + cap b - unat (front b)) mod cap b"
  unfolding Buffer_Size_def unat_mod
  by (subst u32_diff_add) (use assms in \<open>simp_all add: buffer_wf_def unat_ucast16\<close>)

lemma unat_Buffer_Size2:
  assumes "buffer_wf b" "unat index < cap b"
  shows "unat (Buffer_Size2 b index) = (unat index + cap b - unat (front b)) mod cap b"
  unfolding Buffer_Size2_def unat_mod
  by (subst u32_diff_add) (use assms in \<open>simp_all add: buffer_wf_def unat_ucast16\<close>)

lemma size_less_cap: "buffer_wf b \<Longrightarrow> unat (Buffer_Size b) < cap b"
  by (simp add: unat_Buffer_Size buffer_wf_def)

text \<open>The rear is \<open>size\<close> places after the front.\<close>

lemma mod_add_diff:
  assumes "(f :: nat) < m" "r < m" shows "(f + (r + m - f) mod m) mod m = r"
proof -
  have "(f + (r + m - f) mod m) mod m = (f + (r + m - f)) mod m" by (simp add: mod_add_right_eq)
  also have "f + (r + m - f) = r + m" using assms by simp
  finally show ?thesis using assms by simp
qed

lemma rear_size: "buffer_wf b \<Longrightarrow> unat (rear b) = (unat (front b) + unat (Buffer_Size b)) mod cap b"
  using mod_add_diff [of "unat (front b)" "cap b" "unat (rear b)"]
  by (simp add: unat_Buffer_Size buffer_wf_def)

lemma mod_diff_add:
  assumes "(f :: nat) < m" "n < m" shows "((f + n) mod m + m - f) mod m = n"
proof (cases "f + n < m")
  case False
  then have "(f + n) mod m = f + n - m" using assms by (simp add: mod_if)
  then show ?thesis using assms False by simp
qed (use assms in simp)

lemma size_from_rear:
  assumes "buffer_wf b" "unat (rear b) = (unat (front b) + n) mod cap b" "n < cap b"
  shows "unat (Buffer_Size b) = n"
  using assms mod_diff_add [of "unat (front b)" "cap b" n]
  by (simp add: unat_Buffer_Size buffer_wf_def)

lemma length_contents: "length (contents b) = unat (Buffer_Size b)"
  by (simp add: contents_def)

lemma cell_less: "buffer_wf b \<Longrightarrow> cell b i < cap b"
  by (simp add: cell_def buffer_wf_def)

lemma cell_inj:
  assumes "i < cap b" "j < cap b" "cell b i = cell b j" shows "i = j"
proof -
  let ?f = "(unat (front b) + 1) mod cap b"
  have f: "?f < cap b" by (rule mod_less_divisor) (use assms(1) in simp)
  have c: "cell b k = (?f + k) mod cap b" for k
    unfolding cell_def by (rule mod_add_left_eq [symmetric])
  show ?thesis
    using mod_diff_add [OF f assms(1)] mod_diff_add [OF f assms(2)] assms(3) unfolding c by metis
qed

text \<open>The increment of an index, at its width.\<close>

lemma inc_index:
  assumes "buffer_wf b" "unat (i :: u16) < cap b"
  shows "unat (ucast ((ucast i + 1) mod maxSize b :: u32) :: u16) = (unat i + 1) mod cap b"
proof -
  have s: "unat (ucast i + 1 :: u32) = unat i + 1"
    using assms by (subst unat_add_lem [THEN iffD1]) (simp_all add: unat_ucast16 buffer_wf_def)
  have "(unat i + 1) mod cap b < 65536"
    using assms by (meson buffer_wf_def mod_less_divisor order_less_le_trans)
  then show ?thesis
    by (simp add: unsigned_ucast_eq take_bit_nat_eq_self unat_mod s)
qed

section \<open>One byte in, one byte out\<close>

definition put1 :: "Buffer_t \<Rightarrow> char \<Rightarrow> Buffer_t" where
  "put1 b x = (let r = ucast ((ucast (rear b) + 1) mod maxSize b :: u32) :: u16
     in b\<lparr>rear := r, bufferData := (bufferData b)[unat r := x]\<rparr>)"

definition get1 :: "Buffer_t \<Rightarrow> Buffer_t" where
  "get1 b = b\<lparr>front := ucast ((ucast (front b) + 1) mod maxSize b :: u32)\<rparr>"

lemma put_loop_fold: "put_loop b xs = fold (\<lambda>x b. put1 b x) xs b"
  by (induction b xs rule: put_loop.induct) (simp_all add: put1_def Let_def)

lemma put1_fields [simp]: "front (put1 b x) = front b" "maxSize (put1 b x) = maxSize b"
  by (simp_all add: put1_def Let_def)

lemma get1_fields [simp]: "rear (get1 b) = rear b" "maxSize (get1 b) = maxSize b"
  "bufferData (get1 b) = bufferData b"
  by (simp_all add: get1_def)

lemma rear_put1: "buffer_wf b \<Longrightarrow> unat (rear (put1 b x)) = cell b (unat (Buffer_Size b))"
  using rear_size [of b] inc_index [of b "rear b"]
  by (simp add: put1_def Let_def cell_def buffer_wf_def mod_Suc_eq add.commute)

lemma data_put1: "buffer_wf b \<Longrightarrow> bufferData (put1 b x) = (bufferData b)[cell b (unat (Buffer_Size b)) := x]"
  using rear_put1 [of b x] by (simp add: put1_def Let_def)

lemma wf_put1: "buffer_wf b \<Longrightarrow> buffer_wf (put1 b x)"
  using rear_put1 [of b x] data_put1 [of b x] cell_less [of b] by (simp add: buffer_wf_def)

lemma cell_put1 [simp]: "cell (put1 b x) i = cell b i"
  by (simp add: cell_def)

lemma size_put1:
  assumes "buffer_wf b" "unat (Buffer_Size b) + 1 < cap b"
  shows "unat (Buffer_Size (put1 b x)) = unat (Buffer_Size b) + 1"
  by (rule size_from_rear) (use assms wf_put1 rear_put1 [of b x] in \<open>simp_all add: cell_def\<close>)

lemma contents_put1:
  assumes "buffer_wf b" "unat (Buffer_Size b) + 1 < cap b"
  shows "contents (put1 b x) = contents b @ [x]"
proof -
  have "bufferData (put1 b x) ! cell b i = bufferData b ! cell b i" if "i < unat (Buffer_Size b)" for i
    using cell_inj [of i b "unat (Buffer_Size b)"] that assms by (subgoal_tac "cell b (unat (Buffer_Size b)) \<noteq> cell b i")
      (auto simp: data_put1)
  moreover have "bufferData (put1 b x) ! cell b (unat (Buffer_Size b)) = x"
    using assms(1) cell_less [OF assms(1)] by (simp add: data_put1 buffer_wf_def)
  ultimately show ?thesis using assms by (simp add: contents_def size_put1)
qed

lemma contents_Nil_size: "contents b = [] \<longleftrightarrow> unat (Buffer_Size b) = 0"
  by (metis length_contents length_0_conv)

lemma front_get1: "buffer_wf b \<Longrightarrow> unat (front (get1 b)) = cell b 0"
  using inc_index [of b "front b"] by (simp add: get1_def cell_def buffer_wf_def)

lemma wf_get1: "buffer_wf b \<Longrightarrow> buffer_wf (get1 b)"
  using front_get1 [of b] cell_less [of b 0] by (simp add: buffer_wf_def)

lemma cell_get1: "buffer_wf b \<Longrightarrow> cell (get1 b) i = cell b (Suc i)"
proof -
  assume "buffer_wf b"
  then have f: "unat (front (get1 b)) = (unat (front b) + 1) mod cap b"
    using front_get1 [of b] by (simp add: cell_def)
  have "((unat (front b) + 1) mod cap b + (1 + i)) mod cap b = (unat (front b) + 1 + (1 + i)) mod cap b"
    by (rule mod_add_left_eq)
  then show ?thesis by (simp add: cell_def f)
qed

lemma size_get1:
  assumes "buffer_wf b" "unat (Buffer_Size b) = Suc n"
  shows "unat (Buffer_Size (get1 b)) = n"
proof (rule size_from_rear [OF wf_get1 [OF assms(1)]])
  show "n < cap (get1 b)" using size_less_cap [OF assms(1)] assms(2) by simp
  show "unat (rear (get1 b)) = (unat (front (get1 b)) + n) mod cap (get1 b)"
    using rear_size [OF assms(1)] assms(2) front_get1 [OF assms(1)] by (simp add: cell_def mod_simps)
qed

lemma contents_get1:
  assumes "buffer_wf b" "unat (Buffer_Size b) = Suc n"
  shows "contents b = bufferData b ! cell b 0 # contents (get1 b)"
  using assms by (simp add: contents_def size_get1 cell_get1 upt_conv_Cons map_Suc_upt [symmetric] del: upt_Suc)

section \<open>Runs of bytes\<close>

lemma put_loop_spec:
  "buffer_wf b \<Longrightarrow> unat (Buffer_Size b) + length xs < cap b \<Longrightarrow>
   buffer_wf (put_loop b xs) \<and> contents (put_loop b xs) = contents b @ xs \<and>
   maxSize (put_loop b xs) = maxSize b"
proof (induction xs arbitrary: b)
  case (Cons x xs)
  then show ?case
    using Cons.IH [of "put1 b x"] by (simp add: put_loop_fold wf_put1 size_put1 contents_put1)
qed (simp add: put_loop_fold)

lemma get_loop_Suc:
  "buffer_wf b \<Longrightarrow> get_loop b (Suc n) =
     (let (ds, b') = get_loop (get1 b) n in (bufferData b ! cell b 0 # ds, b'))"
  using front_get1 [of b] by (simp add: get1_def Let_def)

lemma get_loop_spec:
  "buffer_wf b \<Longrightarrow> n \<le> unat (Buffer_Size b) \<Longrightarrow>
   case get_loop b n of (ds, b') \<Rightarrow>
     ds = take n (contents b) \<and> contents b' = drop n (contents b) \<and> buffer_wf b' \<and> maxSize b' = maxSize b"
proof (induction n arbitrary: b)
  case (Suc n)
  obtain m where m: "unat (Buffer_Size b) = Suc m" using Suc.prems(2) by (cases "unat (Buffer_Size b)") auto
  have "case get_loop (get1 b) n of (ds, b') \<Rightarrow> ds = take n (contents (get1 b)) \<and>
      contents b' = drop n (contents (get1 b)) \<and> buffer_wf b' \<and> maxSize b' = maxSize (get1 b)"
    by (rule Suc.IH) (use Suc.prems m in \<open>simp_all add: wf_get1 size_get1\<close>)
  then show ?case
    unfolding get_loop_Suc [OF Suc.prems(1)] contents_get1 [OF Suc.prems(1) m]
    by (auto split: prod.splits)
qed simp

section \<open>The queue as an interface\<close>

text \<open>A run of reads (a number) and writes (bytes); the result collects what was accepted and what was read.\<close>

fun queue_run :: "('s \<Rightarrow> 'a list \<Rightarrow> bool \<times> 's) \<Rightarrow> ('s \<Rightarrow> nat \<Rightarrow> bool \<times> 'a list \<times> 's) \<Rightarrow>
    's \<Rightarrow> ('a list + nat) list \<Rightarrow> 'a list \<times> 'a list \<times> 's" where
  "queue_run put get s [] = ([], [], s)"
| "queue_run put get s (Inl xs # ops) =
     (let (ok, s') = put s xs; (ins, outs, s'') = queue_run put get s' ops
      in ((if ok then xs else []) @ ins, outs, s''))"
| "queue_run put get s (Inr n # ops) =
     (let (ok, xs, s') = get s n; (ins, outs, s'') = queue_run put get s' ops in (ins, xs @ outs, s''))"

text \<open>
  What a client of a byte queue relies on: bytes come out in the order they went in, a
  write that does not fit and a read of more than there is change nothing. \<open>limit\<close> is the
  largest request the operations take.
\<close>

locale fifo =
  fixes invar :: "'s \<Rightarrow> bool" and abs :: "'s \<Rightarrow> 'a list" and room :: "'s \<Rightarrow> nat"
    and put :: "'s \<Rightarrow> 'a list \<Rightarrow> bool \<times> 's" and get :: "'s \<Rightarrow> nat \<Rightarrow> bool \<times> 'a list \<times> 's"
    and limit :: nat
  assumes put_fits: "invar s \<Longrightarrow> length xs \<le> limit \<Longrightarrow> length xs \<le> room s \<Longrightarrow>
      \<exists>s'. put s xs = (True, s') \<and> invar s' \<and> abs s' = abs s @ xs \<and> room s' = room s - length xs"
    and put_full: "invar s \<Longrightarrow> length xs \<le> limit \<Longrightarrow> room s < length xs \<Longrightarrow> put s xs = (False, s)"
    and get_enough: "invar s \<Longrightarrow> n \<le> limit \<Longrightarrow> n \<le> length (abs s) \<Longrightarrow>
      \<exists>s'. get s n = (True, take n (abs s), s') \<and> invar s' \<and> abs s' = drop n (abs s) \<and> room s' = room s + n"
    and get_short: "invar s \<Longrightarrow> n \<le> limit \<Longrightarrow> length (abs s) < n \<Longrightarrow> get s n = (False, [], s)"
begin

abbreviation request_ok :: "('a list + nat) \<Rightarrow> bool" where
  "request_ok r \<equiv> (case r of Inl xs \<Rightarrow> length xs \<le> limit | Inr n \<Rightarrow> n \<le> limit)"

lemma put_invar:
  assumes "invar s" "length xs \<le> limit" "put s xs = (ok, s')"
  shows "invar s' \<and> abs s' = abs s @ (if ok then xs else []) \<and> room s' + length (abs s') = room s + length (abs s)"
  using put_fits [OF assms(1,2)] put_full [OF assms(1,2)] assms
  by (cases "length xs \<le> room s") auto

lemma get_invar:
  assumes "invar s" "n \<le> limit" "get s n = (ok, xs, s')"
  shows "invar s' \<and> abs s = xs @ abs s' \<and> room s' + length (abs s') = room s + length (abs s)"
  using get_enough [OF assms(1,2)] get_short [OF assms(1,2)] assms
  by (cases "n \<le> length (abs s)") (auto simp: append_eq_conv_conj)

text \<open>Nothing is lost, duplicated or reordered, and no place of the queue is lost.\<close>

lemma run_fifo:
  "invar s \<Longrightarrow> list_all request_ok ops \<Longrightarrow> queue_run put get s ops = (ins, outs, s') \<Longrightarrow>
   invar s' \<and> abs s @ ins = outs @ abs s' \<and> room s' + length (abs s') = room s + length (abs s)"
proof (induction ops arbitrary: s ins outs)
  case (Cons r ops)
  show ?case
  proof (cases r)
    case (Inl xs)
    obtain ok t where p: "put s xs = (ok, t)" by fastforce
    obtain i where r: "queue_run put get t ops = (i, outs, s')" "ins = (if ok then xs else []) @ i"
      using Cons.prems p Inl by (auto split: prod.splits)
    have t: "invar t \<and> abs t = abs s @ (if ok then xs else []) \<and> room t + length (abs t) = room s + length (abs s)"
      by (rule put_invar [OF Cons.prems(1) _ p]) (use Cons.prems(2) Inl in simp)
    then have "invar s' \<and> abs t @ i = outs @ abs s' \<and> room s' + length (abs s') = room t + length (abs t)"
      by (intro Cons.IH) (use Cons.prems(2) r in simp_all)
    then show ?thesis using r t by auto
  next
    case (Inr n)
    obtain ok xs t where g: "get s n = (ok, xs, t)" using prod_cases3 by blast
    obtain o' where r: "queue_run put get t ops = (ins, o', s')" "outs = xs @ o'"
      using Cons.prems g Inr by (auto split: prod.splits)
    have t: "invar t \<and> abs s = xs @ abs t \<and> room t + length (abs t) = room s + length (abs s)"
      by (rule get_invar [OF Cons.prems(1) _ g]) (use Cons.prems(2) Inr in simp)
    then have "invar s' \<and> abs t @ ins = o' @ abs s' \<and> room s' + length (abs s') = room t + length (abs t)"
      by (intro Cons.IH) (use Cons.prems(2) r in simp_all)
    then show ?thesis using r t by auto
  qed
qed simp

end

section \<open>The ring buffer provides it\<close>

text \<open>A request as the callers make it: the length of the data as a 16-bit number.\<close>

abbreviation ring_put :: "Buffer_t \<Rightarrow> char list \<Rightarrow> bool \<times> Buffer_t" where
  "ring_put b xs \<equiv> Buffer_Puts b xs (of_nat (length xs))"

abbreviation ring_get :: "Buffer_t \<Rightarrow> nat \<Rightarrow> bool \<times> char list \<times> Buffer_t" where
  "ring_get b n \<equiv> Buffer_Gets b (of_nat n)"

abbreviation ring_room :: "Buffer_t \<Rightarrow> nat" where
  "ring_room b \<equiv> cap b - 1 - unat (Buffer_Size b)"

lemma unat_u16: "n \<le> 65535 \<Longrightarrow> unat (of_nat n :: u16) = n"
  by (simp add: unsigned_of_nat take_bit_nat_eq_self)

lemma ucast_len: "n \<le> 65535 \<Longrightarrow> unat (ucast (of_nat n :: u16) :: u32) = n"
  by (simp add: unat_ucast16 unat_u16)

lemma Puts_guard:
  assumes "buffer_wf b" "n \<le> 65535"
  shows "maxSize b - Buffer_Size b \<le> ucast (of_nat n :: u16) \<longleftrightarrow> ring_room b < n"
proof -
  have "unat (maxSize b - Buffer_Size b) = cap b - unat (Buffer_Size b)"
    using size_less_cap [OF assms(1)] by (simp add: unat_sub word_le_nat_alt)
  then show ?thesis
    using size_less_cap [OF assms(1)] by (auto simp: word_le_nat_alt ucast_len [OF assms(2)])
qed

lemma Buffer_Puts_ok:
  assumes "buffer_wf b" "length xs \<le> 65535" "length xs \<le> ring_room b"
  shows "\<exists>b'. ring_put b xs = (True, b') \<and> buffer_wf b' \<and> contents b' = contents b @ xs
    \<and> ring_room b' = ring_room b - length xs \<and> maxSize b' = maxSize b"
proof -
  have "unat (Buffer_Size b) + length xs < cap b" using assms(3) size_less_cap [OF assms(1)] by simp
  note sp = put_loop_spec [OF assms(1) this]
  then have "unat (Buffer_Size (put_loop b xs)) = unat (Buffer_Size b) + length xs"
    by (metis length_append length_contents)
  then show ?thesis
    using sp assms(3) by (auto simp: Buffer_Puts_def Puts_guard [OF assms(1,2)] unat_u16 [OF assms(2)])
qed

lemma Buffer_Gets_guard:
  "n \<le> 65535 \<Longrightarrow> Buffer_Size b < ucast (of_nat n :: u16) \<longleftrightarrow> length (contents b) < n"
  by (simp add: word_less_nat_alt ucast_len length_contents)

lemma Buffer_Gets_ok:
  assumes "buffer_wf b" "n \<le> 65535" "n \<le> length (contents b)"
  shows "\<exists>b'. ring_get b n = (True, take n (contents b), b') \<and> buffer_wf b'
    \<and> contents b' = drop n (contents b) \<and> ring_room b' = ring_room b + n \<and> maxSize b' = maxSize b"
proof -
  obtain ds b' where g: "get_loop b n = (ds, b')" by fastforce
  have sp: "ds = take n (contents b)" "contents b' = drop n (contents b)" "buffer_wf b'" "maxSize b' = maxSize b"
    using get_loop_spec [OF assms(1), of n] assms(3) g by (simp_all add: length_contents)
  have "unat (Buffer_Size b') = unat (Buffer_Size b) - n"
    using sp(2) by (metis length_contents length_drop)
  then show ?thesis
    using sp g assms(3) size_less_cap [OF assms(1)]
    by (auto simp: Buffer_Gets_def Buffer_Gets_guard [OF assms(2)] unat_u16 [OF assms(2)] length_contents)
qed

interpretation ring: fifo buffer_wf contents ring_room ring_put ring_get 65535
proof (unfold_locales, goal_cases)
  case (1 s xs) then show ?case using Buffer_Puts_ok by blast
next
  case (2 s xs) then show ?case by (simp add: Buffer_Puts_def Puts_guard)
next
  case (3 s n) then show ?case using Buffer_Gets_ok by blast
next
  case (4 s n) then show ?case by (simp add: Buffer_Gets_def Buffer_Gets_guard)
qed

lemma wf_Buffer_Init:
  assumes "0 < n" "n \<le> 65536"
  shows "buffer_wf (Buffer_Init (of_nat n))" "contents (Buffer_Init (of_nat n)) = []"
    "cap (Buffer_Init (of_nat n)) = n"
proof -
  have n: "unat (of_nat n :: u32) = n" using assms by (simp add: unat_of_nat_u32)
  then show w: "buffer_wf (Buffer_Init (of_nat n))" "cap (Buffer_Init (of_nat n)) = n"
    using assms by (simp_all add: buffer_wf_def Buffer_Init_def)
  show "contents (Buffer_Init (of_nat n)) = []"
    unfolding contents_Nil_size unat_Buffer_Size [OF w(1)] using n by (simp add: Buffer_Init_def)
qed

lemma wf_Buffer_Clear: "buffer_wf b \<Longrightarrow> buffer_wf (Buffer_Clear b) \<and> contents (Buffer_Clear b) = []"
proof -
  assume "buffer_wf b"
  then have w: "buffer_wf (Buffer_Clear b)" by (simp add: buffer_wf_def Buffer_Clear_def)
  then show ?thesis unfolding contents_Nil_size unat_Buffer_Size [OF w] by (simp add: Buffer_Clear_def)
qed

text \<open>
  C10. The ring buffer is a first-in first-out queue: after any sequence of \<open>Buffer_Puts\<close>
  and \<open>Buffer_Gets\<close> on a well-formed buffer, the bytes read followed by the bytes still
  queued are the bytes queued before followed by the bytes accepted, whatever the indices
  wrap around, and the free room and the fill always add up to the same capacity.
\<close>

theorem Buffer_fifo:
  assumes "buffer_wf b" "list_all (\<lambda>r. case r of Inl xs \<Rightarrow> length xs \<le> 65535 | Inr n \<Rightarrow> n \<le> 65535) ops"
    "queue_run ring_put ring_get b ops = (ins, outs, b')"
  shows "buffer_wf b' \<and> contents b @ ins = outs @ contents b'
    \<and> ring_room b' + length (contents b') = ring_room b + length (contents b)"
  by (rule ring.run_fifo [OF assms])

theorem Buffer_fifo_witness:
  "\<exists>ins outs b'. queue_run ring_put ring_get (Buffer_Init 4) [Inl ''abc'', Inr 2, Inl ''de''] = (ins, outs, b')
    \<and> ins = ''abcde'' \<and> outs = ''ab'' \<and> contents b' = ''cde''"
proof -
  have w: "buffer_wf (Buffer_Init 4)" "contents (Buffer_Init 4) = []" "ring_room (Buffer_Init 4) = 3"
    using wf_Buffer_Init [of 4] by (simp_all add: contents_Nil_size)
  obtain b1 where b1: "ring_put (Buffer_Init 4) ''abc'' = (True, b1)" "buffer_wf b1" "contents b1 = ''abc''" "ring_room b1 = 0"
    using ring.put_fits [OF w(1), of "''abc''"] unfolding w(2,3) by auto
  obtain b2 where b2: "ring_get b1 2 = (True, ''ab'', b2)" "buffer_wf b2" "ring_room b2 = 2"
    using ring.get_enough [OF b1(2), of 2] unfolding b1(3,4) by auto
  obtain b3 where b3: "ring_put b2 ''de'' = (True, b3)"
    using ring.put_fits [OF b2(2), of "''de''"] unfolding b2(3) by auto
  have r: "queue_run ring_put ring_get (Buffer_Init 4) [Inl ''abc'', Inr 2, Inl ''de''] = (''abcde'', ''ab'', b3)"
    using b1(1) b2(1) b3 by simp
  then show ?thesis using Buffer_fifo [OF w(1) _ r] w(2) by simp
qed

text \<open>
  \<open>Buffer_Puts\<close> accepts exactly the data that leaves one cell free, appends it in
  order, and refuses the rest without touching the buffer; \<open>Buffer_Gets\<close> takes the
  requested number of bytes off the front or refuses.
\<close>

lemma Buffer_Puts_Gets_correct:
  assumes "buffer_wf b" "length xs \<le> 65535"
  shows "(if length xs \<le> ring_room b
          then \<exists>b'. Buffer_Puts b xs (of_nat (length xs)) = (True, b') \<and> buffer_wf b' \<and> contents b' = contents b @ xs
          else Buffer_Puts b xs (of_nat (length xs)) = (False, b))
    \<and> (if length xs \<le> length (contents b)
       then \<exists>b'. Buffer_Gets b (of_nat (length xs)) = (True, take (length xs) (contents b), b') \<and> buffer_wf b'
              \<and> contents b' = drop (length xs) (contents b)
       else Buffer_Gets b (of_nat (length xs)) = (False, [], b))"
  using ring.put_fits [of b xs] ring.put_full [of b xs] ring.get_enough [of b "length xs"]
    ring.get_short [of b "length xs"] assms by auto

lemma Buffer_Puts_Gets_correct_example:
  "\<exists>b'. Buffer_Puts (Buffer_Init 8) ''abc'' (of_nat (length ''abc'')) = (True, b') \<and> contents b' = ''abc''"
proof -
  have w: "buffer_wf (Buffer_Init 8)" "contents (Buffer_Init 8) = []" "ring_room (Buffer_Init 8) = 7"
    using wf_Buffer_Init [of 8] by (simp_all add: contents_Nil_size)
  have "length ''abc'' \<le> ring_room (Buffer_Init 8)" unfolding w(3) by simp
  then show ?thesis using Buffer_Puts_Gets_correct [OF w(1), of "''abc''"] w(2) by auto
qed

section \<open>Searching the buffer\<close>


text \<open>The bytes \<open>Buffer_Query\<close> looks at: from an array position to the rear, inclusive.\<close>

definition scanned :: "Buffer_t \<Rightarrow> nat \<Rightarrow> nat \<Rightarrow> char list" where
  "scanned b q n = map (\<lambda>k. bufferData b ! ((q + k) mod cap b)) [0..<n]"

lemma scanned_Suc:
  "scanned b q (Suc n) = bufferData b ! (q mod cap b) # scanned b ((q + 1) mod cap b) n"
proof -
  have e: "((q + 1) mod cap b + k) mod cap b = (q + Suc k) mod cap b" for k
    using mod_add_left_eq [of "q + 1" "cap b" k] by simp
  show ?thesis unfolding scanned_def e
    by (simp add: upt_conv_Cons map_Suc_upt [symmetric] del: upt_Suc)
qed

lemma strstr_skip:
  "(\<And>j. j < k \<Longrightarrow> \<not> is_prefix pat (drop j s)) \<Longrightarrow> k \<le> length s \<Longrightarrow> pat \<noteq> [] \<Longrightarrow>
   strstr s pat = map_option (\<lambda>(p, u). (take k s @ p, u)) (strstr (drop k s) pat)"
proof (induction k arbitrary: s)
  case 0
  then show ?case by (cases "strstr s pat") auto
next
  case (Suc k)
  then obtain x t where s: "s = x # t" by (cases s) auto
  have "strstr t pat = map_option (\<lambda>(p, u). (take k t @ p, u)) (strstr (drop k t) pat)"
    using Suc.prems s by (intro Suc.IH) force+
  moreover have "\<not> is_prefix pat s" using Suc.prems(1) [of 0] by simp
  ultimately show ?case using s by (auto simp: option.map_comp split_beta comp_def)
qed

lemma strstr_short: "length s < length pat \<Longrightarrow> strstr s pat = None"
proof (cases "strstr s pat")
  case (Some r)
  assume "length s < length pat"
  then show ?thesis using strstr_append [of s pat "fst r" "snd r"] Some
    by (auto simp: is_prefix_append)
qed

text \<open>After \<open>m\<close> matched bytes a mismatch rules out every occurrence that starts among them.\<close>

lemma strstr_mismatch:
  assumes "m < length pat" "x \<noteq> pat ! m" "hd pat \<notin> set (tl pat)" "0 < m"
  shows "strstr (take m pat @ x # t) pat =
    map_option (\<lambda>(p, u). (take m pat @ p, u)) (strstr (x # t) pat)"
proof -
  have ne: "\<not> is_prefix pat (drop j (take m pat @ x # t))" if j: "j < m" for j
  proof
    assume "is_prefix pat (drop j (take m pat @ x # t))"
    then obtain u where u: "drop j (take m pat @ x # t) = pat @ u" by (auto simp: is_prefix_append)
    show False
    proof (cases j)
      case 0
      then have "(take m pat @ x # t) ! m = (pat @ u) ! m" using u by simp
      then show False using assms by (simp add: nth_append)
    next
      case (Suc i)
      then have "(take m pat @ x # t) ! j = (pat @ u) ! 0" using u j assms(1)
        by (metis add_0_right append_take_drop_id length_append length_take less_or_eq_imp_le
            min.absorb2 nth_drop trans_less_add1)
      then have "pat ! j = hd pat" using j assms by (cases pat) (auto simp: nth_append)
      moreover have "pat ! j \<in> set (tl pat)" using Suc j assms(1)
        by (cases pat) auto
      ultimately show False using assms(3) by simp
    qed
  qed
  have "pat \<noteq> []" using assms(1) by auto
  then show ?thesis using strstr_skip [of m pat "take m pat @ x # t", OF ne] assms(1) by simp
qed

lemma next_index:
  assumes "buffer_wf b" "unat index < cap b"
  shows "unat ((index + 1) mod maxSize b) = (unat index + 1) mod cap b"
proof -
  have "unat (index + 1) = unat index + 1"
    using assms by (subst unat_add_lem [THEN iffD1]) (simp_all add: buffer_wf_def)
  then show ?thesis by (simp add: unat_mod)
qed

lemma unat_inc16: "unat (i :: u16) < 65535 \<Longrightarrow> unat (i + 1) = unat i + 1"
  by (subst unat_add_lem [THEN iffD1]) simp_all

lemma u16_eq_iff: "(a :: u16) = b \<longleftrightarrow> unat a = unat b"
  by (simp add: word_eq_iff_unsigned)

text \<open>
  The loop with \<open>m\<close> bytes matched searches the matched bytes followed by what is left to
  scan. \<open>hit b q m j\<close> is the array index of place \<open>j\<close> of that text, whose place \<open>m\<close> is
  the current index \<open>q\<close>.
\<close>

definition hit :: "Buffer_t \<Rightarrow> nat \<Rightarrow> nat \<Rightarrow> nat \<Rightarrow> nat" where
  "hit b q m j = (q + m * (cap b - 1) + j) mod cap b"

lemma hit_next:
  assumes "0 < cap b" shows "hit b ((q + 1) mod cap b) (Suc m) j = hit b q m j"
proof -
  obtain c where c: "cap b = Suc c" using assms by (cases "cap b") auto
  have "hit b ((q + 1) mod cap b) (Suc m) j = (q + 1 + (Suc m * c + j)) mod cap b"
    unfolding hit_def using mod_add_left_eq [of "q + 1" "cap b" "Suc m * c + j"] c by (simp add: add.assoc)
  also have "q + 1 + (Suc m * c + j) = q + m * (cap b - 1) + j + cap b" using c by simp
  finally show ?thesis unfolding hit_def mod_add_self2 .
qed

lemma hit_shift: assumes "0 < cap b" shows "hit b q m (m + j) = hit b q 0 j"
proof -
  obtain c where c: "cap b = Suc c" using assms by (cases "cap b") auto
  have "q + m * (cap b - 1) + (m + j) = q + 0 * (cap b - 1) + j + m * cap b" using c by simp
  then show ?thesis unfolding hit_def by (metis mod_mult_self1)
qed

lemma hit_start: "q < cap b \<Longrightarrow> hit b q 0 0 = q"
  by (simp add: hit_def)

definition answer :: "Buffer_t \<Rightarrow> char list \<Rightarrow> nat \<Rightarrow> nat \<Rightarrow> char list \<Rightarrow> int" where
  "answer b data q m s =
     (case strstr s data of None \<Rightarrow> - 1 | Some (pre, _) \<Rightarrow> int (hit b q m (length pre)))"

lemma query_loop_spec:
  assumes "buffer_wf b" "hd data \<notin> set (tl data)" "length data \<le> 65535" "unat len = length data"
  shows "unat index < cap b \<Longrightarrow> unat indexData < length data \<Longrightarrow>
    (0 < unat indexData \<Longrightarrow> ret = int (hit b (unat index) (unat indexData) 0)) \<Longrightarrow>
    query_loop b data len n index indexData ret =
      answer b data (unat index) (unat indexData) (take (unat indexData) data @ scanned b (unat index) n)"
proof (induction n arbitrary: index indexData ret)
  case 0
  then show ?case by (simp add: scanned_def strstr_short answer_def)
next
  case (Suc n)
  let ?q = "unat index" and ?m = "unat indexData" and ?next = "(index + 1) mod maxSize b"
  let ?x = "bufferData b ! ?q" and ?rest = "scanned b (unat ?next) n"
  have c: "0 < cap b" using Suc.prems by simp
  have nx: "unat ?next = (?q + 1) mod cap b" by (rule next_index) (use assms Suc.prems in auto)
  then have nl: "unat ?next < cap b" using c by simp
  have sc: "scanned b ?q (Suc n) = ?x # ?rest"
    unfolding scanned_Suc nx using Suc.prems(1) by simp
  have m1: "unat (indexData + 1) = ?m + 1" by (rule unat_inc16) (use Suc.prems assms in simp)
  have full: "indexData + 1 = len \<longleftrightarrow> ?m + 1 = length data"
    unfolding u16_eq_iff m1 assms(4) ..
  have data: "data = hd data # tl data" "data \<noteq> []" "data ! 0 = hd data"
    using Suc.prems(2) by (cases data; simp)+
  have one: "1 = len \<longleftrightarrow> length data = 1" unfolding u16_eq_iff using assms(4) by auto
  have zero: "indexData = 0 \<longleftrightarrow> ?m = 0" by (simp add: unat_eq_0)
  have h: "hit b (unat ?next) (Suc k) j = hit b ?q k j" for k j unfolding nx by (rule hit_next [OF c])
  show ?case
  proof (cases "?x = data ! ?m")
    case match: True
    let ?ret = "if indexData = 0 then int ?q else ret"
    have ret: "?ret = int (hit b ?q ?m 0)"
      using Suc.prems(1,3) by (auto simp: zero hit_start)
    have tk: "take (?m + 1) data = take ?m data @ [?x]" using Suc.prems match by (simp add: take_Suc_conv_app_nth)
    show ?thesis
    proof (cases "?m + 1 = length data")
      case True
      then have "take ?m data @ scanned b ?q (Suc n) = data @ ?rest"
        using tk sc by (metis Cons_eq_appendI append_Nil append_assoc order_refl take_all)
      then show ?thesis using True match full ret by (simp add: Let_def answer_def)
    next
      case False
      have "query_loop b data len (Suc n) index indexData ret = query_loop b data len n ?next (indexData + 1) ?ret"
        using match full False by (simp add: Let_def)
      also have "\<dots> = query_loop b data len n ?next (indexData + 1) (int (hit b ?q ?m 0))"
        by (simp only: ret)
      also have "\<dots> = answer b data (unat ?next) (?m + 1) (take (?m + 1) data @ ?rest)"
        using Suc.IH [OF nl, of "indexData + 1" "int (hit b ?q ?m 0)"] False Suc.prems(2) h [of ?m 0]
        unfolding m1 by simp
      also have "take (?m + 1) data @ ?rest = take ?m data @ scanned b ?q (Suc n)"
        using tk sc by simp
      finally show ?thesis by (simp add: answer_def h cong: option.case_cong)
    qed
  next
    case nomatch: False
    have v: "strstr (take ?m data @ ?x # ?rest) data =
        map_option (\<lambda>(p, u). (take ?m data @ p, u)) (strstr (?x # ?rest) data)"
    proof (cases "?m = 0")
      case False
      then show ?thesis using strstr_mismatch [OF Suc.prems(2) nomatch assms(2)] by simp
    qed (simp add: option.map_id split_beta option.map_comp comp_def)
    have lm: "length (take ?m data @ p) = ?m + length p" for p using Suc.prems(2) by simp
    have goal: "answer b data ?q ?m (take ?m data @ scanned b ?q (Suc n)) = answer b data ?q 0 (?x # ?rest)"
    proof (cases "strstr (?x # ?rest) data")
      case (Some r)
      have "hit b ?q ?m (length (take ?m data @ fst r)) = hit b ?q 0 (length (fst r))"
        unfolding lm by (rule hit_shift [OF c])
      then show ?thesis unfolding sc answer_def v Some
        by (simp add: split_beta del: length_append length_take)
    qed (simp only: sc answer_def v option.map option.case)
    show ?thesis
    proof (cases "?x = data ! 0")
      case hd: True
      then have m0: "0 < ?m" using nomatch by (cases "?m = 0") auto
      then have "1 \<noteq> len" using one Suc.prems(2) by simp
      then have "query_loop b data len (Suc n) index indexData ret = query_loop b data len n ?next 1 (int ?q)"
        using nomatch hd by (simp add: Let_def)
      also have "\<dots> = answer b data (unat ?next) 1 (take 1 data @ ?rest)"
        using Suc.IH [OF nl, of 1 "int ?q"] m0 Suc.prems(1,2) h [of 0] hit_start [of ?q b] by simp
      also have "take 1 data @ ?rest = ?x # ?rest" using hd data by (cases data) auto
      moreover have "answer b data (unat ?next) 1 (?x # ?rest) = answer b data ?q 0 (?x # ?rest)"
        unfolding answer_def One_nat_def h ..
      ultimately show ?thesis unfolding goal by simp
    next
      case False
      then have e: "query_loop b data len (Suc n) index indexData ret = query_loop b data len n ?next 0 (- 1)"
        using nomatch by (simp add: Let_def)
      have "hit b (unat ?next) 0 j = hit b ?q 0 (Suc j)" for j
        using hit_shift [OF c, of "unat ?next" 1 j] h [of 0 "Suc j"] by simp
      moreover have "strstr (?x # ?rest) data = map_option (\<lambda>(pre, suf). (?x # pre, suf)) (strstr ?rest data)"
        using False data by (cases data) auto
      moreover have "query_loop b data len n ?next 0 (- 1) = answer b data (unat ?next) 0 ?rest"
        using Suc.IH [OF nl, of 0 "- 1"] data by simp
      ultimately show ?thesis unfolding goal e by (auto simp: answer_def split: option.splits)
    qed
  qed
qed

lemma unat_scan_size:
  assumes "buffer_wf b" "unat p < cap b"
  shows "unat ((ucast (rear b) - ucast (p :: u16) + 1 + maxSize b) mod maxSize b)
    = (unat (rear b) + 1 + cap b - unat p) mod cap b"
proof -
  have e: "ucast (rear b) - ucast p + 1 + maxSize b = ucast (rear b) - ucast p + (1 + maxSize b)" by simp
  have o: "unat (1 + maxSize b) = 1 + cap b"
    using assms by (subst unat_add_lem [THEN iffD1]) (simp_all add: buffer_wf_def)
  show ?thesis unfolding unat_mod e
    by (subst u32_diff_add) (use assms o in \<open>simp_all add: buffer_wf_def unat_ucast16\<close>)
qed

lemma Buffer_Query_scanned:
  assumes "buffer_wf b" "unat p < cap b" "data \<noteq> []" "hd data \<notin> set (tl data)" "length data \<le> 65535"
  shows "Buffer_Query b data (of_nat (length data)) p =
    (case strstr (scanned b (unat p) ((unat (rear b) + 1 + cap b - unat p) mod cap b)) data of
       None \<Rightarrow> - 1 | Some (pre, _) \<Rightarrow> int ((unat p + length pre) mod cap b))"
proof -
  have l: "unat (of_nat (length data) :: u16) = length data" using assms(5) by (rule unat_u16)
  have i: "unat (ucast p :: u32) < cap b" using assms(2) by (simp add: unat_ucast16)
  have h: "hit b (unat p) 0 j = (unat p + j) mod cap b" for j by (simp add: hit_def)
  show ?thesis unfolding Buffer_Query_def unat_scan_size [OF assms(1,2)]
    using query_loop_spec [OF assms(1,4,5) l i, of 0] assms(3)
    by (simp add: answer_def h unat_ucast16 cong: option.case_cong)
qed

text \<open>
  C19. \<open>Buffer_Query\<close> finds the first occurrence of its pattern among the bytes from the
  start position to the rear and returns the array index where it begins, or -1 when there
  is none, for every pattern whose first byte does not occur again in it (as holds for
  each pattern the GPS driver searches for), across the wrap-around of the array.
\<close>

theorem Buffer_Query_correct:
  assumes "buffer_wf b" "unat p < cap b" "data \<noteq> []" "hd data \<notin> set (tl data)" "length data \<le> 65535"
  shows "Buffer_Query b data (of_nat (length data)) p =
    (case strstr (scanned b (unat p) ((unat (rear b) + 1 + cap b - unat p) mod cap b)) data of
       None \<Rightarrow> - 1 | Some (pre, _) \<Rightarrow> int ((unat p + length pre) mod cap b))"
  by (rule Buffer_Query_scanned [OF assms])

text \<open>From the cell of a queued byte the bytes scanned are the rest of the queue.\<close>

lemma StartPostion_cell: "buffer_wf b \<Longrightarrow> unat (Buffer_StartPostion b) = cell b 0"
  using next_index [of b "ucast (front b)"]
  by (simp add: Buffer_StartPostion_def cell_def unat_ucast16 buffer_wf_def)

lemma cell_add: "(cell b k + j) mod cap b = cell b (k + j)"
  using mod_add_left_eq [of "unat (front b) + 1 + k" "cap b" j] by (simp add: cell_def ac_simps)

lemma scanned_drop:
  assumes "buffer_wf b" "k \<le> unat (Buffer_Size b)"
  shows "scanned b (cell b k) ((unat (rear b) + 1 + cap b - cell b k) mod cap b) = drop k (contents b)"
proof -
  let ?n = "unat (Buffer_Size b) - k"
  have "(unat (rear b) + 1 + cap b - cell b k) mod cap b = ?n"
  proof -
    have w: "cell b k < cap b" "?n < cap b" using assms cell_less [of b k] size_less_cap [of b] by simp_all
    have "(unat (rear b) + 1) mod cap b = (cell b k + ?n) mod cap b"
      using rear_size [OF assms(1)] assms(2) cell_add [of b k ?n]
      by (simp add: cell_def mod_simps)
    then have "(unat (rear b) + 1 + cap b - cell b k) mod cap b = ((cell b k + ?n) mod cap b + cap b - cell b k) mod cap b"
      using w by (metis Nat.add_diff_assoc less_or_eq_imp_le mod_add_left_eq)
    then show ?thesis using mod_diff_add [OF w] by simp
  qed
  then show ?thesis unfolding scanned_def contents_def cell_add
    by (intro nth_equalityI) (simp_all add: drop_map)
qed

lemma scanned_all:
  "buffer_wf b \<Longrightarrow> scanned b (cell b 0) ((unat (rear b) + 1 + cap b - cell b 0) mod cap b) = contents b"
  using scanned_drop [of b 0] by simp

lemma Buffer_Query_drop:
  assumes "buffer_wf b" "k \<le> length (contents b)" "unat p = cell b k"
    "data \<noteq> []" "hd data \<notin> set (tl data)" "length data \<le> 65535"
  shows "Buffer_Query b data (of_nat (length data)) p =
    (case strstr (drop k (contents b)) data of
       None \<Rightarrow> - 1 | Some (pre, _) \<Rightarrow> int (cell b (k + length pre)))"
proof -
  have "unat p < cap b" using cell_less [OF assms(1)] assms(3) by simp
  note q = Buffer_Query_scanned [OF assms(1) this assms(4-6)]
  show ?thesis using q unfolding assms(3) scanned_drop [OF assms(1) assms(2) [unfolded length_contents]] cell_add .
qed

lemma Size2_cell:
  assumes "buffer_wf b" "k < length (contents b)"
  shows "unat (Buffer_Size2 b (of_nat (cell b k))) = k + 1"
proof -
  have c: "cell b k < cap b" "cap b \<le> 65536" using assms(1) cell_less by (auto simp: buffer_wf_def)
  then have u: "unat (of_nat (cell b k) :: u32) = cell b k" by (simp add: unat_of_nat_u32)
  have k: "k + 1 < cap b" using assms size_less_cap [of b] by (simp add: length_contents)
  have f: "unat (front b) < cap b" using assms(1) by (simp add: buffer_wf_def)
  have "unat (Buffer_Size2 b (of_nat (cell b k))) = (cell b k + cap b - unat (front b)) mod cap b"
    using unat_Buffer_Size2 [OF assms(1), of "of_nat (cell b k)"] u c by simp
  then show ?thesis using mod_diff_add [OF f k] by (simp add: cell_def ac_simps)
qed

theorem Buffer_Query_correct_witness:
  "Buffer_Query (snd (Buffer_Puts (Buffer_Init 8) ''VVTG'' 4)) ''VTG'' (of_nat (length ''VTG'')) 1 = 2"
proof -
  define b where "b = snd (Buffer_Puts (Buffer_Init 8) ''VVTG'' 4)"
  have w: "buffer_wf (Buffer_Init 8)" "contents (Buffer_Init 8) = []" "ring_room (Buffer_Init 8) = 7" "cap (Buffer_Init 8) = 8"
    using wf_Buffer_Init [of 8] by (simp_all add: contents_Nil_size)
  obtain b' where p: "ring_put (Buffer_Init 8) ''VVTG'' = (True, b')" "buffer_wf b'" "contents b' = ''VVTG''"
    "maxSize b' = maxSize (Buffer_Init 8)"
    using Buffer_Puts_ok [OF w(1), of "''VVTG''"] unfolding w(2,3) by auto
  then have b: "b = b'" by (simp add: b_def)
  have "front b = 0" using p(1) unfolding b by (auto simp: Buffer_Puts_def put_loop_fold Buffer_Init_def split: if_splits)
  then have c: "cell b 0 = 1" "cap b = 8" using p(4) w(4) b by (simp_all add: cell_def)
  then have s: "scanned b 1 ((unat (rear b) + 1 + cap b - 1) mod cap b) = ''VVTG''"
    using scanned_all [of b] p(2,3) b by simp
  have "Buffer_Query b ''VTG'' (of_nat (length ''VTG'')) 1 =
    (case strstr (scanned b 1 ((unat (rear b) + 1 + cap b - 1) mod cap b)) ''VTG'' of
       None \<Rightarrow> - 1 | Some (pre, _) \<Rightarrow> int ((1 + length pre) mod cap b))"
    using Buffer_Query_correct [of b 1 "''VTG''"] p(2) b c(2) by (simp cong: option.case_cong)
  then show ?thesis unfolding s unfolding c by (simp add: b_def)
qed

end
