(* ===== verification/Gps_Driver.thy ===== *)
theory Gps_Driver
  imports Gps_Parse Ring_Buffer Debug_Log
begin

text \<open>
  The GPS driver, \<open>libs/gps/src/gps.c\<close>: buffering of the receiver's output, the PGKC command
  protocol with its two formats, and the settings built on it.

  \<open>gps_state\<close> holds the file's statics. \<open>semCmdSending\<close> is \<open>None\<close> for NULL, else the count
  of the semaphore; \<open>gpsAckMsg\<close> the bytes of the block it points to. The scratch array \<open>tmp\<close>
  is dead between calls and is not kept. What the environment decides is in \<open>gps_env\<close>: the
  configuration the log switch refers to, the answers of the file system and of
  \<open>OS_Malloc\<close>. A step that does not return (an endless loop, the use of a null pointer) is
  \<open>None\<close>. \<open>GPS_DEBUG_I\<close> is empty because \<open>GPS_DEBUG\<close> is 0.
\<close>

section \<open>Constants and state\<close>

definition GPS_BUFFER_MAX_LENGTH :: nat where [simp]: "GPS_BUFFER_MAX_LENGTH = 530"
definition GPS_TIME_OUT_CMD :: nat where [simp]: "GPS_TIME_OUT_CMD = 1500"
definition GPS_NMEA_FRAME_BUFFER_LENGTH :: u32 where [simp]: "GPS_NMEA_FRAME_BUFFER_LENGTH = 1024"
definition GPS_DATA_BUFFER_MAX_LENGTH :: u32 where [simp]: "GPS_DATA_BUFFER_MAX_LENGTH = 2048"

definition GPS_CMD_HEADER :: cstr where "GPS_CMD_HEADER = ''$PGKC''"
definition GPS_CMD_BINARY_HEADER :: "char list" where "GPS_CMD_BINARY_HEADER = [char_of (0xaa :: nat), char_of (0xf0 :: nat)]"

definition Hex_Str :: cstr where "Hex_Str = ''0123456789ABCDEF''"

datatype GPS_CMD_t =
    GPS_CMD_FAIL | GPS_CMD_ACK | GPS_CMD_ACK_GPD | GPS_CMD_REBOOT | GPS_CMD_ERASE_INFO_IN_FLASH
  | GPS_CMD_STANDBY_MODE | GPS_CMD_NMEA_OUTPUT_INTERVAL | GPS_CMD_LP_MODE | GPS_CMD_NMEA_OUTPUT_QZSS
  | GPS_CMD_QZSS | GPS_CMD_SEARCH_MODE | GPS_CMD_FORMAT | GPS_CMD_SBAS | GPS_CMD_NMEA_OUTPUT_FREQ
  | GPS_CMD_SET_RTC_TIME | GPS_CMD_GET_VERSION | GPS_CMD_ACK_VERSION | GPS_CMD_GPD_PACK
  | GPS_CMD_SET_LOCATION_TIME | GPS_CMD_FIX_MODE

primrec cmd_num :: "GPS_CMD_t \<Rightarrow> nat" where
  "cmd_num GPS_CMD_FAIL = 0"
| "cmd_num GPS_CMD_ACK = 1"
| "cmd_num GPS_CMD_ACK_GPD = 3"
| "cmd_num GPS_CMD_REBOOT = 30"
| "cmd_num GPS_CMD_ERASE_INFO_IN_FLASH = 40"
| "cmd_num GPS_CMD_STANDBY_MODE = 51"
| "cmd_num GPS_CMD_NMEA_OUTPUT_INTERVAL = 101"
| "cmd_num GPS_CMD_LP_MODE = 105"
| "cmd_num GPS_CMD_NMEA_OUTPUT_QZSS = 113"
| "cmd_num GPS_CMD_QZSS = 114"
| "cmd_num GPS_CMD_SEARCH_MODE = 115"
| "cmd_num GPS_CMD_FORMAT = 149"
| "cmd_num GPS_CMD_SBAS = 239"
| "cmd_num GPS_CMD_NMEA_OUTPUT_FREQ = 242"
| "cmd_num GPS_CMD_SET_RTC_TIME = 278"
| "cmd_num GPS_CMD_GET_VERSION = 462"
| "cmd_num GPS_CMD_ACK_VERSION = 463"
| "cmd_num GPS_CMD_GPD_PACK = 614"
| "cmd_num GPS_CMD_SET_LOCATION_TIME = 639"
| "cmd_num GPS_CMD_FIX_MODE = 786"

datatype GPS_CMD_Ack_t =
    GPS_CMD_ACK_FAIL | GPS_CMD_ACK_NOT_SUPPORT | GPS_CMD_ACK_EXEC_FAIL | GPS_CMD_ACK_EXEC_SUCCESS

primrec ack_num :: "GPS_CMD_Ack_t \<Rightarrow> nat" where
  "ack_num GPS_CMD_ACK_FAIL = 0"
| "ack_num GPS_CMD_ACK_NOT_SUPPORT = 1"
| "ack_num GPS_CMD_ACK_EXEC_FAIL = 2"
| "ack_num GPS_CMD_ACK_EXEC_SUCCESS = 3"

datatype GPS_Reboot_Mode_t = GPS_REBOOT_MODE_HOT | GPS_REBOOT_MODE_WARM | GPS_REBOOT_MODE_COLD
datatype GPS_STANDBY_Mode_t = GPS_STANDBY_MODE_STOP | GPS_STANDBY_MODE_SLEEP
datatype GPS_LP_Mode_t = GPS_LP_MODE_NORMAL | GPS_LP_MODE_LP | GPS_LP_MODE_SUPPER_LP
datatype GPS_Format_t = GPS_FORMAT_NMEA | GPS_FORMAT_BINARY
datatype GPS_Fix_Mode_t = GPS_FIX_MODE_NORMAL | GPS_FIX_MODE_LOW_SPEED | GPS_FIX_MODE_HIGH_SPEED | GPS_FIX_MODE_ELEVATION

primrec reboot_num :: "GPS_Reboot_Mode_t \<Rightarrow> int" where
  "reboot_num GPS_REBOOT_MODE_HOT = 1"
| "reboot_num GPS_REBOOT_MODE_WARM = 2"
| "reboot_num GPS_REBOOT_MODE_COLD = 3"
primrec standby_num :: "GPS_STANDBY_Mode_t \<Rightarrow> int" where
  "standby_num GPS_STANDBY_MODE_STOP = 0"
| "standby_num GPS_STANDBY_MODE_SLEEP = 1"
primrec lp_num :: "GPS_LP_Mode_t \<Rightarrow> int" where
  "lp_num GPS_LP_MODE_NORMAL = 0"
| "lp_num GPS_LP_MODE_LP = 8"
| "lp_num GPS_LP_MODE_SUPPER_LP = 9"
primrec fix_num :: "GPS_Fix_Mode_t \<Rightarrow> int" where
  "fix_num GPS_FIX_MODE_NORMAL = 0"
| "fix_num GPS_FIX_MODE_LOW_SPEED = 1"
| "fix_num GPS_FIX_MODE_HIGH_SPEED = 2"
| "fix_num GPS_FIX_MODE_ELEVATION = 3"

record GPS_NMEA_Output_Freq_t =
  fq_gll :: u8
  fq_rmc :: u8
  fq_vtg :: u8
  fq_gga :: u8
  fq_gsa :: u8
  fq_gsv :: u8
  fq_grs :: u8
  fq_gst :: u8

record gps_state =
  isCmdSendTimeOut :: bool
  semCmdSending :: "nat option"
  gpsNmeaBuffer :: Buffer_t
  gpsAckMsg :: "char list option"
  gps_parse :: parse_state

record gps_env =
  env_cfg :: cfg_state
  env_open :: "cstr option \<Rightarrow> bool"           \<comment> \<open>\<open>API_FS_Open\<close> of the log path\<close>
  env_write :: "cstr \<Rightarrow> int"                  \<comment> \<open>\<open>API_FS_Write\<close>\<close>
  env_malloc :: bool
  env_gcvt :: "fpv \<Rightarrow> cstr"                   \<comment> \<open>\<open>gcvt(value, 6, ...)\<close>\<close>

definition GPS_Init :: "gps_state \<Rightarrow> gps_state" where
  "GPS_Init st = st\<lparr>gpsNmeaBuffer := Buffer_Init GPS_DATA_BUFFER_MAX_LENGTH\<rparr>"

section \<open>The log file\<close>

definition log_path :: "gps_env \<Rightarrow> cstr option" where
  "log_path env = (case gpsLogPath (env_cfg env) of
     PathNull \<Rightarrow> None | PathConfig \<Rightarrow> Some (gps_log_file (g_ConfigStore (env_cfg env))))"

definition GPS_ClearLog :: "gps_env \<Rightarrow> bool" where
  "GPS_ClearLog env = env_open env (log_path env)"

definition GPS_Send :: "char list \<Rightarrow> effect list" where
  "GPS_Send cmd = [GpsUart cmd]"

definition SaveToTFCard :: "gps_env \<Rightarrow> cstr \<Rightarrow> bool \<times> effect list" where
  "SaveToTFCard env str =
     (if \<not> env_open env (log_path env) then (False, [])
      else (\<not> env_write env str \<le> 0, [FsWrite (case log_path env of None \<Rightarrow> [] | Some p \<Rightarrow> p) str]))"

section \<open>Received data\<close>

text \<open>Outside a command: every frame up to the line end after a VTG sentence is parsed.\<close>

definition query :: "Buffer_t \<Rightarrow> char list \<Rightarrow> u16 \<Rightarrow> int" where
  "query b data start = Buffer_Query b data (of_nat (length data)) start"

partial_function (option) update_loop :: "gps_env \<Rightarrow> gps_state \<Rightarrow> effect list \<Rightarrow> (gps_state \<times> effect list) option" where
  "update_loop env st out =
     (let b = gpsNmeaBuffer st; index = query b ''VTG'' (ucast (Buffer_StartPostion b)) in
      if index \<ge> 0 then
        let index' = query b CRLF (of_int index) in
        if index' \<ge> 0 then
          let len = Buffer_Size2 b (of_int index') + 1;
              (ok, data, b') = Buffer_Gets b
                (ucast (if len > GPS_NMEA_FRAME_BUFFER_LENGTH then GPS_NMEA_FRAME_BUFFER_LENGTH else len))
          in if \<not> ok then Some (st, out)
             else
               let tmp = cstr_of data;
                   out' = (if isSaveLog (env_cfg env) then out @ snd (SaveToTFCard env tmp) else out);
                   p = snd (GPS_Parse tmp (gps_parse st))
               in update_loop env (st\<lparr>gpsNmeaBuffer := b', gps_parse := p\<rparr>) out'
        else update_loop env st out
      else Some (st, out))"

text \<open>During a command: the message from its header on is handed over and the semaphore
  released. \<open>find_header\<close> is the search for the header in the bytes taken from the buffer.\<close>

definition take_message ::
  "gps_env \<Rightarrow> (char list \<Rightarrow> nat option) \<Rightarrow> int \<Rightarrow> gps_state \<Rightarrow> gps_state option" where
  "take_message env find_header index2 st =
     (let b = gpsNmeaBuffer st;
          len = Buffer_Size2 b (of_int index2) + 1;
          n = (if len > GPS_NMEA_FRAME_BUFFER_LENGTH then GPS_NMEA_FRAME_BUFFER_LENGTH else len);
          (ok, tmp, b') = Buffer_Gets b (ucast n)
      in if \<not> ok then Some st
         else
           let st' = st\<lparr>gpsNmeaBuffer := b'\<rparr> in
           case semCmdSending st of
             None \<Rightarrow> Some st'
           | Some k \<Rightarrow>
               (case find_header tmp of
                  None \<Rightarrow> None
                | Some i \<Rightarrow> Some (if env_malloc env
                    then st'\<lparr>gpsAckMsg := Some (drop i tmp), semCmdSending := Some (k + 1)\<rparr>
                    else st')))"

definition text_header :: "char list \<Rightarrow> nat option" where
  "text_header tmp = map_option (\<lambda>(pre, _). length pre) (strstr (cstr_of tmp) GPS_CMD_HEADER)"

definition binary_header :: "char list \<Rightarrow> nat option" where
  "binary_header tmp = map_option (\<lambda>(pre, _). length pre) (strstr tmp GPS_CMD_BINARY_HEADER)"

definition update_command :: "gps_env \<Rightarrow> gps_state \<Rightarrow> gps_state option" where
  "update_command env st =
     (let b = gpsNmeaBuffer st; start = ucast (Buffer_StartPostion b);
          index = query b GPS_CMD_HEADER start in
      if index \<ge> 0 then
        let index2 = query b CRLF (of_int index) in
        if index2 \<ge> 0 then take_message env text_header index2 st else Some st
      else
        let index = query b GPS_CMD_BINARY_HEADER start in
        if index \<ge> 0 then
          let index2 = query b CRLF (of_int index) in
          if index2 \<ge> 0 then take_message env binary_header index2 st else Some st
        else Some st)"

definition GPS_Update :: "gps_env \<Rightarrow> char list \<Rightarrow> u32 \<Rightarrow> gps_state \<Rightarrow> (gps_state \<times> effect list) option" where
  "GPS_Update env data len st0 =
     (let (ret, b) = Buffer_Puts (gpsNmeaBuffer st0) data (ucast len); st = st0\<lparr>gpsNmeaBuffer := b\<rparr>
      in if semCmdSending st = None then update_loop env st []
         else map_option (\<lambda>st'. (st', [])) (update_command env st))"

section \<open>Checksums and acknowledgements\<close>

text \<open>
  Bytes are of type \<open>char\<close>, read as unsigned; \<open>byte_at\<close> reads a byte of a message, zero past
  its end. The loop of \<open>GPS_CheckParity\<close> runs to the first asterisk from index 2 on; the
  result \<open>None\<close> stands for a string without one there, where the C loop leaves the string.
\<close>

definition byte_at :: "char list \<Rightarrow> nat \<Rightarrow> u8" where
  "byte_at s i = (if i < length s then byte (s ! i) else 0)"

definition hex_digit :: "u8 \<Rightarrow> char" where
  "hex_digit x = Hex_Str ! unat x"

fun xor_to_star :: "u8 \<Rightarrow> cstr \<Rightarrow> (u8 \<times> cstr) option" where
  "xor_to_star result [] = None"
| "xor_to_star result (c # cs) = (if c = CHR ''*'' then Some (result, cs) else xor_to_star (result XOR byte c) cs)"

definition GPS_CheckParity :: "cstr option \<Rightarrow> bool option" where
  "GPS_CheckParity str = (case str of None \<Rightarrow> Some False
     | Some s \<Rightarrow>
       if strstr s ''*'' = None then Some False
       else map_option (\<lambda>(result, rest).
           hex_digit (drop_bit 4 result) = at_ptr rest \<and> hex_digit (result AND 0x0f) = at_ptr (tl rest))
         (xor_to_star (byte_at s 1) (drop 2 s)))"

definition word_at :: "char list \<Rightarrow> nat \<Rightarrow> u16" where
  "word_at s i = ucast (byte_at s i) OR push_bit 8 (ucast (byte_at s (i + 1)))"

definition xor_range :: "u8 \<Rightarrow> char list \<Rightarrow> nat \<Rightarrow> nat \<Rightarrow> u8" where
  "xor_range r s lo hi = foldl (\<lambda>r i. r XOR byte_at s i) r [lo..<hi]"

definition GPS_CheckParityBinary :: "char list \<Rightarrow> bool" where
  "GPS_CheckParityBinary data =
     (let len = word_at data 2 - 3
      in xor_range (byte_at data 2) data 3 (unat len) = byte_at data (unat len))"

definition GPS_IsCMDValid :: "u16 \<Rightarrow> bool" where
  "GPS_IsCMDValid cmd \<longleftrightarrow> unat cmd \<in> set (map cmd_num
     [GPS_CMD_ACK, GPS_CMD_ACK_GPD, GPS_CMD_REBOOT, GPS_CMD_ERASE_INFO_IN_FLASH, GPS_CMD_STANDBY_MODE,
      GPS_CMD_NMEA_OUTPUT_INTERVAL, GPS_CMD_LP_MODE, GPS_CMD_NMEA_OUTPUT_QZSS, GPS_CMD_QZSS,
      GPS_CMD_SEARCH_MODE, GPS_CMD_FORMAT, GPS_CMD_SBAS, GPS_CMD_NMEA_OUTPUT_FREQ, GPS_CMD_SET_RTC_TIME,
      GPS_CMD_GET_VERSION, GPS_CMD_ACK_VERSION, GPS_CMD_GPD_PACK, GPS_CMD_SET_LOCATION_TIME, GPS_CMD_FIX_MODE])"

definition GPS_IsCMDACKValid :: "u8 \<Rightarrow> bool" where
  "GPS_IsCMDACKValid ack \<longleftrightarrow> unat ack \<in> set (map ack_num
     [GPS_CMD_ACK_FAIL, GPS_CMD_ACK_NOT_SUPPORT, GPS_CMD_ACK_EXEC_FAIL, GPS_CMD_ACK_EXEC_SUCCESS])"

text \<open>A number that passed the check, cast to the enumeration: results stay numbers.\<close>

definition GPS_GetAckCmd :: "cstr \<Rightarrow> u16" where
  "GPS_GetAckCmd str = (case strstr str GPS_CMD_HEADER of
     None \<Rightarrow> of_nat (cmd_num GPS_CMD_FAIL)
   | Some (_, index) \<Rightarrow>
       let d = (\<lambda>i. int (unat (byte_at index i)) - 48);
           ackCmd0 = of_int (d 5 * 100 + d 6 * 10 + d 7)
       in if \<not> GPS_IsCMDValid ackCmd0 then of_nat (cmd_num GPS_CMD_FAIL) else ackCmd0)"

definition GPS_GetAckCmdBinary :: "char list \<Rightarrow> u16" where
  "GPS_GetAckCmdBinary data =
     (if take 2 data \<noteq> GPS_CMD_BINARY_HEADER then of_nat (cmd_num GPS_CMD_FAIL)
      else let ackCmd0 = word_at data 4
           in if \<not> GPS_IsCMDValid ackCmd0 then of_nat (cmd_num GPS_CMD_FAIL) else ackCmd0)"

text \<open>\<open>ackCmd = ackCmd*10 + (*index-'0')\<close> in 16 bits.\<close>

definition ack_digits :: "cstr \<Rightarrow> u16" where
  "ack_digits ds = foldl (\<lambda>a c. a * 10 + (of_nat (code c) - 48)) 0 ds"

definition GPS_AckCheck :: "char list \<Rightarrow> GPS_CMD_t \<Rightarrow> nat" where
  "GPS_AckCheck ackStr cmdSend =
     (let parsed =
        (if take 2 ackStr = GPS_CMD_BINARY_HEADER then Some (word_at ackStr 6, byte_at ackStr 8)
         else case strstr (cstr_of ackStr) GPS_CMD_HEADER of
           None \<Rightarrow> None
         | Some (_, index) \<Rightarrow>
           (case strstr (drop (length GPS_CMD_HEADER) index) '','' of
              None \<Rightarrow> None
            | Some (_, index1) \<Rightarrow>
              (case strstr (tl index1) '','' of
                 None \<Rightarrow> None
               | Some (digits, index2) \<Rightarrow> Some (ack_digits digits, byte_at index2 1 - 48))))
      in case parsed of
           None \<Rightarrow> ack_num GPS_CMD_ACK_FAIL
         | Some (ackCmd, result) \<Rightarrow>
             if \<not> GPS_IsCMDValid ackCmd then ack_num GPS_CMD_ACK_FAIL
             else if ackCmd \<noteq> of_nat (cmd_num cmdSend) then ack_num GPS_CMD_ACK_FAIL
             else if \<not> GPS_IsCMDACKValid result then ack_num GPS_CMD_ACK_FAIL
             else unat result)"

section \<open>Commands\<close>

text \<open>
  \<open>GPS_CMDSend\<close> appends the checksum to the text (respectively writes it into the last three
  bytes of the binary message, whose length is in its header) and sends the whole; the
  result is the message as the caller's array then holds it.
\<close>

definition text_checksum :: "cstr \<Rightarrow> u8" where
  "text_checksum str = foldl (\<lambda>r c. r XOR byte c) (byte_at str 1) (drop 2 str)"

definition GPS_CMDSend :: "char list \<Rightarrow> GPS_Format_t \<Rightarrow> gps_state \<Rightarrow> char list \<times> gps_state \<times> effect list" where
  "GPS_CMDSend str format st =
     (case format of
        GPS_FORMAT_NMEA \<Rightarrow>
          let result = text_checksum str;
              msg = str @ [CHR ''*'', hex_digit (drop_bit 4 result), hex_digit (result AND 0x0f)] @ CRLF
          in (msg, st\<lparr>gpsNmeaBuffer := Buffer_Clear (gpsNmeaBuffer st)\<rparr>, GPS_Send msg)
      | GPS_FORMAT_BINARY \<Rightarrow>
          let len = unat (word_at str 2 - 3); result = xor_range (byte_at str 2) str 3 len;
              msg = str[len := char_of (unat result), len + 1 := CR, len + 2 := LF]
          in (msg, st, GPS_Send (take (len + 3) msg)))"

definition OnCmdAckFail :: "gps_state \<Rightarrow> gps_state" where
  "OnCmdAckFail st = st\<lparr>isCmdSendTimeOut := True, semCmdSending := map_option Suc (semCmdSending st)\<rparr>"

text \<open>
  The wait for the semaphore: the chunks the receiver delivers during the wait are handled by
  \<open>GPS_Update\<close> in the event task, until one releases the semaphore; if none does the timer
  calls \<open>OnCmdAckFail\<close>.
\<close>

fun wait_semaphore :: "gps_env \<Rightarrow> char list list \<Rightarrow> gps_state \<Rightarrow> (gps_state \<times> effect list) option" where
  "wait_semaphore env [] st = Some (if semCmdSending st = Some 0 then OnCmdAckFail st else st, [])"
| "wait_semaphore env (chunk # chunks) st =
     (if semCmdSending st \<noteq> Some 0 then Some (st, [])
      else case GPS_Update env chunk (of_nat (length chunk)) st of
             None \<Rightarrow> None
           | Some (st', e) \<Rightarrow> map_option (\<lambda>(s, e'). (s, e @ e')) (wait_semaphore env chunks st'))"

definition GPS_SendCMDWaitAck ::
  "gps_env \<Rightarrow> char list list \<Rightarrow> char list \<Rightarrow> GPS_Format_t \<Rightarrow> nat \<Rightarrow> gps_state \<Rightarrow>
   (u16 \<times> char list option \<times> char list \<times> gps_state \<times> effect list) option" where
  "GPS_SendCMDWaitAck env rx cmdStr format timeout st0 =
     (let st1 = st0\<lparr>isCmdSendTimeOut := False, semCmdSending := Some 0\<rparr>;
          (msg, st2, e1) = GPS_CMDSend cmdStr format st1;
          fail = of_nat (cmd_num GPS_CMD_FAIL)
      in case wait_semaphore env rx st2 of
           None \<Rightarrow> None
         | Some (st3, e2) \<Rightarrow>
             let st4 = st3\<lparr>semCmdSending := None\<rparr>; e = e1 @ [StartTimer timeout ''OnCmdAckFail''] @ e2
             in if isCmdSendTimeOut st4 then Some (fail, None, msg, st4, e)
                else
                  let e' = e @ [StopTimer ''OnCmdAckFail''] in
                  (case gpsAckMsg st4 of
                     None \<Rightarrow> None
                   | Some ack \<Rightarrow>
                       if take 2 ack = GPS_CMD_BINARY_HEADER then
                         (if \<not> GPS_CheckParityBinary ack then Some (fail, None, msg, st4, e')
                          else Some (GPS_GetAckCmdBinary ack, Some ack, msg, st4, e'))
                       else
                         let a = map_option snd (strstr (cstr_of ack) GPS_CMD_HEADER) in
                         (case GPS_CheckParity a of
                            None \<Rightarrow> None
                          | Some ok \<Rightarrow>
                              if \<not> ok then Some (fail, None, msg, st4, e')
                              else Some (GPS_GetAckCmd (the a), a, msg, st4, e'))))"

definition GPS_SendWaiteNormalAck ::
  "gps_env \<Rightarrow> char list list \<Rightarrow> GPS_CMD_t \<Rightarrow> char list \<Rightarrow> GPS_Format_t \<Rightarrow> nat \<Rightarrow> gps_state \<Rightarrow>
   (bool \<times> gps_state \<times> effect list) option" where
  "GPS_SendWaiteNormalAck env rx cmdSend cmdStr format timeout st =
     map_option (\<lambda>(ackCmd, ackStr, msg, st', e).
       let done = (\<lambda>b. (b, st'\<lparr>gpsAckMsg := None\<rparr>, e)); a = (case ackStr of None \<Rightarrow> [] | Some s \<Rightarrow> s) in
       if ackCmd \<noteq> of_nat (cmd_num GPS_CMD_ACK) \<and> ackCmd \<noteq> of_nat (cmd_num GPS_CMD_ACK_GPD) then done False
       else if ackCmd = of_nat (cmd_num GPS_CMD_ACK_GPD) then
         (if byte_at msg 6 \<noteq> byte_at a 6 \<or> byte_at msg 7 \<noteq> byte_at a 7 \<or> byte_at a 8 \<noteq> 1 then done False
          else done True)
       else if GPS_AckCheck a cmdSend \<noteq> ack_num GPS_CMD_ACK_EXEC_SUCCESS then done False
       else done True)
     (GPS_SendCMDWaitAck env rx cmdStr format timeout st)"

section \<open>Settings\<close>

text \<open>Each setting formats its command into \<open>temp\<close> and waits for the acknowledgement.\<close>

definition send_nmea ::
  "gps_env \<Rightarrow> char list list \<Rightarrow> GPS_CMD_t \<Rightarrow> cstr \<Rightarrow> fmtarg list \<Rightarrow> nat \<Rightarrow> gps_state \<Rightarrow> (bool \<times> gps_state \<times> effect list) option" where
  "send_nmea env rx cmdSend fmt args timeout st =
     GPS_SendWaiteNormalAck env rx cmdSend
       (snprintf GPS_BUFFER_MAX_LENGTH fmt (AStr GPS_CMD_HEADER # AInt (int (cmd_num cmdSend)) # args))
       GPS_FORMAT_NMEA timeout st"

definition bool_num :: "bool \<Rightarrow> int" where "bool_num b = (if b then 1 else 0)"

definition GPS_Reboot :: "gps_env \<Rightarrow> char list list \<Rightarrow> GPS_Reboot_Mode_t \<Rightarrow> gps_state \<Rightarrow> (bool \<times> gps_state \<times> effect list) option" where
  "GPS_Reboot env rx mode st =
     send_nmea env rx GPS_CMD_REBOOT ''%s%03d,%d,%d'' [AInt (reboot_num mode), AInt 1] GPS_TIME_OUT_CMD st"

definition GPS_ClearInfoInFlash :: "gps_env \<Rightarrow> char list list \<Rightarrow> gps_state \<Rightarrow> (bool \<times> gps_state \<times> effect list) option" where
  "GPS_ClearInfoInFlash env rx st = send_nmea env rx GPS_CMD_ERASE_INFO_IN_FLASH ''%s%03d'' [] 5000 st"

definition GPS_SetStandbyMode :: "gps_env \<Rightarrow> char list list \<Rightarrow> GPS_STANDBY_Mode_t \<Rightarrow> gps_state \<Rightarrow> (bool \<times> gps_state \<times> effect list) option" where
  "GPS_SetStandbyMode env rx mode st =
     send_nmea env rx GPS_CMD_STANDBY_MODE ''%s%03d,%d'' [AInt (standby_num mode)] GPS_TIME_OUT_CMD st"

definition GPS_SetOutputInterval :: "gps_env \<Rightarrow> char list list \<Rightarrow> u16 \<Rightarrow> gps_state \<Rightarrow> (bool \<times> gps_state \<times> effect list) option" where
  "GPS_SetOutputInterval env rx intervalMs st =
     send_nmea env rx GPS_CMD_NMEA_OUTPUT_INTERVAL ''%s%03d,%d'' [AInt (int (unat intervalMs))] GPS_TIME_OUT_CMD st"

definition GPS_SetLpMode :: "gps_env \<Rightarrow> char list list \<Rightarrow> GPS_LP_Mode_t \<Rightarrow> gps_state \<Rightarrow> (bool \<times> gps_state \<times> effect list) option" where
  "GPS_SetLpMode env rx mode st = send_nmea env rx GPS_CMD_LP_MODE ''%s%03d,%d'' [AInt (lp_num mode)] GPS_TIME_OUT_CMD st"

definition GPS_SetQzssOutput :: "gps_env \<Rightarrow> char list list \<Rightarrow> bool \<Rightarrow> gps_state \<Rightarrow> (bool \<times> gps_state \<times> effect list) option" where
  "GPS_SetQzssOutput env rx openOutput st =
     send_nmea env rx GPS_CMD_NMEA_OUTPUT_QZSS ''%s%03d,%d'' [AInt (bool_num openOutput)] GPS_TIME_OUT_CMD st"

definition GPS_SetQzssEnable :: "gps_env \<Rightarrow> char list list \<Rightarrow> bool \<Rightarrow> gps_state \<Rightarrow> (bool \<times> gps_state \<times> effect list) option" where
  "GPS_SetQzssEnable env rx enable st = send_nmea env rx GPS_CMD_QZSS ''%s%03d,%d'' [AInt (bool_num enable)] GPS_TIME_OUT_CMD st"

definition GPS_SetSearchMode ::
  "gps_env \<Rightarrow> char list list \<Rightarrow> bool \<Rightarrow> bool \<Rightarrow> bool \<Rightarrow> bool \<Rightarrow> gps_state \<Rightarrow> (bool \<times> gps_state \<times> effect list) option" where
  "GPS_SetSearchMode env rx gps glonass beidou galieo st =
     send_nmea env rx GPS_CMD_SEARCH_MODE ''%s%03d,%d,%d,%d,%d''
       (map (\<lambda>b. AInt (bool_num b)) [gps, glonass, beidou, galieo]) GPS_TIME_OUT_CMD st"

definition GPS_SetFormat :: "GPS_Format_t \<Rightarrow> bool" where
  "GPS_SetFormat format = False"

definition GPS_SetSBASEnable :: "gps_env \<Rightarrow> char list list \<Rightarrow> bool \<Rightarrow> gps_state \<Rightarrow> (bool \<times> gps_state \<times> effect list) option" where
  "GPS_SetSBASEnable env rx enable st = send_nmea env rx GPS_CMD_SBAS ''%s%03d,%d'' [AInt (bool_num enable)] GPS_TIME_OUT_CMD st"

definition GPS_SetNmeaOutputFreq ::
  "gps_env \<Rightarrow> char list list \<Rightarrow> GPS_NMEA_Output_Freq_t \<Rightarrow> gps_state \<Rightarrow> (bool \<times> gps_state \<times> effect list) option" where
  "GPS_SetNmeaOutputFreq env rx config st =
     send_nmea env rx GPS_CMD_NMEA_OUTPUT_FREQ
       ''%s%03d,%d,%d,%d,%d,%d,%d,%d,%d,%d,%d,%d,%d,%d,%d,%d,%d,%d,%d''
       (map (\<lambda>w. AInt (int (unat w)))
          [fq_gll config, fq_rmc config, fq_vtg config, fq_gga config, fq_gsa config, fq_gsv config,
           fq_grs config, fq_gst config, 0, 0, 0, 0, 0, 0, 0, 0, 0, 0]) GPS_TIME_OUT_CMD st"

definition time_args :: "RTC_Time_t \<Rightarrow> fmtarg list" where
  "time_args t = map AInt [rtc_year t, rtc_month t, rtc_day t, rtc_hour t, rtc_minute t, rtc_second t]"

definition GPS_SetRtcTime :: "gps_env \<Rightarrow> char list list \<Rightarrow> RTC_Time_t \<Rightarrow> gps_state \<Rightarrow> (bool \<times> gps_state \<times> effect list) option" where
  "GPS_SetRtcTime env rx t st =
     send_nmea env rx GPS_CMD_SET_RTC_TIME ''%s%03d,%d,%d,%d,%d,%d,%d'' (time_args t) GPS_TIME_OUT_CMD st"

text \<open>The version as written to the caller's buffer of \<open>len\<close> bytes; it starts with the comma.
  \<open>strstr\<close> of a null pointer, before the test for it, does not return.\<close>

definition GPS_GetVersion :: "gps_env \<Rightarrow> char list list \<Rightarrow> nat \<Rightarrow> gps_state \<Rightarrow> (cstr option \<times> gps_state \<times> effect list) option" where
  "GPS_GetVersion env rx len st =
     (case GPS_SendCMDWaitAck env rx
        (snprintf GPS_BUFFER_MAX_LENGTH ''%s%03d'' [AStr GPS_CMD_HEADER, AInt (int (cmd_num GPS_CMD_GET_VERSION))])
        GPS_FORMAT_NMEA GPS_TIME_OUT_CMD st of
        None \<Rightarrow> None
      | Some (ackCmd, ackStr, _, st', e) \<Rightarrow>
          let done = (\<lambda>v. Some (v, st'\<lparr>gpsAckMsg := None\<rparr>, e)) in
          if ackCmd \<noteq> of_nat (cmd_num GPS_CMD_ACK_VERSION) then done None
          else
            (case strstr (case ackStr of None \<Rightarrow> [] | Some s \<Rightarrow> s) '','' of
               None \<Rightarrow> None
             | Some (_, index) \<Rightarrow>
                 (case strstr index ''*'' of
                    None \<Rightarrow> done None
                  | Some (version, _) \<Rightarrow> done (Some (snprintf_trunc len version)))))"

definition GPS_SetLocationTime ::
  "gps_env \<Rightarrow> char list list \<Rightarrow> fpv \<Rightarrow> fpv \<Rightarrow> fpv \<Rightarrow> RTC_Time_t \<Rightarrow> gps_state \<Rightarrow> (bool \<times> gps_state \<times> effect list) option" where
  "GPS_SetLocationTime env rx latitude longitude altitude t st =
     send_nmea env rx GPS_CMD_SET_LOCATION_TIME ''%s%03d,%s,%s,%s,%d,%d,%d,%d,%d,%d''
       (map (\<lambda>v. AStr (env_gcvt env v)) [latitude, longitude, altitude] @ time_args t) GPS_TIME_OUT_CMD st"

definition GPS_SetFixMode :: "gps_env \<Rightarrow> char list list \<Rightarrow> GPS_Fix_Mode_t \<Rightarrow> gps_state \<Rightarrow> (bool \<times> gps_state \<times> effect list) option" where
  "GPS_SetFixMode env rx mode st = send_nmea env rx GPS_CMD_FIX_MODE ''%s%03d,%d'' [AInt (fix_num mode)] GPS_TIME_OUT_CMD st"

definition GPS_SetBinaryMode :: "gps_env \<Rightarrow> char list list \<Rightarrow> gps_state \<Rightarrow> (bool \<times> gps_state \<times> effect list) option" where
  "GPS_SetBinaryMode env rx st =
     send_nmea env rx GPS_CMD_FORMAT ''%s%03d,%d,%d'' [AInt 1, AInt 9600] GPS_TIME_OUT_CMD st"

text \<open>The binary messages: header, length, command number, payload and the three bytes that
  \<open>GPS_CMDSend\<close> fills in. Bytes of \<open>temp\<close> beyond the message are not read.\<close>

definition lo_hi :: "u16 \<Rightarrow> char list" where
  "lo_hi w = [char_of (unat (w AND 0xff)), char_of (unat (drop_bit 8 w))]"

definition binary_message :: "GPS_CMD_t \<Rightarrow> u16 \<Rightarrow> char list \<Rightarrow> char list" where
  "binary_message cmdSend len payload =
     GPS_CMD_BINARY_HEADER @ lo_hi len @ lo_hi (of_nat (cmd_num cmdSend)) @ payload @ replicate 3 NUL"

definition GPS_SetNMEAMode :: "gps_env \<Rightarrow> char list list \<Rightarrow> gps_state \<Rightarrow> (bool \<times> gps_state \<times> effect list) option" where
  "GPS_SetNMEAMode env rx st =
     (let baudrate = map char_of [0x80, 0x25, 0, 0 :: nat]
      in GPS_SendWaiteNormalAck env rx GPS_CMD_FORMAT (binary_message GPS_CMD_FORMAT 14 (NUL # baudrate))
           GPS_FORMAT_BINARY GPS_TIME_OUT_CMD st)"

definition GPS_SendGPDPack ::
  "gps_env \<Rightarrow> char list list \<Rightarrow> u16 \<Rightarrow> char list option \<Rightarrow> gps_state \<Rightarrow> (bool \<times> gps_state \<times> effect list) option" where
  "GPS_SendGPDPack env rx index pack st =
     (let len = (if index = 0xffff then 0x000b else 523)
      in GPS_SendWaiteNormalAck env rx GPS_CMD_GPD_PACK
           (binary_message GPS_CMD_GPD_PACK len (lo_hi index @ (case pack of None \<Rightarrow> [] | Some p \<Rightarrow> take 512 p)))
           GPS_FORMAT_BINARY GPS_TIME_OUT_CMD st)"

section \<open>Searching and cutting the queue\<close>

lemma unat_cell16: "buffer_wf b \<Longrightarrow> unat (of_nat (cell b k) :: u16) = cell b k"
  using cell_less [of b k] by (simp add: buffer_wf_def unat_u16)

lemma of_int_cell: "of_int (int (cell b k)) = of_nat (cell b k)"
  by simp

lemma unat_start16: "buffer_wf b \<Longrightarrow> unat (ucast (Buffer_StartPostion b) :: u16) = cell b 0"
  using StartPostion_cell [of b] cell_less [of b 0]
  by (simp add: unsigned_ucast_eq take_bit_nat_eq_self buffer_wf_def)

definition pattern_ok :: "char list \<Rightarrow> bool" where
  "pattern_ok pat \<longleftrightarrow> pat \<noteq> [] \<and> hd pat \<notin> set (tl pat) \<and> length pat \<le> 65535"

lemma pattern_ok_consts [simp]:
  "pattern_ok ''VTG''" "pattern_ok CRLF" "pattern_ok GPS_CMD_HEADER" "pattern_ok GPS_CMD_BINARY_HEADER"
  by (simp_all add: pattern_ok_def GPS_CMD_HEADER_def GPS_CMD_BINARY_HEADER_def)

lemma query_start:
  "buffer_wf b \<Longrightarrow> pattern_ok pat \<Longrightarrow> query b pat (ucast (Buffer_StartPostion b)) =
    (case strstr (contents b) pat of None \<Rightarrow> - 1 | Some (pre, _) \<Rightarrow> int (cell b (length pre)))"
  unfolding query_def pattern_ok_def
  by (subst Buffer_Query_drop [of b 0]) (simp_all add: unat_start16 cong: option.case_cong)

lemma query_from:
  assumes "buffer_wf b" "pattern_ok pat" "contents b = p @ u"
  shows "query b pat (of_int (int (cell b (length p)))) =
    (case strstr u pat of None \<Rightarrow> - 1 | Some (q, _) \<Rightarrow> int (cell b (length p + length q)))"
  unfolding query_def of_int_cell
  by (subst Buffer_Query_drop [of b "length p"])
    (use assms in \<open>simp_all add: unat_cell16 pattern_ok_def cong: option.case_cong\<close>)

definition frame_len :: "nat \<Rightarrow> nat" where
  "frame_len n = min 1024 n"

text \<open>What the driver takes from the queue when it found a line end.\<close>

lemma cut_line:
  assumes "buffer_wf b" "contents b = x @ CRLF @ r"
    "len = Buffer_Size2 b (of_int (int (cell b (length x)))) + 1"
  shows "\<exists>b'. Buffer_Gets b (ucast (if len > GPS_NMEA_FRAME_BUFFER_LENGTH then GPS_NMEA_FRAME_BUFFER_LENGTH else len)) =
      (True, take (frame_len (length x + 2)) (contents b), b') \<and>
    buffer_wf b' \<and> maxSize b' = maxSize b \<and> contents b' = drop (frame_len (length x + 2)) (contents b)"
proof -
  let ?n = "if len > GPS_NMEA_FRAME_BUFFER_LENGTH then GPS_NMEA_FRAME_BUFFER_LENGTH else len"
  let ?m = "frame_len (length x + 2)"
  have lc: "length (contents b) < 65536" using size_less_cap [OF assms(1)] assms(1)
    by (simp add: buffer_wf_def length_contents)
  have "length x < length (contents b)" by (simp add: assms(2))
  then have s: "unat (Buffer_Size2 b (of_nat (cell b (length x)))) = length x + 1"
    by (rule Size2_cell [OF assms(1)])
  have "unat len = length x + 2" unfolding assms(3) of_int_cell
    by (subst unat_add_lem [THEN iffD1]) (use s lc in \<open>simp_all add: assms(2)\<close>)
  then have n: "unat ?n = ?m" by (simp add: word_less_nat_alt frame_len_def min_def)
  then have "unat (ucast ?n :: u16) = ?m" by (simp add: unsigned_ucast_eq take_bit_nat_eq_self frame_len_def)
  moreover have "unat (of_nat ?m :: u16) = ?m" by (rule unat_u16) (simp add: frame_len_def)
  ultimately have u: "ucast ?n = (of_nat ?m :: u16)" by (simp only: u16_eq_iff)
  have "?m \<le> 65535" "?m \<le> length (contents b)" by (simp_all add: assms(2) frame_len_def)
  then show ?thesis using Buffer_Gets_ok [OF assms(1), of ?m] unfolding u by blast
qed

section \<open>Frames of received data\<close>

text \<open>The specification of the receiving loop on the queue as a list: the frames it takes
  and what it leaves; \<open>None\<close> when a VTG sentence is not finished.\<close>

function frames :: "char list \<Rightarrow> (char list list \<times> char list) option" where
  "frames c =
     (case strstr c ''VTG'' of
        None \<Rightarrow> Some ([], c)
      | Some (p, u) \<Rightarrow>
          (case strstr u CRLF of
             None \<Rightarrow> None
           | Some (q, _) \<Rightarrow>
               let n = frame_len (length p + length q + 2) in
               map_option (\<lambda>(fs, r). (take n c # fs, r)) (frames (drop n c))))"
  by pat_completeness auto
termination
  by (relation "measure length") (auto dest!: strstr_append simp: is_prefix_append frame_len_def)

declare frames.simps [simp del]

definition log_frame :: "gps_env \<Rightarrow> char list \<Rightarrow> effect list" where
  "log_frame env f = (if isSaveLog (env_cfg env) then snd (SaveToTFCard env (cstr_of f)) else [])"

definition parse_frame :: "char list \<Rightarrow> parse_state \<Rightarrow> parse_state" where
  "parse_frame f ps = snd (GPS_Parse (cstr_of f) ps)"

lemma update_loop_step:
  assumes "buffer_wf (gpsNmeaBuffer st)" "strstr (contents (gpsNmeaBuffer st)) ''VTG'' = Some (p, u)"
    "strstr u CRLF = Some (q, r)" "n = frame_len (length p + length q + 2)" "c = contents (gpsNmeaBuffer st)"
  shows "\<exists>b'. buffer_wf b' \<and> maxSize b' = maxSize (gpsNmeaBuffer st) \<and> contents b' = drop n c \<and>
    update_loop env st out = update_loop env
      (st\<lparr>gpsNmeaBuffer := b', gps_parse := parse_frame (take n c) (gps_parse st)\<rparr>) (out @ log_frame env (take n c))"
proof -
  let ?b = "gpsNmeaBuffer st"
  have c: "contents ?b = p @ u" "u = q @ r" "is_prefix CRLF r" using assms(2,3) strstr_append by blast+
  then obtain r' where r: "r = CRLF @ r'" by (auto simp: is_prefix_append)
  have c': "contents ?b = (p @ q) @ CRLF @ r'" using c r by simp
  have i: "query ?b ''VTG'' (ucast (Buffer_StartPostion ?b)) = int (cell ?b (length p))"
    using query_start [OF assms(1)] assms(2) by simp
  have i': "query ?b CRLF (of_int (int (cell ?b (length p)))) = int (cell ?b (length (p @ q)))"
    using query_from [OF assms(1) _ c(1), of CRLF] assms(3) by simp
  obtain b' where b': "Buffer_Gets ?b (ucast (if Buffer_Size2 ?b (of_int (int (cell ?b (length (p @ q))))) + 1 >
        GPS_NMEA_FRAME_BUFFER_LENGTH then GPS_NMEA_FRAME_BUFFER_LENGTH
        else Buffer_Size2 ?b (of_int (int (cell ?b (length (p @ q))))) + 1)) = (True, take n c, b')"
    "buffer_wf b'" "maxSize b' = maxSize ?b" "contents b' = drop n c"
    using cut_line [OF assms(1) c' refl] assms(4,5) by auto
  have "update_loop env st out = update_loop env
      (st\<lparr>gpsNmeaBuffer := b', gps_parse := parse_frame (take n c) (gps_parse st)\<rparr>) (out @ log_frame env (take n c))"
    apply (subst update_loop.simps)
    unfolding i i' Let_def b'(1) prod.case
    by (simp add: log_frame_def parse_frame_def)
  then show ?thesis using b'(2-4) by blast
qed

lemma update_loop_frames:
  assumes "buffer_wf (gpsNmeaBuffer st)" "frames (contents (gpsNmeaBuffer st)) = Some (fs, r)"
  shows "\<exists>b'. buffer_wf b' \<and> maxSize b' = maxSize (gpsNmeaBuffer st) \<and> contents b' = r \<and>
    update_loop env st out = Some (st\<lparr>gpsNmeaBuffer := b', gps_parse := fold parse_frame fs (gps_parse st)\<rparr>,
      out @ concat (map (log_frame env) fs))"
  using assms
proof (induction "contents (gpsNmeaBuffer st)" arbitrary: st fs out rule: frames.induct)
  case 1
  let ?b = "gpsNmeaBuffer st" and ?c = "contents (gpsNmeaBuffer st)"
  show ?case
  proof (cases "strstr ?c ''VTG''")
    case None
    then have f: "fs = []" "r = ?c" using 1(3) by (simp_all add: frames.simps [of ?c])
    have "query ?b ''VTG'' (ucast (Buffer_StartPostion ?b)) = - 1" using query_start [OF 1(2)] None by simp
    then have "update_loop env st out = Some (st, out)" by (subst update_loop.simps) simp
    then show ?thesis using f 1(2) by (intro exI [of _ ?b]) simp
  next
    case (Some v)
    obtain p u where v: "v = (p, u)" by (cases v)
    note Some1 = Some [unfolded v]
    show ?thesis
    proof (cases "strstr u CRLF")
      case None
      then show ?thesis using 1(3) Some1 by (simp add: frames.simps [of ?c])
    next
      case (Some w)
      obtain q z where w: "w = (q, z)" by (cases w)
      define n where "n = frame_len (length p + length q + 2)"
      obtain fs' where fs: "frames (drop n ?c) = Some (fs', r)" "fs = take n ?c # fs'"
        using 1(3) Some1 Some w by (auto simp: frames.simps [of ?c] n_def Let_def)
      obtain b' where b': "buffer_wf b'" "maxSize b' = maxSize ?b" "contents b' = drop n ?c"
        "update_loop env st out = update_loop env
          (st\<lparr>gpsNmeaBuffer := b', gps_parse := parse_frame (take n ?c) (gps_parse st)\<rparr>) (out @ log_frame env (take n ?c))"
        using update_loop_step [OF 1(2) Some1 Some [unfolded w] n_def refl] by blast
      let ?st = "st\<lparr>gpsNmeaBuffer := b', gps_parse := parse_frame (take n ?c) (gps_parse st)\<rparr>"
      have "drop n ?c = contents (gpsNmeaBuffer ?st)" using b'(3) by simp
      then have "\<exists>b''. buffer_wf b'' \<and> maxSize b'' = maxSize b' \<and> contents b'' = r \<and>
          update_loop env ?st (out @ log_frame env (take n ?c)) =
            Some (?st\<lparr>gpsNmeaBuffer := b'', gps_parse := fold parse_frame fs' (gps_parse ?st)\<rparr>,
              (out @ log_frame env (take n ?c)) @ concat (map (log_frame env) fs'))"
        using 1(1) [OF Some1 refl Some w [symmetric] n_def, of ?st fs' "out @ log_frame env (take n ?c)"] b'(1,3) fs(1)
        by simp
      then show ?thesis using b'(2,4) fs(2) by auto
    qed
  qed
qed

text \<open>The loop does not return when a VTG sentence is not finished: it spins without change.\<close>

definition unfinished :: "char list \<Rightarrow> bool" where
  "unfinished c \<longleftrightarrow> (\<exists>p u. strstr c ''VTG'' = Some (p, u) \<and> strstr u CRLF = None)"

lemma update_loop_stuck:
  assumes "update_loop env st out = Some r"
  shows "buffer_wf (gpsNmeaBuffer st) \<longrightarrow> \<not> unfinished (contents (gpsNmeaBuffer st))"
proof (rule update_loop.raw_induct [OF _ assms], goal_cases)
  case (1 upd env st out r)
  show ?case
  proof (intro impI notI)
    assume w: "buffer_wf (gpsNmeaBuffer st)" and "unfinished (contents (gpsNmeaBuffer st))"
    then obtain p u where s: "strstr (contents (gpsNmeaBuffer st)) ''VTG'' = Some (p, u)" "strstr u CRLF = None"
      by (auto simp: unfinished_def)
    let ?b = "gpsNmeaBuffer st"
    have i: "query ?b ''VTG'' (ucast (Buffer_StartPostion ?b)) = int (cell ?b (length p))"
      using query_start [OF w] s(1) by simp
    have "contents ?b = p @ u" using strstr_append [OF s(1)] by simp
    then have "query ?b CRLF (of_int (int (cell ?b (length p)))) = - 1"
      using query_from [OF w _, of CRLF] s(2) by simp
    then have "upd env st out = Some r" using 1(2) by (simp add: i Let_def)
    from 1(1) [OF this] w s show False by (auto simp: unfinished_def)
  qed
qed

lemma frames_None:
  "frames c = None \<Longrightarrow> \<exists>d. unfinished d \<and> (\<exists>k. d = drop k c)"
proof (induction c rule: frames.induct)
  case (1 c)
  then obtain p u where s: "strstr c ''VTG'' = Some (p, u)" by (cases "strstr c ''VTG''") (auto simp: frames.simps [of c])
  show ?case
  proof (cases "strstr u CRLF")
    case None
    then show ?thesis using s by (intro exI [of _ c]) (auto simp: unfinished_def intro: exI [of _ 0])
  next
    case (Some w)
    obtain q z where w: "w = (q, z)" by (cases w)
    define n where "n = frame_len (length p + length q + 2)"
    have "frames (drop n c) = None" using 1(2) s Some w by (simp add: frames.simps [of c] n_def Let_def)
    then obtain d k where "unfinished d" "d = drop k (drop n c)"
      using 1(1) [OF s refl Some w [symmetric] n_def] by blast
    then show ?thesis by auto
  qed
qed

text \<open>The queue after a chunk was put into it; a chunk that does not fit is dropped.\<close>

definition queued :: "Buffer_t \<Rightarrow> char list \<Rightarrow> char list" where
  "queued b data = (if length data \<le> ring_room b then contents b @ data else contents b)"

lemma Puts_queued:
  assumes "buffer_wf b" "length data \<le> 65535"
  shows "\<exists>ok b'. Buffer_Puts b data (ucast (of_nat (length data) :: u32)) = (ok, b') \<and> buffer_wf b' \<and>
    maxSize b' = maxSize b \<and> contents b' = queued b data"
proof -
  have "unat (ucast (of_nat (length data) :: u32) :: u16) = length data"
    using assms(2) by (simp add: unsigned_ucast_eq unat_of_nat_u32 take_bit_nat_eq_self)
  moreover have "unat (of_nat (length data) :: u16) = length data" by (rule unat_u16) (rule assms(2))
  ultimately have u: "ucast (of_nat (length data) :: u32) = (of_nat (length data) :: u16)" by (simp only: u16_eq_iff)
  show ?thesis
  proof (cases "length data \<le> ring_room b")
    case True
    then show ?thesis using Buffer_Puts_ok [OF assms True] unfolding u queued_def by auto
  next
    case False
    then have "Buffer_Puts b data (of_nat (length data)) = (False, b)"
      by (simp add: Buffer_Puts_def Puts_guard [OF assms])
    then show ?thesis using assms(1) False unfolding u queued_def by auto
  qed
qed

lemma GPS_Update_frames_state:
  assumes "buffer_wf (gpsNmeaBuffer st)" "semCmdSending st = None" "length data \<le> 65535"
    "frames (queued (gpsNmeaBuffer st) data) = Some (fs, r)"
  shows "\<exists>b'. buffer_wf b' \<and> maxSize b' = maxSize (gpsNmeaBuffer st) \<and> contents b' = r \<and>
    GPS_Update env data (of_nat (length data)) st =
      Some (st\<lparr>gpsNmeaBuffer := b', gps_parse := fold parse_frame fs (gps_parse st)\<rparr>, concat (map (log_frame env) fs))"
proof -
  obtain ok b where b: "Buffer_Puts (gpsNmeaBuffer st) data (ucast (of_nat (length data) :: u32)) = (ok, b)"
    "buffer_wf b" "maxSize b = maxSize (gpsNmeaBuffer st)" "contents b = queued (gpsNmeaBuffer st) data"
    using Puts_queued [OF assms(1,3)] by blast
  then show ?thesis
    using update_loop_frames [of "st\<lparr>gpsNmeaBuffer := b\<rparr>" fs r env "[]"] assms(2,4)
    by (auto simp: GPS_Update_def)
qed

text \<open>C15. While no command is under way \<open>GPS_Update\<close> refines the list specification \<open>frames\<close>:
  when every VTG sentence in the queue is finished it returns, each frame (up to and
  including the line end after a VTG sentence, at most 1024 bytes) was logged if logging is
  on and parsed once and in order, and the queue keeps exactly the bytes after the last
  frame, wherever the ring buffer wraps.\<close>

theorem GPS_Update_frames:
  assumes "buffer_wf (gpsNmeaBuffer st)" "semCmdSending st = None" "length data \<le> 65535"
    "frames (queued (gpsNmeaBuffer st) data) = Some (fs, r)"
  shows "\<exists>b'. buffer_wf b' \<and> maxSize b' = maxSize (gpsNmeaBuffer st) \<and> contents b' = r \<and>
    GPS_Update env data (of_nat (length data)) st =
      Some (st\<lparr>gpsNmeaBuffer := b', gps_parse := fold parse_frame fs (gps_parse st)\<rparr>, concat (map (log_frame env) fs))"
  using assms by (rule GPS_Update_frames_state)

text \<open>The driver after start-up.\<close>

definition gps_boot :: gps_state where
  "gps_boot = GPS_Init \<lparr>isCmdSendTimeOut = False, semCmdSending = None,
     gpsNmeaBuffer = \<lparr>front = 0, rear = 0, bufferData = [], maxSize = 0\<rparr>, gpsAckMsg = None, gps_parse = parse_init\<rparr>"

lemma boot_buffer:
  "buffer_wf (gpsNmeaBuffer gps_boot)" "contents (gpsNmeaBuffer gps_boot) = []"
  "maxSize (gpsNmeaBuffer gps_boot) = 2048" "ring_room (gpsNmeaBuffer gps_boot) = 2047"
  "semCmdSending gps_boot = None" "gps_parse gps_boot = parse_init"
proof -
  have w: "buffer_wf (Buffer_Init 2048)" "contents (Buffer_Init 2048) = []" using wf_Buffer_Init [of 2048] by simp_all
  moreover have m: "maxSize (Buffer_Init 2048) = 2048" by (simp add: Buffer_Init_def)
  moreover have "unat (Buffer_Size (Buffer_Init 2048)) = 0" using w(2) contents_Nil_size by blast
  ultimately show "buffer_wf (gpsNmeaBuffer gps_boot)" "contents (gpsNmeaBuffer gps_boot) = []"
    "maxSize (gpsNmeaBuffer gps_boot) = 2048" "ring_room (gpsNmeaBuffer gps_boot) = 2047"
    "semCmdSending gps_boot = None" "gps_parse gps_boot = parse_init"
    by (simp_all add: gps_boot_def GPS_Init_def)
qed

lemma queued_boot: "length data \<le> 2047 \<Longrightarrow> queued (gpsNmeaBuffer gps_boot) data = data"
  unfolding queued_def boot_buffer(2,4) by simp

lemma GPS_Update_frames_witness:
  "\<forall>env. \<exists>b'. contents b' = ''$'' \<and>
     GPS_Update env (''$GPVTG,K*00'' @ CRLF @ ''$'') (of_nat (length (''$GPVTG,K*00'' @ CRLF @ ''$''))) gps_boot =
       Some (gps_boot\<lparr>gpsNmeaBuffer := b', gps_parse := parse_frame (''$GPVTG,K*00'' @ CRLF) parse_init\<rparr>,
         log_frame env (''$GPVTG,K*00'' @ CRLF))"
proof
  fix env
  let ?d = "''$GPVTG,K*00'' @ CRLF @ ''$''"
  have "frames ''$'' = Some ([], ''$'')" by (subst frames.simps) simp
  then have "frames ?d = Some ([''$GPVTG,K*00'' @ CRLF], ''$'')"
    by (subst frames.simps) (simp add: frame_len_def)
  moreover have "queued (gpsNmeaBuffer gps_boot) ?d = ?d" by (rule queued_boot) simp
  ultimately show "\<exists>b'. contents b' = ''$'' \<and> GPS_Update env ?d (of_nat (length ?d)) gps_boot =
       Some (gps_boot\<lparr>gpsNmeaBuffer := b', gps_parse := parse_frame (''$GPVTG,K*00'' @ CRLF) parse_init\<rparr>,
         log_frame env (''$GPVTG,K*00'' @ CRLF))"
    using GPS_Update_frames [of gps_boot ?d "[''$GPVTG,K*00'' @ CRLF]" "''$''" env] boot_buffer by auto
qed

text \<open>\<open>GPS_Update\<close> never returns when the queue holds "VTG" but not yet the end of that
  line: the inner search fails and the loop starts over with an unchanged queue, so a VTG
  sentence that arrives in two pieces stops the event task.\<close>

lemma GPS_Update_hangs:
  assumes "buffer_wf (gpsNmeaBuffer st)" "semCmdSending st = None" "length data \<le> 65535"
    "unfinished (queued (gpsNmeaBuffer st) data)"
  shows "GPS_Update env data (of_nat (length data)) st = None"
proof -
  obtain ok b where b: "Buffer_Puts (gpsNmeaBuffer st) data (ucast (of_nat (length data) :: u32)) = (ok, b)"
    "buffer_wf b" "contents b = queued (gpsNmeaBuffer st) data"
    using Puts_queued [OF assms(1,3)] by blast
  have "update_loop env (st\<lparr>gpsNmeaBuffer := b\<rparr>) [] = None"
    using update_loop_stuck [of env "st\<lparr>gpsNmeaBuffer := b\<rparr>" "[]"] b assms(4) by (cases "update_loop env (st\<lparr>gpsNmeaBuffer := b\<rparr>) []") auto
  then show ?thesis using b(1) assms(2) by (simp add: GPS_Update_def)
qed

lemma GPS_Update_hangs_example:
  "\<forall>env. GPS_Update env ''$GPVTG,'' (of_nat (length ''$GPVTG,'')) gps_boot = None"
proof
  fix env
  have "queued (gpsNmeaBuffer gps_boot) ''$GPVTG,'' = ''$GPVTG,''" by (rule queued_boot) simp
  moreover have "unfinished ''$GPVTG,''" by (simp add: unfinished_def)
  ultimately show "GPS_Update env ''$GPVTG,'' (of_nat (length ''$GPVTG,'')) gps_boot = None"
    using boot_buffer by (intro GPS_Update_hangs) simp_all
qed

section \<open>Checksums\<close>

text \<open>The text of a command with its checksum and line end, as \<open>GPS_CMDSend\<close> sends it.\<close>

definition seal :: "cstr \<Rightarrow> cstr" where
  "seal s = s @ [CHR ''*'', hex_digit (drop_bit 4 (text_checksum s)), hex_digit (text_checksum s AND 0x0f)] @ CRLF"

lemma xor_to_star_append:
  "CHR ''*'' \<notin> set x \<Longrightarrow> xor_to_star r (x @ CHR ''*'' # y) = Some (foldl (\<lambda>r c. r XOR byte c) r x, y)"
  by (induction x arbitrary: r) auto

lemma strstr_star: "CHR ''*'' \<in> set s \<Longrightarrow> strstr s ''*'' \<noteq> None"
  by (induction s) (auto split: option.splits)

lemma CheckParity_seal:
  assumes "2 \<le> length s" "CHR ''*'' \<notin> set (drop 2 s)"
  shows "GPS_CheckParity (Some (seal s)) = Some True"
proof -
  let ?r = "text_checksum s"
  let ?t = "[CHR ''*'', hex_digit (drop_bit 4 ?r), hex_digit (?r AND 0x0f)] @ CRLF"
  have b: "byte_at (seal s) 1 = byte_at s 1" using assms(1) by (simp add: byte_at_def seal_def nth_append)
  have "drop 2 (seal s) = drop 2 s @ ?t" using assms(1) by (simp add: seal_def)
  then have "xor_to_star (byte_at (seal s) 1) (drop 2 (seal s)) = Some (?r, tl ?t)"
    using xor_to_star_append [OF assms(2)] b by (simp add: text_checksum_def)
  moreover have "strstr (seal s) ''*'' \<noteq> None" by (rule strstr_star) (simp add: seal_def)
  ultimately show ?thesis by (simp add: GPS_CheckParity_def)
qed

lemma xor_range_cong:
  "(\<And>i. lo \<le> i \<Longrightarrow> i < hi \<Longrightarrow> byte_at s i = byte_at t i) \<Longrightarrow> xor_range r s lo hi = xor_range r t lo hi"
  unfolding xor_range_def by (rule foldl_cong) auto

lemma byte_char_of [simp]: "byte (char_of (unat x)) = x" for x :: u8
proof -
  have "unat x < 2 ^ LENGTH(8)" by (rule unsigned_less)
  then have c: "code (char_of (unat x)) = unat x" by simp
  have "byte (char_of (unat x)) = of_nat (code (char_of (unat x)))" by (rule of_nat_of_char [symmetric])
  then show ?thesis unfolding c by simp
qed

lemma byte_at_char_of [simp]: "i < length s \<Longrightarrow> byte_at (s[i := char_of (unat x)]) i = x" for x :: u8
  by (simp add: byte_at_def)

lemma byte_at_update [simp]: "i \<noteq> j \<Longrightarrow> byte_at (s[i := c]) j = byte_at s j"
  by (simp add: byte_at_def)

lemma CheckParityBinary_send:
  assumes "unat (word_at s 2 - 3) + 2 < length s" "4 \<le> unat (word_at s 2 - 3)"
  shows "GPS_CheckParityBinary (fst (GPS_CMDSend s GPS_FORMAT_BINARY st))"
proof -
  define n where "n = unat (word_at s 2 - 3)"
  define x where "x = xor_range (byte_at s 2) s 3 n"
  define t where "t = s[n := char_of (unat x), n + 1 := CR, n + 2 := LF]"
  have n: "4 \<le> n" "n + 2 < length s" using assms by (simp_all add: n_def)
  have b: "byte_at t i = byte_at s i" if "i < n" for i using that by (simp add: t_def)
  have "word_at t 2 = word_at s 2" using n b [of 2] b [of 3] by (simp add: word_at_def)
  then have w: "unat (word_at t 2 - 3) = n" by (simp add: n_def)
  have "byte_at t n = x" using n by (simp add: t_def)
  moreover have "xor_range r t 3 n = xor_range r s 3 n" for r by (rule xor_range_cong) (rule b)
  moreover have "byte_at t 2 = byte_at s 2" using n by (intro b) simp
  ultimately have "GPS_CheckParityBinary t" unfolding GPS_CheckParityBinary_def Let_def w by (simp add: x_def)
  moreover have "fst (GPS_CMDSend s GPS_FORMAT_BINARY st) = t"
    by (simp add: GPS_CMDSend_def Let_def t_def x_def n_def)
  ultimately show ?thesis by simp
qed

lemma message_length: "word_at (binary_message cmd len payload) 2 = len"
proof -
  have b: "byte_at (binary_message cmd len payload) 2 = byte (char_of (unat (len AND 0xff)))"
    "byte_at (binary_message cmd len payload) 3 = byte (char_of (unat (drop_bit 8 len)))"
    by (simp_all add: byte_at_def binary_message_def lo_hi_def GPS_CMD_BINARY_HEADER_def)
  have u: "unat (ucast (w :: u16) :: u8) = unat w" if "unat w < 256" for w :: u16
    using that by (simp add: unsigned_ucast_eq take_bit_nat_eq_self)
  have c: "byte (char_of (unat w)) = ucast w" if "unat w < 256" for w :: u16
    using byte_char_of [of "ucast w"] u [OF that] by simp
  have m: "len AND 0xff = take_bit 8 len" by (simp add: take_bit_eq_mask mask_eq_exp_minus_1)
  have "unat (len AND 0xff) < 256" "unat (drop_bit 8 len) < 256"
  proof -
    show "unat (len AND 0xff) < 256" using take_bit_nat_less_exp [of 8 "unat len"] by (simp add: m unsigned_take_bit_eq)
    have "unat len < 2 ^ LENGTH(16)" by (rule unsigned_less)
    then show "unat (drop_bit 8 len) < 256" by (simp add: drop_bit_eq_div unat_div)
  qed
  then have "word_at (binary_message cmd len payload) 2 =
      ucast (ucast (len AND 0xff) :: u8) OR push_bit 8 (ucast (ucast (drop_bit 8 len) :: u8))"
    using b c by (simp add: word_at_def)
  also have "\<dots> = len" unfolding m by (rule bit_word_eqI) (auto simp: bit_simps)
  finally show ?thesis .
qed

text \<open>C17. What \<open>GPS_CMDSend\<close> puts on the wire passes the driver's own check: a text command
  without an asterisk passes \<open>GPS_CheckParity\<close> with the two hexadecimal digits it was given,
  and a binary message whose array has room for its length passes \<open>GPS_CheckParityBinary\<close>.\<close>

theorem CMDSend_parity:
  "(2 \<le> length s \<and> CHR ''*'' \<notin> set (drop 2 s) \<longrightarrow>
      GPS_CheckParity (Some (fst (GPS_CMDSend s GPS_FORMAT_NMEA st))) = Some True) \<and>
   (unat (word_at m 2 - 3) + 2 < length m \<and> 4 \<le> unat (word_at m 2 - 3) \<longrightarrow>
      GPS_CheckParityBinary (fst (GPS_CMDSend m GPS_FORMAT_BINARY st)))"
  using CheckParity_seal [of s] CheckParityBinary_send [of m st]
  by (simp add: GPS_CMDSend_def seal_def Let_def)

lemma CMDSend_parity_witness:
  "GPS_CheckParity (Some (fst (GPS_CMDSend ''$PGKC030,1,1'' GPS_FORMAT_NMEA gps_boot))) = Some True \<and>
   GPS_CheckParityBinary (fst (GPS_CMDSend (binary_message GPS_CMD_FORMAT 14 (replicate 5 NUL)) GPS_FORMAT_BINARY gps_boot))"
proof -
  have "word_at (binary_message GPS_CMD_FORMAT 14 (replicate 5 NUL)) 2 = 14" by (rule message_length)
  then show ?thesis
    using CMDSend_parity [of "''$PGKC030,1,1''" gps_boot "binary_message GPS_CMD_FORMAT 14 (replicate 5 NUL)"]
    by (simp add: binary_message_def lo_hi_def GPS_CMD_BINARY_HEADER_def)
qed

end
