(* ===== verification/Http.thy ===== *)
theory Http
  imports Debug_Log
begin

text \<open>
  \<open>app/src/http.c\<close>: one HTTP POST over a plain socket or over SSL. What the SDK's socket and
  SSL calls return is in \<open>http_net\<close>; each call that opens, uses or closes a connection is an
  effect. A call of \<open>send\<close> or \<open>SSL_Write\<close> takes at most the bytes it is offered and \<open>recv\<close> or
  \<open>SSL_Read\<close> delivers at most the bytes it is asked for, as documented; the log holds the bytes
  that were taken, and none for a call that failed. A result list that is used up stands for an
  error of \<open>send\<close> and a timeout of \<open>select\<close>.
\<close>

definition HTTP_TAG :: cstr where "HTTP_TAG = ''Network''"

abbreviation SSL_ERROR_INTERNAL :: int where "SSL_ERROR_INTERNAL \<equiv> - 5"

datatype sel_event = Sel_Error | Sel_Timeout | Sel_NotSet | Sel_RecvError | Sel_Recv "char list"

record http_net =
  DNS_GetHostByName2 :: "cstr option"
  http_socket :: int
  http_connect :: int
  http_sends :: "int list"
  http_events :: "sel_event list"
  SSL_Init :: int
  SSL_Connect :: int
  SSL_Write :: int                    \<comment> \<open>an error code or the bytes it would take\<close>
  SSL_Read :: "int + char list"       \<comment> \<open>an error code or the bytes read\<close>
  SSL_Close :: int
  SSL_Destroy :: int
  http_malloc :: bool

section \<open>Plain sockets\<close>

fun next_send :: "int list \<Rightarrow> int \<times> int list" where
  "next_send [] = (- 1, [])"
| "next_send (r # rs) = (r, rs)"

text \<open>The bytes a call of \<open>send\<close> took are those after the ones already sent.\<close>

function send_loop :: "char list \<Rightarrow> nat \<Rightarrow> int list \<Rightarrow> bool \<times> effect list" where
  "send_loop buf totalSent rs =
     (if totalSent < length buf then
        let (r, rs') = next_send rs; ret = min r (int (length buf - totalSent)) in
        if ret \<le> 0 then (False, [LOGE HTTP_TAG ''socket send fail'' []])
        else let (ok, out) = send_loop buf (totalSent + nat ret) rs'
             in (ok, SockSend (take (nat ret) (drop totalSent buf)) # out)
      else (True, []))"
  by pat_completeness auto
termination
  by (relation "measure (\<lambda>(buf, t, _). length buf - t)") auto

declare send_loop.simps [simp del]

text \<open>\<open>recvLen\<close> has 16 bits; the bytes are copied to \<open>retBuffer + recvLen\<close>.\<close>

definition store_at :: "char list \<Rightarrow> nat \<Rightarrow> char list \<Rightarrow> char list" where
  "store_at buf i d = take i buf @ d @ drop (i + length d) buf"

fun http_recv_loop :: "int \<Rightarrow> u16 \<Rightarrow> char list \<Rightarrow> sel_event list \<Rightarrow> int \<times> char list \<times> effect list" where
  "http_recv_loop bufSize recvLen buf [] =
     (if uint recvLen < bufSize then (- 1, buf, [LOGE HTTP_TAG ''HTTP response timeout'' []])
      else (uint recvLen, buf, []))"
| "http_recv_loop bufSize recvLen buf (e # es) =
     (if uint recvLen < bufSize then
        case e of
          Sel_Error \<Rightarrow> (- 1, buf, [LOGE HTTP_TAG ''HTTP response error'' []])
        | Sel_Timeout \<Rightarrow> (- 1, buf, [LOGE HTTP_TAG ''HTTP response timeout'' []])
        | Sel_NotSet \<Rightarrow> http_recv_loop bufSize recvLen buf es
        | Sel_RecvError \<Rightarrow> (- 1, buf, [LOGE HTTP_TAG ''recv error'' []])
        | Sel_Recv d \<Rightarrow>
            let toRead = bufSize - uint recvLen; d' = take (nat toRead) d in
            if d' = [] then (uint recvLen, buf, [LOGI HTTP_TAG ''connection closed by peer'' []])
            else http_recv_loop bufSize (recvLen + of_nat (length d')) (store_at buf (unat recvLen) d') es
      else (uint recvLen, buf, []))"

definition close_fd :: "int \<Rightarrow> effect" where "close_fd fd = Sdk ''close'' [fd]"

definition http_send_receive ::
  "http_net \<Rightarrow> cstr \<Rightarrow> cstr \<Rightarrow> char list \<Rightarrow> char list \<Rightarrow> int \<Rightarrow> int \<times> char list \<times> effect list" where
  "http_send_receive net hostName port sendBuffer retBuffer retBufferSize =
     (if length sendBuffer = 0 \<or> retBufferSize \<le> 0
      then (- 1, retBuffer, [LOGE HTTP_TAG ''Invalid input parameters'' []])
      else case DNS_GetHostByName2 net of
        None \<Rightarrow> (- 1, retBuffer, [LOGE HTTP_TAG ''Cannot resolve the hostName name'' []])
      | Some IPAddr \<Rightarrow>
        let o1 = [LOGD HTTP_TAG ''Resolved IP for %s -> %s'' [AStr hostName, AStr IPAddr], Sdk ''socket'' []];
            fd = http_socket net
        in if fd < 0 then (- 1, retBuffer, o1 @ [LOGE HTTP_TAG ''socket fail'' []])
           else
             let port_num = fst (strtol port 10) in
             if port_num \<le> 0 \<or> port_num > 65535
             then (- 1, retBuffer, o1 @ [LOGE HTTP_TAG ''Invalid port number'' [], close_fd fd])
             else
               let o2 = o1 @ [Sdk ''connect'' [fd, port_num]] in
               if http_connect net < 0
               then (- 1, retBuffer, o2 @ [LOGE HTTP_TAG ''socket connect fail'' [], close_fd fd])
               else
                 let (ok, o3) = send_loop sendBuffer 0 (http_sends net) in
                 if \<not> ok then (- 1, retBuffer, o2 @ o3 @ [close_fd fd])
                 else
                   let (r, buf, o4) = http_recv_loop retBufferSize 0 retBuffer (http_events net)
                   in (r, buf, o2 @ o3 @ o4 @ [close_fd fd]))"

section \<open>SSL\<close>

text \<open>
  The two labels at the end. Their messages print the variable \<open>error\<close>, which holds the result
  of an earlier call, not that of the call that failed.
\<close>

definition ssl_destroy :: "http_net \<Rightarrow> int \<Rightarrow> effect list" where
  "ssl_destroy net error = Sdk ''SSL_Destroy'' [] #
     (if SSL_Destroy net \<noteq> 0 then [LOGI HTTP_TAG ''SSL destroy error: %d'' [AInt error]] else [])"

definition ssl_close :: "http_net \<Rightarrow> int \<Rightarrow> effect list" where
  "ssl_close net error = Sdk ''SSL_Close'' [] #
     (if SSL_Close net \<noteq> 0 then [LOGI HTTP_TAG ''SSL close error: %d'' [AInt error]] else []) @
     ssl_destroy net error"

definition https_send_receive ::
  "http_net \<Rightarrow> cstr \<Rightarrow> cstr \<Rightarrow> char list \<Rightarrow> char list \<Rightarrow> int \<Rightarrow> int \<times> char list \<times> effect list" where
  "https_send_receive net hostName port buffer retBuffer retBufferSize =
     (let o1 = [Sdk ''SSL_Init'' []]; error = SSL_Init net in
      if error \<noteq> 0 then (error, retBuffer, o1 @ [LOGI HTTP_TAG ''SSL init error: %d'' [AInt error]])
      else
        let o2 = o1 @ [Sdk ''SSL_Connect'' []]; error = SSL_Connect net in
        if error \<noteq> 0
        then (error, retBuffer, o2 @ LOGI HTTP_TAG ''SSL connect error: %d'' [AInt error] # ssl_destroy net error)
        else
          let error = min (SSL_Write net) (int (length buffer)) in
          if error \<le> 0
          then (error, retBuffer, o2 @ LOGI HTTP_TAG ''SSL Write error: %d'' [AInt error] # ssl_close net error)
          else
            let o3 = o2 @ [SockSend (take (nat error) buffer)];
                zeroed = replicate (length retBuffer) NUL;
                (error, buf) = (case SSL_Read net of
                   Inl e \<Rightarrow> (e, zeroed)
                 | Inr d \<Rightarrow> let d' = take (nat retBufferSize) d in (int (length d'), store_at zeroed 0 d'))
            in if error < 0
               then (error, buf, o3 @ LOGI HTTP_TAG ''SSL Read error: %d'' [AInt error] # ssl_close net error)
               else if error = 0
               then (SSL_ERROR_INTERNAL, buf, o3 @ LOGI HTTP_TAG ''SSL no receive response'' [] # ssl_close net SSL_ERROR_INTERNAL)
               else (error, buf, o3 @ ssl_close net error))"

section \<open>The request\<close>

definition post_fmt :: cstr where
  "post_fmt = ''POST %s HTTP/1.1'' @ CRLF @ ''Host: %s'' @ CRLF @
     ''Content-Type: application/x-www-form-urlencoded'' @ CRLF @ ''Connection: Keep-Alive'' @ CRLF @
     ''Content-Length: %d'' @ CRLF @ CRLF @ ''%s'' @ CRLF"

text \<open>\<open>snprintf\<close> into \<open>bufferLen\<close> bytes, then a second NUL behind them: \<open>bufferLen\<close> bytes are sent.\<close>

definition Http_Post ::
  "http_net \<Rightarrow> bool \<Rightarrow> cstr \<Rightarrow> cstr \<Rightarrow> cstr \<Rightarrow> cstr \<Rightarrow> u16 \<Rightarrow> char list \<Rightarrow> int \<Rightarrow> int \<times> char list \<times> effect list" where
  "Http_Post net secure hostName port path data dataLen retBuffer retBufferSize =
     (if length data \<noteq> unat dataLen
      then (- 1, retBuffer, [LOGE HTTP_TAG ''DataLen mismatch with actual data length'' []])
      else
        let args = [AStr path, AStr hostName, AInt (uint dataLen), AStr data];
            bufferLen = length (sprintf post_fmt args)
        in if bufferLen = 0 then (- 1, retBuffer, [LOGE HTTP_TAG ''Failed to calculate buffer size'' []])
           else if \<not> http_malloc net
           then (- 1, retBuffer, [LOGE HTTP_TAG ''Failed to allocate memory for HTTP package'' []])
           else
             let text = snprintf bufferLen post_fmt args;
                 buffer = text @ replicate (bufferLen + 1 - length text) NUL;
                 (ret, buf, out) =
                   (if \<not> secure
                    then http_send_receive net hostName port (take bufferLen buffer) retBuffer retBufferSize
                    else https_send_receive net hostName port (take bufferLen buffer) retBuffer retBufferSize)
             in (ret, buf, out @ [Sdk ''OS_Free'' []]))"

section \<open>What goes over the wire\<close>

fun sent :: "effect list \<Rightarrow> char list" where
  "sent [] = []"
| "sent (SockSend d # es) = d @ sent es"
| "sent (_ # es) = sent es"

text \<open>The SDK calls that manage a connection, in order.\<close>

fun sdk_calls :: "effect list \<Rightarrow> (cstr \<times> int list) list" where
  "sdk_calls [] = []"
| "sdk_calls (Sdk f a # es) = (f, a) # sdk_calls es"
| "sdk_calls (_ # es) = sdk_calls es"

lemma sent_append [simp]: "sent (a @ b) = sent a @ sent b"
  by (induction a rule: sent.induct) auto

lemma sdk_calls_append [simp]: "sdk_calls (a @ b) = sdk_calls a @ sdk_calls b"
  by (induction a rule: sdk_calls.induct) auto

lemma wire_Log [simp]:
  "sent (LOGE t f a # es) = sent es" "sent (LOGI t f a # es) = sent es" "sent (LOGD t f a # es) = sent es"
  "sdk_calls (LOGE t f a # es) = sdk_calls es" "sdk_calls (LOGI t f a # es) = sdk_calls es"
  "sdk_calls (LOGD t f a # es) = sdk_calls es"
  "sent (close_fd fd # es) = sent es" "sdk_calls (close_fd fd # es) = (''close'', [fd]) # sdk_calls es"
  by (simp_all add: LOGE_def LOGI_def LOGD_def close_fd_def)

lemma send_loop_correct:
  assumes "t \<le> length buf" "send_loop buf t rs = (ok, out)"
  shows "(\<exists>k. sent out = take k (drop t buf)) \<and> (ok \<longrightarrow> sent out = drop t buf) \<and> sdk_calls out = []"
  using assms
proof (induction buf t rs arbitrary: ok out rule: send_loop.induct)
  case (1 buf t rs ok out)
  show ?case
  proof (cases "t < length buf")
    case False
    then have "send_loop buf t rs = (True, [])" by (simp add: send_loop.simps [of buf t rs])
    then show ?thesis using "1.prems" False by auto
  next
    case True
    obtain r rs' where n: "next_send rs = (r, rs')" by fastforce
    define ret where "ret = min r (int (length buf - t))"
    have e: "min r (int (length buf) - int t) = ret" using True by (simp add: ret_def of_nat_diff)
    show ?thesis
    proof (cases "ret \<le> 0")
      case neg: True
      then have "ok = False" "out = [LOGE HTTP_TAG ''socket send fail'' []]"
        using "1.prems"(2) True by (simp_all add: send_loop.simps [of buf t] n e Let_def)
      then show ?thesis by (auto intro: exI [of _ 0])
    next
      case pos: False
      obtain ok' out' where s: "send_loop buf (t + nat ret) rs' = (ok', out')" by fastforce
      have le: "t + nat ret \<le> length buf" using True pos by (auto simp: ret_def)
      have o: "ok = ok'" "out = SockSend (take (nat ret) (drop t buf)) # out'"
        using "1.prems"(2) True pos s by (simp_all add: send_loop.simps [of buf t] n e Let_def)
      have ih: "(\<exists>k. sent out' = take k (drop (t + nat ret) buf)) \<and> (ok' \<longrightarrow> sent out' = drop (t + nat ret) buf) \<and> sdk_calls out' = []"
        by (rule "1.IH" [OF True refl n [symmetric] ret_def pos le s])
      have d: "drop t buf = take (nat ret) (drop t buf) @ drop (t + nat ret) buf"
        by (metis add.commute append_take_drop_id drop_drop)
      from ih obtain k where k: "sent out' = take k (drop (t + nat ret) buf)" by blast
      have "length (take (nat ret) (drop t buf)) = nat ret" using le by simp
      then have "sent out = take (nat ret + k) (drop t buf)"
        by (subst d) (simp add: o k)
      then show ?thesis using ih d o by auto
    qed
  qed
qed

text \<open>The bytes the peer delivers before it closes the connection or something fails.\<close>

fun received :: "sel_event list \<Rightarrow> char list" where
  "received [] = []"
| "received (Sel_NotSet # es) = received es"
| "received (Sel_Recv d # es) = (if d = [] then [] else d @ received es)"
| "received (_ # es) = []"

lemma take_cut:
  "take m d @ take (m - length (take m d)) x = take m (d @ x)"
  "length (take m d) + min (m - length (take m d)) (length x) = min m (length d + length x)"
  by (cases "length d \<le> m"; simp)+

lemma length_store_at: "i + length d \<le> length buf \<Longrightarrow> length (store_at buf i d) = length buf"
  by (simp add: store_at_def)

lemma take_store_at: "i + length d \<le> length buf \<Longrightarrow> take (i + length d) (store_at buf i d) = take i buf @ d"
  by (simp add: store_at_def)

lemma http_recv_loop_correct:
  assumes "bufSize \<le> 65535" "length buf = nat bufSize" "unat recvLen \<le> nat bufSize"
    "http_recv_loop bufSize recvLen buf es = (r, buf', out)"
  shows "length buf' = length buf \<and> sent out = [] \<and> sdk_calls out = [] \<and>
    (r = - 1 \<or> 0 \<le> r \<and> take (nat r) buf' = take (unat recvLen) buf @ take (nat bufSize - unat recvLen) (received es) \<and>
       r = int (unat recvLen + min (nat bufSize - unat recvLen) (length (received es))))"
  using assms(2-)
proof (induction es arbitrary: recvLen buf out)
  case Nil
  show ?case
  proof (cases "uint recvLen < bufSize")
    case False
    then have "unat recvLen = nat bufSize" using Nil.prems(2) by (simp flip: nat_uint_eq)
    moreover have "uint recvLen = int (unat recvLen)" by simp
    ultimately have "unat recvLen = nat bufSize" "uint recvLen = int (nat bufSize)" by simp_all
    moreover have "r = uint recvLen" "buf' = buf" "out = []" using Nil.prems(3) False by simp_all
    ultimately show ?thesis using Nil.prems(1,2) by auto
  qed (use Nil in auto)
next
  case (Cons e es)
  show ?case
  proof (cases "uint recvLen < bufSize")
    case False
    then have "unat recvLen = nat bufSize" using Cons.prems(2) by (simp flip: nat_uint_eq)
    moreover have "uint recvLen = int (unat recvLen)" by simp
    ultimately have "unat recvLen = nat bufSize" "uint recvLen = int (nat bufSize)" by simp_all
    moreover have "r = uint recvLen" "buf' = buf" "out = []" using Cons.prems(3) False by simp_all
    ultimately show ?thesis using Cons.prems(1,2) by auto
  next
    case True
    show ?thesis
    proof (cases e)
      case (Sel_Recv d)
      define d' where "d' = take (nat (bufSize - uint recvLen)) d"
      have n: "nat (bufSize - uint recvLen) = nat bufSize - unat recvLen" using True by (simp add: nat_diff_distrib)
      show ?thesis
      proof (cases "d' = []")
        case e0: True
        then have "d = []" using True by (auto simp: d'_def)
        then show ?thesis using Cons.prems True Sel_Recv by auto
      next
        case False
        have dn: "d \<noteq> []" using False by (auto simp: d'_def)
        have l: "unat recvLen + length d' \<le> nat bufSize" using Cons.prems(2) by (auto simp: d'_def n)
        have u: "unat (recvLen + of_nat (length d')) = unat recvLen + length d'"
          using l assms(1) by (subst unat_add_lem [THEN iffD1]) (simp_all add: unat_of_nat)
        have go: "http_recv_loop bufSize (recvLen + of_nat (length d')) (store_at buf (unat recvLen) d') es = (r, buf', out)"
          using Cons.prems(3) True False by (simp add: Sel_Recv d'_def Let_def)
        have ih: "length buf' = length buf \<and> sent out = [] \<and> sdk_calls out = [] \<and>
          (r = - 1 \<or> 0 \<le> r \<and> take (nat r) buf' = take (unat recvLen + length d') (store_at buf (unat recvLen) d') @
               take (nat bufSize - (unat recvLen + length d')) (received es) \<and>
             r = int (unat recvLen + length d' + min (nat bufSize - (unat recvLen + length d')) (length (received es))))"
          using Cons.IH [OF _ _ go] l Cons.prems(1) by (simp add: u length_store_at)
        have t: "take (unat recvLen + length d') (store_at buf (unat recvLen) d') = take (unat recvLen) buf @ d'"
          using l Cons.prems(1) by (simp add: take_store_at)
        have all: "d' @ take (nat bufSize - (unat recvLen + length d')) (received es) =
            take (nat bufSize - unat recvLen) (received (e # es))"
          "length d' + min (nat bufSize - (unat recvLen + length d')) (length (received es)) =
            min (nat bufSize - unat recvLen) (length (received (e # es)))"
          using dn take_cut [of "nat bufSize - unat recvLen" d "received es"]
          by (simp_all add: d'_def n Sel_Recv del: length_take flip: diff_diff_left)
        show ?thesis using ih unfolding t append_assoc all(1) add.assoc all(2) by blast
      qed
    qed (use Cons True in auto)
  qed
qed

section \<open>The properties of the component\<close>

definition request_head :: "cstr \<Rightarrow> cstr \<Rightarrow> nat \<Rightarrow> cstr" where
  "request_head path hostName n = ''POST '' @ path @ '' HTTP/1.1'' @ CRLF @ ''Host: '' @ hostName @ CRLF @
     ''Content-Type: application/x-www-form-urlencoded'' @ CRLF @ ''Connection: Keep-Alive'' @ CRLF @
     ''Content-Length: '' @ nat_str n @ CRLF @ CRLF"

lemma request_printed:
  "sprintf post_fmt [AStr path, AStr hostName, AInt (uint (n::u16)), AStr data] = request_head path hostName (unat n) @ data @ CRLF"
proof -
  have "sprintf post_fmt [AStr path, AStr hostName, AInt (int k), AStr data] = request_head path hostName k @ data @ CRLF" for k
    by (simp add: post_fmt_def request_head_def cstr_simps int_str_def)
  from this [of "unat n"] show ?thesis by simp
qed

text \<open>What is really sent: the last line feed has become a NUL.\<close>

definition request_bytes :: "cstr \<Rightarrow> cstr \<Rightarrow> cstr \<Rightarrow> char list" where
  "request_bytes path hostName data = request_head path hostName (length data) @ data @ [CR, NUL]"

lemma buffer_bytes:
  assumes "req = xs @ [y]"
  shows "take (length req) (snprintf_trunc (length req) req @ replicate (length req + 1 - length (snprintf_trunc (length req) req)) NUL) =
     xs @ [NUL]"
  using assms by (simp add: snprintf_trunc_def)

lemma Http_Post_eq:
  assumes "length data = unat dataLen" "http_malloc net"
  shows "Http_Post net secure hostName port path data dataLen retBuffer retBufferSize =
     (let (ret, buf, out) = (if secure then https_send_receive else http_send_receive) net hostName port
            (request_bytes path hostName data) retBuffer retBufferSize
      in (ret, buf, out @ [Sdk ''OS_Free'' []]))"
proof -
  define req where "req = request_head path hostName (unat dataLen) @ data @ CRLF"
  define body where "body = snprintf_trunc (length req) req"
  have r: "req = (request_head path hostName (unat dataLen) @ data @ [CR]) @ [LF]" by (simp add: req_def)
  have b: "take (length req) (body @ replicate (length req + 1 - length body) NUL) = request_bytes path hostName data"
    unfolding body_def buffer_bytes [OF r] request_bytes_def assms(1) by simp
  have n: "length req \<noteq> 0" by (simp add: r)
  show ?thesis
    unfolding Http_Post_def Let_def request_printed snprintf_def req_def [symmetric] body_def [symmetric] b
    using assms n by simp
qed

lemma request_nonempty: "request_bytes path hostName data \<noteq> []"
  by (simp add: request_bytes_def)

definition opened :: "http_net \<Rightarrow> effect list \<Rightarrow> bool" where
  "opened net out \<longleftrightarrow> (''socket'', []) \<in> set (sdk_calls out) \<and> 0 \<le> http_socket net"

lemma http_plain:
  assumes "http_send_receive net hostName port msg retBuffer bufSize = (r, buf, out)"
    "msg \<noteq> []" "0 < bufSize" "bufSize \<le> 65535" "length retBuffer = nat bufSize"
  shows "length buf = length retBuffer \<and> (\<exists>k. sent out = take k msg) \<and>
    filter (\<lambda>c. fst c = ''close'') (sdk_calls out) = (if opened net out then [(''close'', [http_socket net])] else []) \<and>
    (opened net out \<longrightarrow> last out = close_fd (http_socket net)) \<and>
    (r = - 1 \<or> sent out = msg \<and> take (nat r) buf = take (nat bufSize) (received (http_events net)) \<and>
       r = int (min (nat bufSize) (length (received (http_events net)))))"
proof -
  obtain ok o3 where s: "send_loop msg 0 (http_sends net) = (ok, o3)" by fastforce
  obtain r4 buf4 o4 where v: "http_recv_loop bufSize 0 retBuffer (http_events net) = (r4, buf4, o4)" by (metis prod_cases3)
  note S = send_loop_correct [OF _ s, simplified]
  note V = http_recv_loop_correct [OF assms(4,5) _ v, simplified]
  have none: "\<exists>k. [] = take k msg" by (rule exI [of _ 0]) simp
  have full: "\<exists>k. x = take k x" for x :: "char list" by (rule exI [of _ "length x"]) simp
  show ?thesis
  proof (cases "DNS_GetHostByName2 net")
    case None
    then show ?thesis using assms(1-3) none by (auto simp: http_send_receive_def opened_def)
  next
    case (Some ip)
    show ?thesis
    proof (cases "http_socket net < 0 \<or> fst (strtol port 10) \<le> 0 \<or> fst (strtol port 10) > 65535 \<or> http_connect net < 0")
      case True
      then show ?thesis using assms(1-3) none
        by (auto simp: http_send_receive_def Some opened_def Let_def split: if_splits)
    next
      case False
      have "(r, buf, out) = (if ok then (r4, buf4, [LOGD HTTP_TAG ''Resolved IP for %s -> %s'' [AStr hostName, AStr ip], Sdk ''socket'' [],
             Sdk ''connect'' [http_socket net, fst (strtol port 10)]] @ o3 @ o4 @ [close_fd (http_socket net)])
           else (- 1, retBuffer, [LOGD HTTP_TAG ''Resolved IP for %s -> %s'' [AStr hostName, AStr ip], Sdk ''socket'' [],
             Sdk ''connect'' [http_socket net, fst (strtol port 10)]] @ o3 @ [close_fd (http_socket net)]))"
        using assms(1-3) False by (simp add: http_send_receive_def Some Let_def s v split: if_splits)
      then show ?thesis using S V False full by (auto simp: opened_def split: if_splits)
    qed
  qed
qed

text \<open>
  C30. A POST over a plain socket, whatever the network does: the bytes sent are a prefix of
  the request, the whole of it when the call succeeds, in any chunking of \<open>send\<close>; the request
  announces the length of the data and carries exactly the data behind the empty line, though
  its last line feed has become a NUL. A socket that was opened is closed exactly once, after
  the last use, on every path. On success the result is the number of bytes received, at most
  the size of the buffer, which begins with them; every failure is reported as -1.
\<close>

theorem Http_Post_plain:
  assumes "length data = unat dataLen" "http_malloc net" "0 < bufSize" "bufSize \<le> 65535" "length retBuffer = nat bufSize"
  shows "\<exists>r buf out. Http_Post net False hostName port path data dataLen retBuffer bufSize = (r, buf, out @ [Sdk ''OS_Free'' []]) \<and>
    length buf = length retBuffer \<and> (\<exists>k. sent out = take k (request_bytes path hostName data)) \<and>
    filter (\<lambda>c. fst c = ''close'') (sdk_calls out) = (if opened net out then [(''close'', [http_socket net])] else []) \<and>
    (opened net out \<longrightarrow> last out = close_fd (http_socket net)) \<and>
    (r = - 1 \<or> sent out = request_bytes path hostName data \<and>
       take (nat r) buf = take (nat bufSize) (received (http_events net)) \<and>
       r = int (min (nat bufSize) (length (received (http_events net)))))"
proof -
  obtain r buf out where h: "http_send_receive net hostName port (request_bytes path hostName data) retBuffer bufSize = (r, buf, out)"
    by (metis prod_cases3)
  show ?thesis unfolding Http_Post_eq [OF assms(1,2)]
    using http_plain [OF h request_nonempty assms(3-5)] by (simp add: h)
qed

definition net_ok :: http_net where
  "net_ok = \<lparr>DNS_GetHostByName2 = Some ''10.0.0.1'', http_socket = 3, http_connect = 0, http_sends = [7, 1000],
     http_events = [Sel_NotSet, Sel_Recv ''HTTP'', Sel_Recv [], Sel_Error], SSL_Init = 0, SSL_Connect = 0, SSL_Write = 1000,
     SSL_Read = Inr ''OK'', SSL_Close = 0, SSL_Destroy = 0, http_malloc = True\<rparr>"

theorem Http_Post_plain_witness:
  "\<exists>r buf out. Http_Post net_ok False ''h'' ''80'' ''/'' ''id=1'' 4 (replicate 16 NUL) 16 = (r, buf, out @ [Sdk ''OS_Free'' []]) \<and>
     length buf = 16 \<and> (r = - 1 \<or> take (nat r) buf = ''HTTP'')"
  using Http_Post_plain [of "''id=1''" 4 net_ok 16 "replicate 16 NUL" "''h''" "''80''" "''/''"]
  by (fastforce simp: net_ok_def)

text \<open>What an SSL exchange hands over and what it returns, from the answers of the SDK.\<close>

definition ssl_taken :: "http_net \<Rightarrow> char list \<Rightarrow> char list" where
  "ssl_taken net msg = (if SSL_Init net = 0 \<and> SSL_Connect net = 0 then take (nat (SSL_Write net)) msg else [])"

lemma ssl_labels [simp]:
  "sent (ssl_close net e) = []" "sent (ssl_destroy net e) = []"
  "map fst (sdk_calls (ssl_close net e)) = [''SSL_Close'', ''SSL_Destroy'']"
  "map fst (sdk_calls (ssl_destroy net e)) = [''SSL_Destroy'']"
  by (simp_all add: ssl_close_def ssl_destroy_def)

lemma https_sent_taken:
  "https_send_receive net hostName port msg retBuffer bufSize = (r, buf, out) \<Longrightarrow> sent out = ssl_taken net msg"
  by (auto simp: https_send_receive_def Let_def ssl_taken_def min_def split: if_splits sum.splits)

lemma https_calls:
  "https_send_receive net hostName port msg retBuffer bufSize = (r, buf, out) \<Longrightarrow>
   map fst (sdk_calls out) = [''SSL_Init''] @
      (if SSL_Init net \<noteq> 0 then [] else [''SSL_Connect''] @ (if SSL_Connect net \<noteq> 0 then [] else [''SSL_Close'']) @ [''SSL_Destroy''])"
  by (auto simp: https_send_receive_def Let_def split: if_splits sum.splits)

text \<open>
  C31. A POST over SSL releases what it acquired, whatever the SDK answers: the connection is
  closed exactly when it was made, before the context is destroyed, and the context is
  destroyed exactly when it was set up. The bytes handed over are those \<open>SSL_Write\<close> took of
  the request, none when an earlier call failed. The result is the SDK's own error code when
  setting up, connecting, writing or reading failed, \<open>SSL_ERROR_INTERNAL\<close> when nothing was read,
  and otherwise the number of bytes read, with which the buffer begins; so \<open>http.h\<close>'s promise of
  -1 on failure does not hold over SSL, and the result is zero exactly when \<open>SSL_Write\<close> returned
  zero, which the caller takes for success although nothing was sent. Nor does the code see that
  \<open>SSL_Write\<close> took a part of the request only.
\<close>

theorem Http_Post_ssl:
  assumes "length data = unat dataLen" "http_malloc net" "0 < bufSize" "length retBuffer = nat bufSize"
  shows "\<exists>r buf out. Http_Post net True hostName port path data dataLen retBuffer bufSize = (r, buf, out) \<and>
    length buf = length retBuffer \<and>
    map fst (sdk_calls out) = [''SSL_Init''] @
      (if SSL_Init net \<noteq> 0 then [] else [''SSL_Connect''] @ (if SSL_Connect net \<noteq> 0 then [] else [''SSL_Close'']) @ [''SSL_Destroy'']) @
      [''OS_Free''] \<and>
    sent out = (if SSL_Init net = 0 \<and> SSL_Connect net = 0 then take (nat (SSL_Write net)) (request_bytes path hostName data) else []) \<and>
    (if SSL_Init net \<noteq> 0 then r = SSL_Init net
     else if SSL_Connect net \<noteq> 0 then r = SSL_Connect net
     else if SSL_Write net \<le> 0 then r = SSL_Write net
     else case SSL_Read net of
       Inl e \<Rightarrow> if e = 0 then r = SSL_ERROR_INTERNAL else r = e
     | Inr d \<Rightarrow> if d = [] then r = SSL_ERROR_INTERNAL
         else r = int (min (nat bufSize) (length d)) \<and> take (nat r) buf = take (nat bufSize) d) \<and>
    (r = 0 \<longleftrightarrow> SSL_Init net = 0 \<and> SSL_Connect net = 0 \<and> SSL_Write net = 0)"
proof -
  let ?msg = "request_bytes path hostName data"
  obtain r buf out where h: "https_send_receive net hostName port ?msg retBuffer bufSize = (r, buf, out)" by (metis prod_cases3)
  have p: "Http_Post net True hostName port path data dataLen retBuffer bufSize = (r, buf, out @ [Sdk ''OS_Free'' []])"
    unfolding Http_Post_eq [OF assms(1,2)] by (simp add: h)
  have "0 < length ?msg" using request_nonempty by simp
  then show ?thesis unfolding p
    using https_sent_taken [OF h] https_calls [OF h] h assms(3,4)
    by (auto simp: https_send_receive_def ssl_taken_def Let_def store_at_def min_def split: sum.splits if_splits)
qed

theorem Http_Post_ssl_witness:
  "\<exists>r buf out. Http_Post net_ok True ''h'' ''443'' ''/'' ''id=1'' 4 (replicate 16 NUL) 16 = (r, buf, out) \<and>
     map fst (sdk_calls out) = [''SSL_Init'', ''SSL_Connect'', ''SSL_Close'', ''SSL_Destroy'', ''OS_Free''] \<and>
     r = 2 \<and> take 2 buf = ''OK''"
  using Http_Post_ssl [of "''id=1''" 4 net_ok 16 "replicate 16 NUL" "''h''" "''443''" "''/''"]
  by (fastforce simp: net_ok_def)

end
