(* ===== verification/System_Status.thy ===== *)
theory System_Status
  imports C_Prelude
begin

text \<open>
  \<open>app/src/system.h\<close>: the status flags of the firmware, five bits of the global byte
  \<open>systemStatus\<close>, with the macros that set, clear and test them. A macro that assigns to
  \<open>systemStatus\<close> is a function from the old byte to the new one.
\<close>

section \<open>The flags\<close>

definition STATUS_INITIALIZED :: u8 where "STATUS_INITIALIZED = push_bit 0 1"
definition STATUS_GPS_ON :: u8 where "STATUS_GPS_ON = push_bit 1 1"
definition STATUS_GSM_ACTIVE :: u8 where "STATUS_GSM_ACTIVE = push_bit 2 1"
definition STATUS_GSM_REGISTERED :: u8 where "STATUS_GSM_REGISTERED = push_bit 3 1"
definition STATUS_SLEEPING :: u8 where "STATUS_SLEEPING = push_bit 4 1"

definition INITIALIZED_ON :: "u8 \<Rightarrow> u8" where "INITIALIZED_ON s = s OR STATUS_INITIALIZED"
definition INITIALIZED_OFF :: "u8 \<Rightarrow> u8" where "INITIALIZED_OFF s = s AND NOT STATUS_INITIALIZED"
definition IS_INITIALIZED :: "u8 \<Rightarrow> bool" where "IS_INITIALIZED s \<longleftrightarrow> s AND STATUS_INITIALIZED \<noteq> 0"

definition GPS_STATUS_ON :: "u8 \<Rightarrow> u8" where "GPS_STATUS_ON s = s OR STATUS_GPS_ON"
definition GPS_STATUS_OFF :: "u8 \<Rightarrow> u8" where "GPS_STATUS_OFF s = s AND NOT STATUS_GPS_ON"
definition IS_GPS_STATUS_ON :: "u8 \<Rightarrow> bool" where "IS_GPS_STATUS_ON s \<longleftrightarrow> s AND STATUS_GPS_ON \<noteq> 0"

definition GSM_ACTIVE_ON :: "u8 \<Rightarrow> u8" where "GSM_ACTIVE_ON s = s OR STATUS_GSM_ACTIVE"
definition GSM_ACTIVE_OFF :: "u8 \<Rightarrow> u8" where "GSM_ACTIVE_OFF s = s AND NOT STATUS_GSM_ACTIVE"
definition IS_GSM_ACTIVE :: "u8 \<Rightarrow> bool" where "IS_GSM_ACTIVE s \<longleftrightarrow> s AND STATUS_GSM_ACTIVE \<noteq> 0"

definition GSM_REGISTERED_ON :: "u8 \<Rightarrow> u8" where "GSM_REGISTERED_ON s = s OR STATUS_GSM_REGISTERED"
definition GSM_REGISTERED_OFF :: "u8 \<Rightarrow> u8" where "GSM_REGISTERED_OFF s = s AND NOT STATUS_GSM_REGISTERED"
definition IS_GSM_REGISTERED :: "u8 \<Rightarrow> bool" where "IS_GSM_REGISTERED s \<longleftrightarrow> s AND STATUS_GSM_REGISTERED \<noteq> 0"

definition SLEEPING_ON :: "u8 \<Rightarrow> u8" where "SLEEPING_ON s = s OR STATUS_SLEEPING"
definition SLEEPING_OFF :: "u8 \<Rightarrow> u8" where "SLEEPING_OFF s = s AND NOT STATUS_SLEEPING"
definition IS_SLEEPING :: "u8 \<Rightarrow> bool" where "IS_SLEEPING s \<longleftrightarrow> s AND STATUS_SLEEPING \<noteq> 0"

named_theorems status_defs \<open>masks and macros of the status byte\<close>

lemmas status_masks [status_defs] =
  STATUS_INITIALIZED_def STATUS_GPS_ON_def STATUS_GSM_ACTIVE_def STATUS_GSM_REGISTERED_def STATUS_SLEEPING_def
lemmas status_macros [status_defs] =
  INITIALIZED_ON_def INITIALIZED_OFF_def IS_INITIALIZED_def GPS_STATUS_ON_def GPS_STATUS_OFF_def
  IS_GPS_STATUS_ON_def GSM_ACTIVE_ON_def GSM_ACTIVE_OFF_def IS_GSM_ACTIVE_def GSM_REGISTERED_ON_def
  GSM_REGISTERED_OFF_def IS_GSM_REGISTERED_def SLEEPING_ON_def SLEEPING_OFF_def IS_SLEEPING_def

section \<open>The contract of a flag\<close>

text \<open>
  A flag is a bit of the status byte: turning it on or off decides its own test and leaves
  every other bit alone.
\<close>

locale status_flag =
  fixes on :: "u8 \<Rightarrow> u8" and off :: "u8 \<Rightarrow> u8" and is_on :: "u8 \<Rightarrow> bool" and k :: nat
  assumes k8: "k < 8"
    and on_bit: "on s = set_bit k s"
    and off_bit: "off s = unset_bit k s"
    and is_bit: "is_on s \<longleftrightarrow> bit s k"
begin

lemma is_on_on [simp]: "is_on (on s)"
  by (simp add: on_bit is_bit bit_set_bit_iff k8)

lemma is_on_off [simp]: "\<not> is_on (off s)"
  by (simp add: off_bit is_bit bit_unset_bit_iff)

lemma other_bit_on: "j \<noteq> k \<Longrightarrow> bit (on s) j \<longleftrightarrow> bit s j"
  by (simp add: on_bit bit_set_bit_iff)

lemma other_bit_off: "j \<noteq> k \<Longrightarrow> bit (off s) j \<longleftrightarrow> bit s j"
  by (simp add: off_bit bit_unset_bit_iff)

lemma on_idem: "is_on s \<Longrightarrow> on s = s"
  by (rule bit_word_eqI) (auto simp: on_bit is_bit bit_set_bit_iff)

lemma off_idem: "\<not> is_on s \<Longrightarrow> off s = s"
  by (rule bit_word_eqI) (auto simp: off_bit is_bit bit_unset_bit_iff)

end

lemma mask_or: "(s::u8) OR push_bit k 1 = set_bit k s"
  by (simp add: set_bit_eq_or)

lemma mask_and_not: "(s::u8) AND NOT (push_bit k 1) = unset_bit k s"
  by (simp add: unset_bit_eq_and_not)

lemma mask_test: "(s::u8) AND push_bit k 1 \<noteq> 0 \<longleftrightarrow> bit s k"
  by (simp add: bit_iff_and_push_bit_not_eq_0)

interpretation init: status_flag INITIALIZED_ON INITIALIZED_OFF IS_INITIALIZED 0
  by unfold_locales (simp, (simp only: status_macros status_masks mask_or mask_and_not mask_test)+)
interpretation gps: status_flag GPS_STATUS_ON GPS_STATUS_OFF IS_GPS_STATUS_ON 1
  by unfold_locales (simp, (simp only: status_macros status_masks mask_or mask_and_not mask_test)+)
interpretation active: status_flag GSM_ACTIVE_ON GSM_ACTIVE_OFF IS_GSM_ACTIVE 2
  by unfold_locales (simp, (simp only: status_macros status_masks mask_or mask_and_not mask_test)+)
interpretation registered: status_flag GSM_REGISTERED_ON GSM_REGISTERED_OFF IS_GSM_REGISTERED 3
  by unfold_locales (simp, (simp only: status_macros status_masks mask_or mask_and_not mask_test)+)
interpretation sleeping: status_flag SLEEPING_ON SLEEPING_OFF IS_SLEEPING 4
  by unfold_locales (simp, (simp only: status_macros status_masks mask_or mask_and_not mask_test)+)

lemma flags_independent [simp]:
  "IS_INITIALIZED (GPS_STATUS_ON s) = IS_INITIALIZED s" "IS_INITIALIZED (GPS_STATUS_OFF s) = IS_INITIALIZED s"
  "IS_INITIALIZED (GSM_ACTIVE_ON s) = IS_INITIALIZED s" "IS_INITIALIZED (GSM_ACTIVE_OFF s) = IS_INITIALIZED s"
  "IS_INITIALIZED (GSM_REGISTERED_ON s) = IS_INITIALIZED s" "IS_INITIALIZED (GSM_REGISTERED_OFF s) = IS_INITIALIZED s"
  "IS_GPS_STATUS_ON (INITIALIZED_ON s) = IS_GPS_STATUS_ON s"
  "IS_GPS_STATUS_ON (GSM_ACTIVE_ON s) = IS_GPS_STATUS_ON s" "IS_GPS_STATUS_ON (GSM_ACTIVE_OFF s) = IS_GPS_STATUS_ON s"
  "IS_GPS_STATUS_ON (GSM_REGISTERED_ON s) = IS_GPS_STATUS_ON s" "IS_GPS_STATUS_ON (GSM_REGISTERED_OFF s) = IS_GPS_STATUS_ON s"
  "IS_GSM_ACTIVE (INITIALIZED_ON s) = IS_GSM_ACTIVE s" "IS_GSM_ACTIVE (GPS_STATUS_ON s) = IS_GSM_ACTIVE s"
  "IS_GSM_ACTIVE (GPS_STATUS_OFF s) = IS_GSM_ACTIVE s" "IS_GSM_ACTIVE (GSM_REGISTERED_ON s) = IS_GSM_ACTIVE s"
  "IS_GSM_ACTIVE (GSM_REGISTERED_OFF s) = IS_GSM_ACTIVE s"
  "IS_GSM_REGISTERED (INITIALIZED_ON s) = IS_GSM_REGISTERED s" "IS_GSM_REGISTERED (GPS_STATUS_ON s) = IS_GSM_REGISTERED s"
  "IS_GSM_REGISTERED (GPS_STATUS_OFF s) = IS_GSM_REGISTERED s" "IS_GSM_REGISTERED (GSM_ACTIVE_ON s) = IS_GSM_REGISTERED s"
  "IS_GSM_REGISTERED (GSM_ACTIVE_OFF s) = IS_GSM_REGISTERED s"
  by (simp_all add: init.is_bit gps.is_bit active.is_bit registered.is_bit
        init.other_bit_on gps.other_bit_on gps.other_bit_off active.other_bit_on active.other_bit_off
        registered.other_bit_on registered.other_bit_off)

end
