(* ===== verification/Network.thy ===== *)
theory Network
  imports Debug_Log System_Status
begin

text \<open>
  \<open>app/src/network.c\<close>: attaching to the GSM network and activating a PDP context, the
  periodic monitor with its connection watchdog, and the cell information. The static
  variables of the file, \<open>systemStatus\<close> and \<open>g_trackerloop_tick\<close> are the state; the answers
  of the SDK during one call are the record \<open>net_env\<close>; calls into the SDK that start
  something are effects.
\<close>

section \<open>Data\<close>

datatype Network_Status_t =
    NETWORK_STATUS_OFFLINE | NETWORK_STATUS_REGISTERING | NETWORK_STATUS_REGISTERED
  | NETWORK_STATUS_DETACHED | NETWORK_STATUS_ATTACHING | NETWORK_STATUS_ATTACHED
  | NETWORK_STATUS_DEACTIVED | NETWORK_STATUS_ACTIVATING | NETWORK_STATUS_ACTIVATED
  | NETWORK_STATUS_ATTACH_FAILED | NETWORK_STATUS_ACTIVATE_FAILED | NETWORK_STATUS_MAX

record Network_PDP_Context_t =
  pdp_apn :: cstr
  pdp_userName :: cstr
  pdp_userPasswd :: cstr

abbreviation PDP_LENGTH :: nat where "PDP_LENGTH \<equiv> 64"

record Network_Location_t =
  sMcc :: "u8 list"
  sMnc :: "u8 list"
  sLac :: u16
  sCellID :: u16
  iBsic :: u8
  iRxLev :: "8 word"
  iRxLevSub :: u8
  nArfcn :: u16

abbreviation MAX_CELLINFO_COUNT :: nat where "MAX_CELLINFO_COUNT \<equiv> 8"

record net_state =
  systemStatus :: u8
  g_trackerloop_tick :: u32
  apn_workaround_pending :: bool
  g_NetworkStatus :: Network_Status_t
  g_NetContextArr :: "Network_PDP_Context_t list"
  g_CellInfo :: "Network_Location_t list"
  g_CellInfoCount :: u8
  g_RSSI :: u8
  g_cellInfoStr :: cstr

text \<open>A status query fails (\<open>None\<close>) or delivers a status byte.\<close>

record net_env =
  Network_GetAttachStatus :: "u8 option"
  Network_StartAttach :: bool
  Network_GetActiveStatus :: "u8 option"
  Network_StartActive :: bool
  Network_GetCellInfoRequst :: bool
  net_time :: u32

definition TAG :: cstr where "TAG = ''Network''"

definition upd_status :: "(u8 \<Rightarrow> u8) \<Rightarrow> net_state \<Rightarrow> net_state" where
  "upd_status f s = s\<lparr>systemStatus := f (systemStatus s)\<rparr>"

section \<open>Attaching and activating\<close>

definition SetApnContext :: "t_Config \<Rightarrow> net_state \<Rightarrow> net_state" where
  "SetApnContext cfg s =
     s\<lparr>g_NetContextArr := (g_NetContextArr s)[0 :=
        \<lparr>pdp_apn = strncpy0 PDP_LENGTH (apn cfg), pdp_userName = strncpy0 PDP_LENGTH (apn_user cfg),
         pdp_userPasswd = strncpy0 PDP_LENGTH (apn_pass cfg)\<rparr>]\<rparr>"

definition start_active :: "Network_PDP_Context_t \<Rightarrow> effect" where
  "start_active c = NetStartActive (pdp_apn c) (pdp_userName c) (pdp_userPasswd c)"

definition NetworkGetStatus :: "net_state \<Rightarrow> Network_Status_t" where
  "NetworkGetStatus s = g_NetworkStatus s"

text \<open>The statuses that call \<open>NetworkAttachActivate\<close>; it reports two others, so the recursion ends.\<close>

definition calls_attach :: "Network_Status_t \<Rightarrow> bool" where
  "calls_attach st \<longleftrightarrow> st \<in> {NETWORK_STATUS_REGISTERED, NETWORK_STATUS_ATTACHED, NETWORK_STATUS_DEACTIVED}"

text \<open>
  The status callback and \<open>NetworkAttachActivate\<close> call each other; the callback stores the
  new status after its nested call has returned.
\<close>

function NetworkUpdateStatus :: "net_env \<Rightarrow> t_Config \<Rightarrow> Network_Status_t \<Rightarrow> net_state \<Rightarrow> net_state \<times> effect list"
  and NetworkAttachActivate :: "net_env \<Rightarrow> t_Config \<Rightarrow> net_state \<Rightarrow> bool \<times> net_state \<times> effect list" where
  "NetworkUpdateStatus env cfg status s =
     (let (s1, out) =
        (case status of
           NETWORK_STATUS_OFFLINE \<Rightarrow> (s, [LOGE TAG ''network offline'' []])
         | NETWORK_STATUS_REGISTERING \<Rightarrow>
             (upd_status GSM_REGISTERED_OFF s, [LOGI TAG ''state: registering to the network'' []])
         | NETWORK_STATUS_REGISTERED \<Rightarrow>
             (let (_, s', out') = NetworkAttachActivate env cfg (upd_status GSM_REGISTERED_ON s)
              in (s', LOGW TAG ''state: network registered successfully'' [] # out'))
         | NETWORK_STATUS_DETACHED \<Rightarrow> (upd_status GSM_ACTIVE_OFF s, [LOGW TAG ''state: network detached'' []])
         | NETWORK_STATUS_ATTACHING \<Rightarrow>
             (upd_status GSM_ACTIVE_OFF s, [LOGI TAG ''state: attaching to the network'' []])
         | NETWORK_STATUS_ATTACHED \<Rightarrow>
             (let (_, s', out') = NetworkAttachActivate env cfg (upd_status GSM_ACTIVE_OFF s)
              in (s', LOGW TAG ''state: network attached successfully'' [] # out'))
         | NETWORK_STATUS_DEACTIVED \<Rightarrow>
             (let (_, s', out') = NetworkAttachActivate env cfg (upd_status GSM_ACTIVE_OFF s)
              in (s', LOGE TAG ''state: network deactived'' [] # out'))
         | NETWORK_STATUS_ACTIVATING \<Rightarrow>
             (upd_status GSM_ACTIVE_OFF s, [LOGW TAG ''state: activating the network'' []])
         | NETWORK_STATUS_ACTIVATED \<Rightarrow>
             (upd_status GSM_ACTIVE_ON s, [LOGW TAG ''state: network activated successfully'' []])
         | NETWORK_STATUS_ATTACH_FAILED \<Rightarrow>
             (upd_status GSM_ACTIVE_OFF s, [LOGE TAG ''state: network attach failed'' []])
         | NETWORK_STATUS_ACTIVATE_FAILED \<Rightarrow> (s, [LOGE TAG ''state: network activation failed'' []])
         | NETWORK_STATUS_MAX \<Rightarrow> (s, []))
      in (s1\<lparr>g_NetworkStatus := status\<rparr>, out))"
| "NetworkAttachActivate env cfg s =
     (if \<not> IS_GSM_REGISTERED (systemStatus s)
      then (False, s, [LOGE TAG ''Activation skipped. Network not registered'' []])
      else case Network_GetAttachStatus env of
        None \<Rightarrow> (False, s, [LOGE TAG ''get attach status failed'' []])
      | Some attached \<Rightarrow>
        if attached = 0 then
          let (s', out) = NetworkUpdateStatus env cfg NETWORK_STATUS_ATTACHING s in
          if \<not> Network_StartAttach env
          then (False, s', out @ [NetStartAttach, LOGE TAG ''network attach failed'' []])
          else (True, s', out @ [NetStartAttach])
        else if NetworkGetStatus s = NETWORK_STATUS_ACTIVATING
        then (False, s, [LOGW TAG ''Activation skipped as it is already in progress'' []])
        else case Network_GetActiveStatus env of
          None \<Rightarrow> (False, s, [LOGE TAG ''Get activate status failed'' []])
        | Some active \<Rightarrow>
          if active = 0 then
            let (s2, out) =
              (if \<not> apn_workaround_pending s then
                 let (s1, out1) = NetworkUpdateStatus env cfg NETWORK_STATUS_ACTIVATING (SetApnContext cfg s)
                 in (s1\<lparr>apn_workaround_pending := True\<rparr>,
                     LOGI TAG ''Using valid APN to activate the network'' [] # out1 @
                     [start_active (g_NetContextArr s1 ! 0)])
               else
                 let (s1, out1) = NetworkUpdateStatus env cfg NETWORK_STATUS_ACTIVATING s
                 in (s1\<lparr>apn_workaround_pending := False\<rparr>,
                     LOGI TAG ''Using dummy APN to workaround re-activation defect'' [] # out1 @
                     [start_active (g_NetContextArr s1 ! 1)]))
            in if \<not> Network_StartActive env then (False, s2, out @ [LOGE TAG ''Failed to activate APN'' []])
               else (True, s2, out)
          else (True, s, []))"
  by pat_completeness auto

termination
  by (relation "measure (\<lambda>x. case x of Inl (_, _, st, _) \<Rightarrow> if calls_attach st then 2 else 0 | Inr _ \<Rightarrow> 1)")
    (auto simp: calls_attach_def)

declare NetworkUpdateStatus.simps [simp del] NetworkAttachActivate.simps [simp del]

section \<open>The periodic monitor\<close>

abbreviation NETWORK_MONITOR_INTERVAL_MS :: nat where "NETWORK_MONITOR_INTERVAL_MS \<equiv> 15000"

definition NetworkMonitorTimer :: "effect list" where
  "NetworkMonitorTimer = [StartTimer NETWORK_MONITOR_INTERVAL_MS ''NetworkMonitor'']"

text \<open>The watchdog: a connection of more than 20 seconds is cut, a missing one is started.\<close>

definition monitor_watch :: "net_env \<Rightarrow> t_Config \<Rightarrow> net_state \<Rightarrow> net_state \<times> effect list" where
  "monitor_watch env cfg s =
     (if g_trackerloop_tick s > 0 then
        if IS_GSM_ACTIVE (systemStatus s) then
          let now = net_time env in
          if now - g_trackerloop_tick s > 20
          then (s, [LOGE TAG ''watchdog: connection is taking too long, deactivating network!'' [], NetStartDeactive 1])
          else (s, [])
        else let (_, s', out) = NetworkAttachActivate env cfg s in (s', out)
      else (s, []))"

definition monitor_cells :: "net_env \<Rightarrow> net_state \<Rightarrow> net_state \<times> effect list" where
  "monitor_cells env s =
     (if IS_GSM_REGISTERED (systemStatus s) then
        if \<not> Network_GetCellInfoRequst env
        then (s\<lparr>g_cellInfoStr := []\<rparr>, [NetGetCellInfoRequst, LOGE TAG ''network get cell info fail'' []])
        else (s, [NetGetCellInfoRequst])
      else (s\<lparr>g_cellInfoStr := []\<rparr>, []))"

text \<open>A task handle is a number, zero being NULL.\<close>

definition NetworkMonitor :: "net_env \<Rightarrow> t_Config \<Rightarrow> nat \<Rightarrow> net_state \<Rightarrow> net_state \<times> effect list" where
  "NetworkMonitor env cfg param s =
     (if param = 0 then (s, [])
      else
        let (s1, out1) = monitor_watch env cfg s;
            (s2, out2) = monitor_cells env s1
        in (s2, out1 @ out2 @ NetworkMonitorTimer))"

section \<open>Signal quality and cell information\<close>

definition NetworkSigQualityCallback :: "int \<Rightarrow> net_state \<Rightarrow> net_state \<times> effect list" where
  "NetworkSigQualityCallback CSQ s =
     (let s' = s\<lparr>g_RSSI := csq_to_percent CSQ\<rparr>
      in (s', [LOGD TAG ''Signal Quality: %d%%'' [AInt (uint (g_RSSI s'))]]))"

text \<open>The numbers of one cell in the order in which they are printed; \<open>iRxLev\<close> is an \<open>int8_t\<close>.\<close>

definition cell_args :: "Network_Location_t \<Rightarrow> fmtarg list" where
  "cell_args c = [AInt (uint (sMcc c ! 0)), AInt (uint (sMcc c ! 1)), AInt (uint (sMcc c ! 2)),
     AInt (uint (sMnc c ! 0)), AInt (uint (sMnc c ! 1)), AInt (uint (sMnc c ! 2)),
     AInt (uint (sLac c)), AInt (uint (sCellID c)), AInt (sint (iRxLev c))]"

definition NetworkCellInfoCallback :: "Network_Location_t list \<Rightarrow> int \<Rightarrow> net_state \<Rightarrow> net_state" where
  "NetworkCellInfoCallback loc number s0 =
     (let s = s0\<lparr>g_cellInfoStr := [], g_CellInfoCount := 0\<rparr> in
      if number \<le> 0 then s
      else
        let count = (if number > int MAX_CELLINFO_COUNT then MAX_CELLINFO_COUNT else nat number);
            cells = foldl (\<lambda>a i. a[i := loc ! i]) (g_CellInfo s) [0..<count]
        in s\<lparr>g_CellInfo := cells, g_CellInfoCount := of_nat count,
             g_cellInfoStr := snprintf 128 ''%u%u%u,%u%u%u,%u,%u,%d'' (cell_args (cells ! 0))\<rparr>)"

definition NetworkPrintCellInfo :: "net_state \<Rightarrow> effect list" where
  "NetworkPrintCellInfo s =
     (if g_CellInfoCount s > 0 then
        UART_Printf (''Base stations seen: %d'' @ CRLF) [AInt (uint (g_CellInfoCount s))] @
        concat (map (\<lambda>i. UART_Printf (''  [%d] MCC: %u%u%u, MNC: %u%u%u, LAC: %u, CellID: %u, RxLev: %d'' @ CRLF)
                           (AInt (int i) # cell_args (g_CellInfo s ! i)))
                    [0..<unat (g_CellInfoCount s)])
      else UART_Printf (''Cell info not available'' @ CRLF) [])"

definition Network_GetCellInfoString :: "net_state \<Rightarrow> cstr" where
  "Network_GetCellInfoString s = g_cellInfoStr s"

section \<open>Initialisation\<close>

definition dummy_context :: Network_PDP_Context_t where
  "dummy_context = \<lparr>pdp_apn = strncpy0 PDP_LENGTH ''dummy_apn'', pdp_userName = [], pdp_userPasswd = []\<rparr>"

definition NetworkInit :: "net_state \<Rightarrow> net_state \<times> effect list" where
  "NetworkInit s =
     (s\<lparr>apn_workaround_pending := False, g_NetContextArr := (g_NetContextArr s)[1 := dummy_context]\<rparr>,
      [Sdk ''Network_SetStatusChangedCallback'' []] @ NetworkMonitorTimer)"

section \<open>What the functions do to the flags and the contexts\<close>

text \<open>The contexts handed to \<open>Network_StartActive\<close>, in order.\<close>

fun activations :: "effect list \<Rightarrow> (cstr \<times> cstr \<times> cstr) list" where
  "activations [] = []"
| "activations (NetStartActive a u p # es) = (a, u, p) # activations es"
| "activations (_ # es) = activations es"

definition is_deactivation :: "effect \<Rightarrow> bool" where
  "is_deactivation e \<longleftrightarrow> (\<exists>n. e = NetStartDeactive n)"

definition contexts_ok :: "net_state \<Rightarrow> bool" where
  "contexts_ok s \<longleftrightarrow> length (g_NetContextArr s) = 2 \<and> g_NetContextArr s ! 1 = dummy_context"

definition real_apn :: "t_Config \<Rightarrow> cstr \<times> cstr \<times> cstr" where
  "real_apn cfg = (take 63 (apn cfg), take 63 (apn_user cfg), take 63 (apn_pass cfg))"

definition dummy_apn :: "cstr \<times> cstr \<times> cstr" where
  "dummy_apn = (''dummy_apn'', [], [])"

definition next_apn :: "t_Config \<Rightarrow> net_state \<Rightarrow> cstr \<times> cstr \<times> cstr" where
  "next_apn cfg s = (if apn_workaround_pending s then dummy_apn else real_apn cfg)"

text \<open>A step starts no activation, or the one that is due, and then the other one is due.\<close>

definition flips :: "t_Config \<Rightarrow> net_state \<Rightarrow> net_state \<Rightarrow> effect list \<Rightarrow> bool" where
  "flips cfg s s' out \<longleftrightarrow>
     (activations out = [] \<and> apn_workaround_pending s' = apn_workaround_pending s) \<or>
     (activations out = [next_apn cfg s] \<and> apn_workaround_pending s' = (\<not> apn_workaround_pending s))"

lemma activations_append [simp]: "activations (a @ b) = activations a @ activations b"
  by (induction a rule: activations.induct) auto

lemma activations_Log [simp]:
  "activations (LOGE t f a # es) = activations es" "activations (LOGW t f a # es) = activations es"
  "activations (LOGI t f a # es) = activations es" "activations (LOGD t f a # es) = activations es"
  by (simp_all add: LOGE_def LOGW_def LOGI_def LOGD_def)

lemma activations_UART [simp]: "activations (UART_Printf f a) = []"
  by (simp add: UART_Printf_def Let_def)

lemma is_deactivation_simps [simp]:
  "\<not> is_deactivation (LOGE t f a)" "\<not> is_deactivation (LOGW t f a)" "\<not> is_deactivation (LOGI t f a)"
  "\<not> is_deactivation NetStartAttach" "\<not> is_deactivation (start_active c)"
  "\<not> is_deactivation NetGetCellInfoRequst" "\<not> is_deactivation (StartTimer n f)"
  "is_deactivation (NetStartDeactive n)"
  by (simp_all add: is_deactivation_def LOGE_def LOGW_def LOGI_def start_active_def)

text \<open>The two states reported from inside \<open>NetworkAttachActivate\<close>.\<close>

lemma update_ATTACHING:
  "NetworkUpdateStatus env cfg NETWORK_STATUS_ATTACHING s =
     (s\<lparr>systemStatus := GSM_ACTIVE_OFF (systemStatus s), g_NetworkStatus := NETWORK_STATUS_ATTACHING\<rparr>,
      [LOGI TAG ''state: attaching to the network'' []])"
  by (simp add: NetworkUpdateStatus.simps upd_status_def)

lemma update_ACTIVATING:
  "NetworkUpdateStatus env cfg NETWORK_STATUS_ACTIVATING s =
     (s\<lparr>systemStatus := GSM_ACTIVE_OFF (systemStatus s), g_NetworkStatus := NETWORK_STATUS_ACTIVATING\<rparr>,
      [LOGW TAG ''state: activating the network'' []])"
  by (simp add: NetworkUpdateStatus.simps upd_status_def)

lemma activations_start [simp]:
  "activations (start_active c # es) = (pdp_apn c, pdp_userName c, pdp_userPasswd c) # activations es"
  by (simp add: start_active_def)

lemma dummy_activation: "contexts_ok s \<Longrightarrow> activations (start_active (g_NetContextArr s ! Suc 0) # es) = dummy_apn # activations es"
  by (simp add: contexts_ok_def dummy_context_def dummy_apn_def strncpy0_fits)

lemma real_activation:
  "contexts_ok s \<Longrightarrow> activations (start_active (g_NetContextArr (SetApnContext cfg s) ! 0) # es) = real_apn cfg # activations es"
  by (simp add: contexts_ok_def SetApnContext_def real_apn_def strncpy0_def)

lemma SetApnContext_simps [simp]:
  "systemStatus (SetApnContext cfg s) = systemStatus s"
  "apn_workaround_pending (SetApnContext cfg s) = apn_workaround_pending s"
  "g_NetworkStatus (SetApnContext cfg s) = g_NetworkStatus s"
  "g_CellInfo (SetApnContext cfg s) = g_CellInfo s"
  "g_CellInfoCount (SetApnContext cfg s) = g_CellInfoCount s"
  "g_cellInfoStr (SetApnContext cfg s) = g_cellInfoStr s"
  "g_RSSI (SetApnContext cfg s) = g_RSSI s"
  "g_trackerloop_tick (SetApnContext cfg s) = g_trackerloop_tick s"
  by (simp_all add: SetApnContext_def)

lemma contexts_ok_SetApnContext [simp]: "contexts_ok s \<Longrightarrow> contexts_ok (SetApnContext cfg s)"
  by (simp add: contexts_ok_def SetApnContext_def)

lemma contexts_ok_upd [simp]:
  "contexts_ok (upd_status f s) = contexts_ok s"
  "contexts_ok (s\<lparr>systemStatus := b\<rparr>) = contexts_ok s"
  "contexts_ok (s\<lparr>g_NetworkStatus := st\<rparr>) = contexts_ok s"
  "contexts_ok (s\<lparr>apn_workaround_pending := p\<rparr>) = contexts_ok s"
  "contexts_ok (s\<lparr>g_cellInfoStr := t\<rparr>) = contexts_ok s"
  "contexts_ok (s\<lparr>g_RSSI := r\<rparr>) = contexts_ok s"
  "contexts_ok (s\<lparr>g_trackerloop_tick := k\<rparr>) = contexts_ok s"
  by (simp_all add: contexts_ok_def upd_status_def)

lemma next_apn_upd [simp]:
  "next_apn cfg (upd_status f s) = next_apn cfg s"
  "next_apn cfg (s\<lparr>systemStatus := b\<rparr>) = next_apn cfg s"
  "next_apn cfg (s\<lparr>g_NetworkStatus := st\<rparr>) = next_apn cfg s"
  by (simp_all add: next_apn_def upd_status_def)

lemma upd_status_simps [simp]:
  "systemStatus (upd_status f s) = f (systemStatus s)"
  "apn_workaround_pending (upd_status f s) = apn_workaround_pending s"
  "g_NetworkStatus (upd_status f s) = g_NetworkStatus s"
  "g_CellInfo (upd_status f s) = g_CellInfo s" "g_CellInfoCount (upd_status f s) = g_CellInfoCount s"
  "g_cellInfoStr (upd_status f s) = g_cellInfoStr s"
  "g_trackerloop_tick (upd_status f s) = g_trackerloop_tick s"
  by (simp_all add: upd_status_def)

text \<open>When an activation may start.\<close>

definition may_activate :: "net_env \<Rightarrow> net_state \<Rightarrow> bool" where
  "may_activate env s \<longleftrightarrow> IS_GSM_REGISTERED (systemStatus s) \<and>
     (case Network_GetAttachStatus env of None \<Rightarrow> False | Some a \<Rightarrow> a \<noteq> 0) \<and>
     g_NetworkStatus s \<noteq> NETWORK_STATUS_ACTIVATING \<and> Network_GetActiveStatus env = Some 0"

text \<open>The outcome of an activation, as an equation.\<close>

definition failed_note :: "net_env \<Rightarrow> effect list" where
  "failed_note env = (if Network_StartActive env then [] else [LOGE TAG ''Failed to activate APN'' []])"

lemma failed_note_simps [simp]: "activations (failed_note env) = []" "list_all (Not \<circ> is_deactivation) (failed_note env)"
  by (simp_all add: failed_note_def)

lemma attach_dummy:
  assumes "may_activate env s" "apn_workaround_pending s"
  shows "NetworkAttachActivate env cfg s = (Network_StartActive env,
    s\<lparr>systemStatus := GSM_ACTIVE_OFF (systemStatus s), g_NetworkStatus := NETWORK_STATUS_ACTIVATING, apn_workaround_pending := False\<rparr>,
    [LOGI TAG ''Using dummy APN to workaround re-activation defect'' [], LOGW TAG ''state: activating the network'' [],
     start_active (g_NetContextArr s ! Suc 0)] @ failed_note env)"
  using assms by (auto simp: NetworkAttachActivate.simps may_activate_def NetworkGetStatus_def update_ACTIVATING failed_note_def
      split: option.splits if_splits)

lemma attach_real:
  assumes "may_activate env s" "\<not> apn_workaround_pending s"
  shows "NetworkAttachActivate env cfg s = (Network_StartActive env,
    (SetApnContext cfg s)\<lparr>systemStatus := GSM_ACTIVE_OFF (systemStatus s), g_NetworkStatus := NETWORK_STATUS_ACTIVATING,
       apn_workaround_pending := True\<rparr>,
    [LOGI TAG ''Using valid APN to activate the network'' [], LOGW TAG ''state: activating the network'' [],
     start_active (g_NetContextArr (SetApnContext cfg s) ! 0)] @ failed_note env)"
  using assms by (auto simp: NetworkAttachActivate.simps may_activate_def NetworkGetStatus_def update_ACTIVATING failed_note_def
      split: option.splits if_splits)

lemma attach_activates:
  assumes "contexts_ok s" "may_activate env s"
  obtains s' out where "NetworkAttachActivate env cfg s = (Network_StartActive env, s', out)"
    "activations out = [next_apn cfg s]" "apn_workaround_pending s' = (\<not> apn_workaround_pending s)"
    "g_NetworkStatus s' = NETWORK_STATUS_ACTIVATING" "systemStatus s' = GSM_ACTIVE_OFF (systemStatus s)"
    "contexts_ok s'" "g_trackerloop_tick s' = g_trackerloop_tick s" "list_all (Not \<circ> is_deactivation) out"

proof (cases "apn_workaround_pending s")
  case True
  show ?thesis
    by (rule that [OF attach_dummy [OF assms(2) True]])
      (use assms(1) True in \<open>simp_all add: next_apn_def dummy_activation del: activations_start\<close>)
next
  case False
  show ?thesis
    by (rule that [OF attach_real [OF assms(2) False]])
      (use assms(1) False in \<open>simp_all add: next_apn_def real_activation del: activations_start\<close>)

qed

definition cells_ok :: "net_state \<Rightarrow> bool" where
  "cells_ok s \<longleftrightarrow> length (g_CellInfo s) = MAX_CELLINFO_COUNT \<and> unat (g_CellInfoCount s) \<le> MAX_CELLINFO_COUNT \<and>
     length (g_cellInfoStr s) < 128"

definition net_wf :: "net_state \<Rightarrow> bool" where
  "net_wf s \<longleftrightarrow> contexts_ok s \<and> cells_ok s"

lemma cells_ok_upd [simp]:
  "cells_ok (upd_status f s) = cells_ok s"
  "cells_ok (s\<lparr>systemStatus := b\<rparr>) = cells_ok s"
  "cells_ok (s\<lparr>g_NetworkStatus := st\<rparr>) = cells_ok s"
  "cells_ok (s\<lparr>apn_workaround_pending := p\<rparr>) = cells_ok s"
  "cells_ok (s\<lparr>g_RSSI := r\<rparr>) = cells_ok s"
  "cells_ok (s\<lparr>g_trackerloop_tick := k\<rparr>) = cells_ok s"
  "cells_ok (SetApnContext cfg s) = cells_ok s"
  by (simp_all add: cells_ok_def upd_status_def)

lemma cells_ok_clear [simp]: "cells_ok s \<Longrightarrow> cells_ok (s\<lparr>g_cellInfoStr := []\<rparr>)"
  by (simp add: cells_ok_def)

lemma attach_idle:
  assumes "\<not> may_activate env s"
  obtains r s' out where "NetworkAttachActivate env cfg s = (r, s', out)" "activations out = []"
    "list_all (Not \<circ> is_deactivation) out"
    "s' = s \<or> s' = s\<lparr>systemStatus := GSM_ACTIVE_OFF (systemStatus s), g_NetworkStatus := NETWORK_STATUS_ATTACHING\<rparr>"
  using assms
  by (cases "NetworkAttachActivate env cfg s")
    (auto simp: NetworkAttachActivate.simps may_activate_def NetworkGetStatus_def update_ATTACHING Let_def
      split: option.splits if_splits)

definition keeps :: "t_Config \<Rightarrow> net_state \<Rightarrow> net_state \<Rightarrow> effect list \<Rightarrow> bool" where
  "keeps cfg s s' out \<longleftrightarrow> net_wf s' \<and> flips cfg s s' out \<and> list_all (Not \<circ> is_deactivation) out \<and>
    g_trackerloop_tick s' = g_trackerloop_tick s \<and>
    IS_INITIALIZED (systemStatus s') = IS_INITIALIZED (systemStatus s)"

text \<open>What every path of \<open>NetworkAttachActivate\<close> keeps.\<close>

lemma attach_keeps_both:
  assumes "net_wf s" "NetworkAttachActivate env cfg s = (r, s', out)"
  shows "keeps cfg s s' out \<and> IS_GSM_REGISTERED (systemStatus s') = IS_GSM_REGISTERED (systemStatus s)"
proof (cases "may_activate env s")
  case True
  from assms(1) have c: "contexts_ok s" by (simp add: net_wf_def)
  show ?thesis
  proof (cases "apn_workaround_pending s")
    case p: True
    show ?thesis using assms attach_dummy [OF True p, of cfg] c p
      by (auto simp: keeps_def net_wf_def flips_def next_apn_def dummy_activation simp del: activations_start)
  next
    case p: False
    show ?thesis using assms attach_real [OF True p, of cfg] c p
      by (auto simp: keeps_def net_wf_def flips_def next_apn_def real_activation simp del: activations_start)
  qed
next
  case False
  then show ?thesis using assms by (elim attach_idle [of env s cfg]) (auto simp: keeps_def net_wf_def flips_def)
qed

lemmas attach_keeps = attach_keeps_both [THEN conjunct1] attach_keeps_both [THEN conjunct2]

lemma flips_upd [simp]:
  "flips cfg s (s'\<lparr>g_NetworkStatus := st\<rparr>) out = flips cfg s s' out"
  "flips cfg s (s'\<lparr>systemStatus := b\<rparr>) out = flips cfg s s' out"
  "flips cfg s (s'\<lparr>g_cellInfoStr := t\<rparr>) out = flips cfg s s' out"
  "flips cfg (upd_status f s) s' out = flips cfg s s' out"
  "flips cfg s (upd_status f s') out = flips cfg s s' out"
  by (simp_all add: flips_def)

lemma flips_none [simp]: "flips cfg s s []"
  by (simp add: flips_def)

lemma flips_Log [simp]:
  "flips cfg s s' (LOGE t f a # es) = flips cfg s s' es" "flips cfg s s' (LOGW t f a # es) = flips cfg s s' es"
  "flips cfg s s' (LOGI t f a # es) = flips cfg s s' es"
  by (simp_all add: flips_def)

lemma keeps_upd:
  "net_wf s \<Longrightarrow> keeps cfg s s []"
  "keeps cfg (upd_status GSM_ACTIVE_OFF s) s' out = keeps cfg s s' out"
  "keeps cfg (upd_status GSM_REGISTERED_ON s) s' out = keeps cfg s s' out"
  "keeps cfg s (upd_status GSM_ACTIVE_OFF s') out = keeps cfg s s' out"
  "keeps cfg s (upd_status GSM_ACTIVE_ON s') out = keeps cfg s s' out"
  "keeps cfg s (upd_status GSM_REGISTERED_OFF s') out = keeps cfg s s' out"
  "keeps cfg s (s'\<lparr>g_NetworkStatus := st\<rparr>) out = keeps cfg s s' out"
  "keeps cfg s s' (LOGE t f a # out) = keeps cfg s s' out"
  "keeps cfg s s' (LOGW t f a # out) = keeps cfg s s' out"
  "keeps cfg s s' (LOGI t f a # out) = keeps cfg s s' out"
  by (auto simp: keeps_def net_wf_def)

text \<open>The callback records every status.\<close>

lemma update_keeps:
  assumes "net_wf s" "NetworkUpdateStatus env cfg st s = (s', out)"
  shows "keeps cfg s s' out \<and> g_NetworkStatus s' = st"
proof -
  have w: "net_wf (upd_status f s)" for f using assms(1) by (simp add: net_wf_def)
  obtain r1 s1 o1 where a1: "NetworkAttachActivate env cfg (upd_status GSM_REGISTERED_ON s) = (r1, s1, o1)"
    by (metis prod_cases3)
  obtain r2 s2 o2 where a2: "NetworkAttachActivate env cfg (upd_status GSM_ACTIVE_OFF s) = (r2, s2, o2)"
    by (metis prod_cases3)
  note k = attach_keeps(1) [OF w a1] attach_keeps(1) [OF w a2]
  show ?thesis using assms k
    by (cases st; simp add: NetworkUpdateStatus.simps a1 a2; clarsimp simp: keeps_upd)
qed

section \<open>The monitor\<close>

lemma watch_keeps:
  assumes "net_wf s" "monitor_watch env cfg s = (s', out)"
  shows "net_wf s'" "flips cfg s s' out" "g_trackerloop_tick s' = g_trackerloop_tick s"
    "IS_INITIALIZED (systemStatus s') = IS_INITIALIZED (systemStatus s)"
    "filter is_deactivation out =
      (if g_trackerloop_tick s > 0 \<and> IS_GSM_ACTIVE (systemStatus s) \<and> net_time env - g_trackerloop_tick s > 20
       then [NetStartDeactive 1] else [])"
    "NetGetCellInfoRequst \<notin> set out"
proof -
  obtain r1 s1 o1 where a: "NetworkAttachActivate env cfg s = (r1, s1, o1)" by (metis prod_cases3)
  note k = attach_keeps(1) [OF assms(1) a, unfolded keeps_def]
  have f: "filter is_deactivation o1 = []" using k by (simp add: filter_empty_conv list_all_iff)
  have c: "NetGetCellInfoRequst \<notin> set o1"
    using a by (auto simp: NetworkAttachActivate.simps update_ATTACHING update_ACTIVATING LOGE_def LOGI_def LOGW_def
        start_active_def Let_def split: option.splits if_splits)
  show "net_wf s'" "flips cfg s s' out" "g_trackerloop_tick s' = g_trackerloop_tick s"
    "IS_INITIALIZED (systemStatus s') = IS_INITIALIZED (systemStatus s)"
    using assms k by (auto simp: monitor_watch_def a Let_def flips_def split: if_splits)
  show "filter is_deactivation out =
      (if g_trackerloop_tick s > 0 \<and> IS_GSM_ACTIVE (systemStatus s) \<and> net_time env - g_trackerloop_tick s > 20
       then [NetStartDeactive 1] else [])"
    using assms(2) f by (auto simp: monitor_watch_def a Let_def split: if_splits)
  show "NetGetCellInfoRequst \<notin> set out"
    using assms(2) c by (auto simp: monitor_watch_def a Let_def LOGE_def split: if_splits)
qed

lemma cells_keeps:
  assumes "monitor_cells env s = (s', out)"
  shows "net_wf s \<Longrightarrow> net_wf s'" "activations out = []" "filter is_deactivation out = []"
    "systemStatus s' = systemStatus s" "g_trackerloop_tick s' = g_trackerloop_tick s"
    "apn_workaround_pending s' = apn_workaround_pending s"
    "g_NetworkStatus s' = g_NetworkStatus s" "g_NetContextArr s' = g_NetContextArr s"
    "\<not> IS_GSM_REGISTERED (systemStatus s) \<Longrightarrow> g_cellInfoStr s' = [] \<and> NetGetCellInfoRequst \<notin> set out"
  using assms by (auto simp: monitor_cells_def net_wf_def split: if_splits)

lemma monitor_keeps:
  assumes "net_wf s" "NetworkMonitor env cfg param s = (s', out)"
  shows "net_wf s' \<and> flips cfg s s' out \<and> g_trackerloop_tick s' = g_trackerloop_tick s \<and>
    IS_INITIALIZED (systemStatus s') = IS_INITIALIZED (systemStatus s)"
proof -
  obtain s1 o1 where w: "monitor_watch env cfg s = (s1, o1)" by fastforce
  obtain s2 o2 where c: "monitor_cells env s1 = (s2, o2)" by fastforce
  show ?thesis using assms(2) assms(1) watch_keeps [OF assms(1) w] cells_keeps [OF c]
    by (auto simp: NetworkMonitor_def w c flips_def NetworkMonitorTimer_def split: if_splits)
qed

lemma monitor_watchdog:
  assumes "net_wf s" "0 < param"
  shows "\<exists>s' acts. NetworkMonitor env cfg param s = (s', acts @ NetworkMonitorTimer) \<and>
    filter is_deactivation acts =
      (if g_trackerloop_tick s > 0 \<and> IS_GSM_ACTIVE (systemStatus s) \<and> net_time env - g_trackerloop_tick s > 20
       then [NetStartDeactive 1] else []) \<and>
    (IS_GSM_REGISTERED (systemStatus s') \<or> g_cellInfoStr s' = [] \<and> NetGetCellInfoRequst \<notin> set acts)"
proof -
  obtain s1 o1 where w: "monitor_watch env cfg s = (s1, o1)" by fastforce
  obtain s2 o2 where c: "monitor_cells env s1 = (s2, o2)" by fastforce
  show ?thesis using assms(2) watch_keeps(5,6) [OF assms(1) w] cells_keeps(3,4,9) [OF c]
    by (intro exI [of _ s2] exI [of _ "o1 @ o2"]) (auto simp: NetworkMonitor_def w c)
qed

section \<open>Cell information\<close>

lemma fold_copy:
  assumes "n \<le> length loc" "n \<le> length xs"
  shows "foldl (\<lambda>a i. a[i := loc ! i]) xs [0..<n] = take n loc @ drop n xs"
  using assms
proof (induction n)
  case (Suc n)
  then have "drop n xs = xs ! n # drop (Suc n) xs" by (simp add: Cons_nth_drop_Suc)
  then show ?case using Suc by (simp add: take_Suc_conv_app_nth list_update_append)
qed simp

lemma length_u8_str: "length (nat_str (unat (x::u8))) \<le> 3"
  by (rule length_nat_str) (use unsigned_less [where 'a = nat, of x] in simp_all)

lemma length_u16_str: "length (nat_str (unat (x::u16))) \<le> 5"
  by (rule length_nat_str) (use unsigned_less [where 'a = nat, of x] in simp_all)

lemma length_s8_str: "length (int_str (sint (x::8 word))) \<le> 4"
proof -
  have "- 128 \<le> sint x" "sint x < 128" using sint_ge [of x] sint_lt [of x] by simp_all
  then have "nat (sint x) < 10 ^ 3" "nat (- sint x) < 10 ^ 3" by simp_all
  then have "length (nat_str (nat (sint x))) \<le> 3" "length (nat_str (nat (- sint x))) \<le> 3"
    by (intro length_nat_str; simp)+
  then show ?thesis by (simp add: int_str_def)
qed

definition cell_text :: "Network_Location_t \<Rightarrow> cstr" where
  "cell_text c = concat (map (\<lambda>b. nat_str (unat b)) [sMcc c ! 0, sMcc c ! 1, sMcc c ! 2]) @ '','' @
     concat (map (\<lambda>b. nat_str (unat b)) [sMnc c ! 0, sMnc c ! 1, sMnc c ! 2]) @ '','' @
     nat_str (unat (sLac c)) @ '','' @ nat_str (unat (sCellID c)) @ '','' @ int_str (sint (iRxLev c))"

lemma cell_printed: "sprintf ''%u%u%u,%u%u%u,%u,%u,%d'' (cell_args c) = cell_text c"
  by (simp add: cell_args_def cell_text_def cstr_simps int_str_nonneg nat_uint_eq)

lemma length_cell_text: "length (cell_text c) \<le> 36"
  using length_u8_str [of "sMcc c ! 0"] length_u8_str [of "sMcc c ! 1"] length_u8_str [of "sMcc c ! 2"]
    length_u8_str [of "sMnc c ! 0"] length_u8_str [of "sMnc c ! 1"] length_u8_str [of "sMnc c ! 2"]
    length_u16_str [of "sLac c"] length_u16_str [of "sCellID c"] length_s8_str [of "iRxLev c"]
  by (simp add: cell_text_def)

definition cells_seen :: "int \<Rightarrow> nat" where
  "cells_seen number = min (nat number) MAX_CELLINFO_COUNT"

lemma cell_callback:
  assumes "cells_ok s" "cells_seen number \<le> length loc"
  shows "NetworkCellInfoCallback loc number s =
    s\<lparr>g_CellInfo := take (cells_seen number) loc @ drop (cells_seen number) (g_CellInfo s),
      g_CellInfoCount := of_nat (cells_seen number),
      g_cellInfoStr := (if cells_seen number = 0 then [] else cell_text (loc ! 0))\<rparr>"
proof (cases "number \<le> 0")
  case True
  then show ?thesis by (simp add: NetworkCellInfoCallback_def cells_seen_def)
next
  case False
  define n where "n = cells_seen number"
  have n: "(if number > int MAX_CELLINFO_COUNT then MAX_CELLINFO_COUNT else nat number) = n" "0 < n" "n \<le> 8"
    using False by (auto simp: n_def cells_seen_def)
  have l: "n \<le> length loc" "n \<le> length (g_CellInfo s)" using assms n by (auto simp: n_def cells_ok_def)
  have f: "foldl (\<lambda>a i. a[i := loc ! i]) (g_CellInfo s) [0..<n] = take n loc @ drop n (g_CellInfo s)"
    using l by (rule fold_copy)
  have z: "(take n loc @ drop n (g_CellInfo s)) ! 0 = loc ! 0" using n l by (simp add: nth_append)
  show ?thesis unfolding n_def [symmetric]
    using False n length_cell_text [of "loc ! 0"]
    by (simp add: NetworkCellInfoCallback_def n(1) Let_def f z snprintf_def cell_printed snprintf_trunc_fits)
qed

lemma cell_lines:
  assumes "cells_ok s"
  shows "length (NetworkPrintCellInfo s) = (if g_CellInfoCount s = 0 then 1 else Suc (unat (g_CellInfoCount s)))"
proof -
  have "length (concat (map (\<lambda>i. UART_Printf (CHR '' '' # f) (a i)) xs)) = length xs" for f a and xs :: "nat list"
    by (induction xs) simp_all
  then show ?thesis by (simp add: NetworkPrintCellInfo_def word_gt_0)
qed

section \<open>The properties of the component\<close>

text \<open>The static variables at start-up: all zero.\<close>

definition zero_cell :: Network_Location_t where
  "zero_cell = \<lparr>sMcc = [0, 0, 0], sMnc = [0, 0, 0], sLac = 0, sCellID = 0, iBsic = 0, iRxLev = 0, iRxLevSub = 0, nArfcn = 0\<rparr>"

definition net_boot :: net_state where
  "net_boot = \<lparr>systemStatus = 0, g_trackerloop_tick = 0, apn_workaround_pending = False,
     g_NetworkStatus = NETWORK_STATUS_OFFLINE,
     g_NetContextArr = replicate 2 \<lparr>pdp_apn = [], pdp_userName = [], pdp_userPasswd = []\<rparr>,
     g_CellInfo = replicate MAX_CELLINFO_COUNT zero_cell, g_CellInfoCount = 0, g_RSSI = 0, g_cellInfoStr = []\<rparr>"

lemma net_wf_init: "net_wf (fst (NetworkInit net_boot))"
  by (simp add: net_wf_def contexts_ok_def cells_ok_def NetworkInit_def net_boot_def)

text \<open>
  C24. \<open>NetworkAttachActivate\<close> starts an activation exactly when the modem is registered and
  attached, no activation was reported to be in progress and none is active. It then uses the
  configured APN, cut to the size of its field, or the dummy one, whichever is due, makes the
  other one due, records the activating state and clears the active flag, and it returns what
  the modem answered; otherwise no activation is started and the due APN stays.
\<close>

theorem NetworkAttachActivate_guard:
  assumes "net_wf s"
  shows "\<exists>r s' out. NetworkAttachActivate env cfg s = (r, s', out) \<and> net_wf s' \<and>
    (if may_activate env s
     then activations out = [next_apn cfg s] \<and> apn_workaround_pending s' = (\<not> apn_workaround_pending s) \<and>
       g_NetworkStatus s' = NETWORK_STATUS_ACTIVATING \<and> \<not> IS_GSM_ACTIVE (systemStatus s') \<and> r = Network_StartActive env
     else activations out = [] \<and> apn_workaround_pending s' = apn_workaround_pending s)"
proof (cases "may_activate env s")
  case True
  have "contexts_ok s" using assms by (simp add: net_wf_def)
  from attach_activates [OF this True, of cfg] show ?thesis using True attach_keeps(1) [OF assms, of env cfg]
    by (metis (no_types, lifting) active.is_on_off keeps_def)
next
  case False
  obtain r s' out where a: "NetworkAttachActivate env cfg s = (r, s', out)" by (metis prod_cases3)
  have "activations out = []" using attach_idle [OF False, of cfg] a by fastforce
  then show ?thesis using False a attach_keeps(1) [OF assms a] by (auto simp: keeps_def flips_def)
qed

text \<open>The witnesses use a registered and attached modem without an active context.\<close>

definition env_idle :: net_env where
  "env_idle = \<lparr>Network_GetAttachStatus = Some 1, Network_StartAttach = True, Network_GetActiveStatus = Some 0,
     Network_StartActive = True, Network_GetCellInfoRequst = True, net_time = 1000\<rparr>"

definition net_example :: net_state where
  "net_example = upd_status GSM_REGISTERED_ON (fst (NetworkInit net_boot))\<lparr>g_trackerloop_tick := 990\<rparr>"

lemma net_wf_example: "net_wf net_example"
  using net_wf_init by (simp add: net_example_def net_wf_def)

lemma may_activate_example: "may_activate env_idle net_example"
  by (simp add: may_activate_def env_idle_def net_example_def NetworkInit_def net_boot_def)

lemma NetworkAttachActivate_guard_witness:
  "\<exists>s' out. NetworkAttachActivate env_idle default_config net_example = (True, s', out) \<and>
     activations out = [next_apn default_config net_example]"
  using NetworkAttachActivate_guard [OF net_wf_example, of env_idle default_config] may_activate_example
  by (auto simp: env_idle_def)

text \<open>
  C25. the record of an activation in progress is lost when it was started from the status
  callback: the callback stores the status it was called with after its nested call, so the
  next tick of the monitor starts a second activation, with the other APN, while the first is
  still under way.
\<close>

theorem activation_guard_lost:
  assumes "net_wf s" "calls_attach st" "IS_GSM_REGISTERED (systemStatus s)" "may_activate env s"
    "0 < g_trackerloop_tick s" "\<not> IS_GSM_ACTIVE (systemStatus s)" "0 < param"
  shows "\<exists>s1 o1 s2 o2. NetworkUpdateStatus env cfg st s = (s1, o1) \<and> activations o1 = [next_apn cfg s] \<and>
    g_NetworkStatus s1 = st \<and> NetworkMonitor env cfg param s1 = (s2, o2) \<and>
    activations o2 = [if apn_workaround_pending s then real_apn cfg else dummy_apn]"
proof -
  define f where "f = (if st = NETWORK_STATUS_REGISTERED then GSM_REGISTERED_ON else GSM_ACTIVE_OFF)"
  have m: "may_activate env (upd_status f s)" using assms(3,4) by (auto simp: may_activate_def f_def)
  have w: "net_wf (upd_status f s)" "contexts_ok (upd_status f s)" using assms(1) by (simp_all add: net_wf_def)
  obtain s' out where a: "NetworkAttachActivate env cfg (upd_status f s) = (Network_StartActive env, s', out)"
    "activations out = [next_apn cfg s]" "apn_workaround_pending s' = (\<not> apn_workaround_pending s)"
    "systemStatus s' = GSM_ACTIVE_OFF (f (systemStatus s))" "g_trackerloop_tick s' = g_trackerloop_tick s"
    using attach_activates [OF w(2) m, of cfg] by (metis next_apn_upd(1) upd_status_simps(1,2,7))
  define s1 where "s1 = s'\<lparr>g_NetworkStatus := st\<rparr>"
  obtain o1 where u: "NetworkUpdateStatus env cfg st s = (s1, o1)" "activations o1 = [next_apn cfg s]"
    using assms(2) a(1,2) unfolding calls_attach_def s1_def f_def by (auto simp: NetworkUpdateStatus.simps)
  have w1: "net_wf s1" using update_keeps [OF assms(1) u(1)] by (simp add: keeps_def)
  have m1: "may_activate env s1" using m a(4) assms(2)
    by (auto simp: may_activate_def s1_def calls_attach_def)
  obtain s2 out2 where b: "NetworkAttachActivate env cfg s1 = (Network_StartActive env, s2, out2)"
    "activations out2 = [next_apn cfg s1]" using attach_activates [of s1 env cfg] w1 m1 by (metis net_wf_def)
  have "monitor_watch env cfg s1 = (s2, out2)"
    using assms(5) a(4,5) b(1) by (simp add: monitor_watch_def s1_def)
  moreover obtain s3 out3 where c: "monitor_cells env s2 = (s3, out3)" by fastforce
  ultimately have "NetworkMonitor env cfg param s1 = (s3, out2 @ out3 @ NetworkMonitorTimer)"
    using assms(7) by (simp add: NetworkMonitor_def)
  moreover have "activations (out2 @ out3 @ NetworkMonitorTimer) = [if apn_workaround_pending s then real_apn cfg else dummy_apn]"
    using b(2) cells_keeps(2) [OF c] a(3) by (simp add: NetworkMonitorTimer_def next_apn_def s1_def)
  moreover have "g_NetworkStatus s1 = st" by (simp add: s1_def)
  ultimately show ?thesis using u by blast
qed

lemma activation_guard_lost_witness:
  "\<exists>s1 o1 s2 o2. NetworkUpdateStatus env_idle default_config NETWORK_STATUS_ATTACHED net_example = (s1, o1) \<and>
     activations o1 = [real_apn default_config] \<and> NetworkMonitor env_idle default_config 1 s1 = (s2, o2) \<and>
     activations o2 = [dummy_apn]"
proof -
  have "\<not> apn_workaround_pending net_example" "IS_GSM_REGISTERED (systemStatus net_example)"
    "0 < g_trackerloop_tick net_example" "\<not> IS_GSM_ACTIVE (systemStatus net_example)"
    by (simp_all add: net_example_def NetworkInit_def net_boot_def, simp add: IS_GSM_ACTIVE_def)
  moreover have "calls_attach NETWORK_STATUS_ATTACHED" by (simp add: calls_attach_def)
  ultimately show ?thesis
    using activation_guard_lost [of net_example NETWORK_STATUS_ATTACHED env_idle 1 default_config]
      net_wf_example may_activate_example by (fastforce simp: next_apn_def)
qed

text \<open>
  C26. The cell information callback keeps the first eight cells reported, in order, and the old
  entries behind them; the count is never above eight. The string for the tracker holds five
  fields of the serving cell separated by commas, the digits of the country code, those of the network
  code, area, cell and level, never truncated to its 128 bytes, or is empty when no cell was
  reported. The manual (\<open>README.md\<close>) documents four fields, the two codes written as one
  number (\<open>310410,12345,67890,-85\<close>): the code puts a comma between them.
  Printing gives one line per cell and a heading, or one line saying that there is none.
\<close>

theorem NetworkCellInfoCallback_correct:
  assumes "cells_ok s" "cells_seen number \<le> length loc"
  shows "\<exists>s'. NetworkCellInfoCallback loc number s = s' \<and> cells_ok s' \<and>
    unat (g_CellInfoCount s') = min (nat number) 8 \<and>
    g_CellInfo s' = take (min (nat number) 8) loc @ drop (min (nat number) 8) (g_CellInfo s) \<and>
    Network_GetCellInfoString s' = (if number \<le> 0 then [] else cell_text (loc ! 0)) \<and>
    length (NetworkPrintCellInfo s') = Suc (min (nat number) 8)"
proof -
  define s' where "s' = NetworkCellInfoCallback loc number s"
  define n where "n = cells_seen number"
  have n: "n \<le> 8" "n = min (nat number) 8" "n = 0 \<longleftrightarrow> number \<le> 0" by (auto simp: n_def cells_seen_def)
  have l: "length (g_CellInfo s) = 8" using assms(1) by (simp add: cells_ok_def)
  have e: "s' = s\<lparr>g_CellInfo := take n loc @ drop n (g_CellInfo s), g_CellInfoCount := of_nat n,
      g_cellInfoStr := (if n = 0 then [] else cell_text (loc ! 0))\<rparr>"
    unfolding s'_def n_def by (rule cell_callback [OF assms])
  have u: "unat (of_nat n :: u8) = n" using n(1) by (simp add: unat_of_nat)
  have c: "cells_ok s'" using n(1) l assms(2) length_cell_text [of "loc ! 0"]
    by (simp add: cells_ok_def e u flip: n_def)
  have p: "length (NetworkPrintCellInfo s') = Suc n" unfolding cell_lines [OF c]
    using u by (auto simp: e unat_eq_0)
  show ?thesis unfolding s'_def [symmetric] n(2) [symmetric]
    using c p n(3) u by (auto simp: e Network_GetCellInfoString_def)
qed

definition cell_example :: Network_Location_t where
  "cell_example = zero_cell\<lparr>sMcc := [2, 6, 0], sMnc := [0, 2, 15], sLac := 58120, sCellID := 3345, iRxLev := - 61\<rparr>"

lemma NetworkCellInfoCallback_correct_witness:
  "Network_GetCellInfoString (NetworkCellInfoCallback (replicate 9 cell_example) 9 net_example) = cell_text cell_example \<and>
   unat (g_CellInfoCount (NetworkCellInfoCallback (replicate 9 cell_example) 9 net_example)) = 8"
  using NetworkCellInfoCallback_correct [of net_example 9 "replicate 9 cell_example"] net_wf_example
  by (simp add: net_wf_def cells_seen_def)




end
