(* ===== verification/Tracker.thy ===== *)
theory Tracker
  imports Gps_Driver Http Network
begin

text \<open>
  \<open>app/src/gps_tracker.c\<close>: the position record computed from the last NMEA sentences, its
  printed form, and the reporting task: waiting for the network and the receiver, setting up
  the receiver, and one turn of the reporting loop, which posts the position and then sleeps.
  Other tasks run between two steps; what they changed is seen through the arguments.
\<close>

definition GPS_TAG :: cstr where "GPS_TAG = ''GPS''"

record GpsTrackerData_t =
  td_timestamp :: int
  td_latitude :: fpv
  td_longitude :: fpv
  td_speed :: fpv
  td_bearing :: fpv
  td_altitude :: fpv
  td_accuracy :: fpv

definition gps_Init :: "u8 \<Rightarrow> gps_state \<Rightarrow> u8 \<times> gps_state" where
  "gps_Init sys gst = (GPS_STATUS_OFF sys, GPS_Init gst)"

section \<open>The position record\<close>

text \<open>
  \<open>now\<close> is \<open>time(NULL)\<close>, used when the fix is not valid. \<open>None\<close> is a division by zero in
  \<open>minmea_tocoord\<close>.
\<close>

definition gps_Process :: "t_Config \<Rightarrow> int \<Rightarrow> GPS_Info_t \<Rightarrow> GpsTrackerData_t option" where
  "gps_Process cfg now gpsInfo =
     Option.bind (mk_time (rmc_date (gi_rmc gpsInfo)) (rmc_time (gi_rmc gpsInfo))) (\<lambda>timestamp.
     Option.bind (minmea_tocoord (rmc_latitude (gi_rmc gpsInfo))) (\<lambda>latitude.
     Option.bind (minmea_tocoord (rmc_longitude (gi_rmc gpsInfo))) (\<lambda>longitude.
       let d = \<lparr>td_timestamp = timestamp,
           td_latitude = latitude,
           td_longitude = longitude,
           td_speed = minmea_tofloat (rmc_speed (gi_rmc gpsInfo)),
           td_bearing = minmea_tofloat (rmc_course (gi_rmc gpsInfo)),
           td_altitude = minmea_tofloat (gga_altitude (gi_gga gpsInfo)),
           td_accuracy = f32_mul (minmea_tofloat (gsa_hdop (gi_gsa gpsInfo ! 0))) (gps_uere cfg)\<rparr>
       in Some (if \<not> rmc_valid (gi_rmc gpsInfo) then d\<lparr>td_timestamp := now\<rparr> else d))))"

definition gps_GetLastLatitude :: "GpsTrackerData_t \<Rightarrow> fpv" where "gps_GetLastLatitude d = td_latitude d"
definition gps_GetLastLongitude :: "GpsTrackerData_t \<Rightarrow> fpv" where "gps_GetLastLongitude d = td_longitude d"

definition gps_isValid :: "GPS_Info_t \<Rightarrow> bool" where
  "gps_isValid gpsInfo \<longleftrightarrow> rmc_valid (gi_rmc gpsInfo) \<and>
     fl_scale (rmc_latitude (gi_rmc gpsInfo)) \<noteq> 0 \<and> fl_scale (rmc_longitude (gi_rmc gpsInfo)) \<noteq> 0"

text \<open>\<open>x >= 0\<close>, false for a NaN.\<close>

definition f32_nonneg :: "fpv \<Rightarrow> bool" where
  "f32_nonneg x \<longleftrightarrow> f32_less (FFin 0) x \<or> f32_eq x (FFin 0)"

text \<open>\<open>print\<close> is the function selected by the output; \<open>fwrite\<close> the file writes of \<open>FILE_Printf\<close>.\<close>

definition print_location ::
  "(cstr \<Rightarrow> fmtarg list \<Rightarrow> effect list) \<Rightarrow> GPS_Info_t \<Rightarrow> GpsTrackerData_t \<Rightarrow> effect list" where
  "print_location print gi d =
     (let date = rmc_date (gi_rmc gi); tm = rmc_time (gi_rmc gi) in
      (if \<not> rmc_valid (gi_rmc gi) then print ''INVALID, '' []
       else print ''%02d.%02d.%02d '' [AInt (year date), AInt (month date), AInt (day date)] @
            print ''%02d.%02d.%02d, '' [AInt (hours tm), AInt (minutes tm), AInt (seconds tm)]) @
      print ''sat visble:%d, sat tracked:%d, err: %.1f, ''
        [AInt (gsv_total_sats (gi_gsv gi ! 0)), AInt (gga_satellites_tracked (gi_gga gi)), AFlt (td_accuracy d)] @
      print ''lat: %.6f %c, lon: %.6f %c, ''
        [AFlt (f32_abs (td_latitude d)), AChr (if f32_nonneg (td_latitude d) then CHR ''N'' else CHR ''S''),
         AFlt (f32_abs (td_longitude d)), AChr (if f32_nonneg (td_longitude d) then CHR ''E'' else CHR ''W'')] @
      print (''alt:%.1f, spd:%.1f, hdg:%.1f'' @ CRLF) [AFlt (td_altitude d), AFlt (td_speed d), AFlt (td_bearing d)])"

definition gps_PrintLocation :: "(cstr \<Rightarrow> int) \<Rightarrow> t_logOutput \<Rightarrow> GPS_Info_t \<Rightarrow> GpsTrackerData_t \<Rightarrow> effect list" where
  "gps_PrintLocation fwrite out gi d =
     (case out of
        LOGGER_OUTPUT_UART \<Rightarrow> print_location UART_Printf gi d
      | LOGGER_OUTPUT_FILE \<Rightarrow> print_location (FILE_Printf fwrite) gi d
      | LOGGER_OUTPUT_TRACE \<Rightarrow>
          [TraceOut 1 (''LOGGER_OUTPUT_TRACE is not supported in gps_PrintLocation.'' @ CRLF)])"

section \<open>The reporting task\<close>

text \<open>Waiting for a status: one entry of the list per look at the status byte, two seconds apart.\<close>

fun wait_status :: "(u8 \<Rightarrow> bool) \<Rightarrow> u8 list \<Rightarrow> (u8 list \<times> effect list) option" where
  "wait_status ready [] = None"
| "wait_status ready (s # ss) =
     (if ready s then Some (ss, [])
      else map_option (\<lambda>(rest, out). (rest, Sdk ''OS_Sleep'' [2000] # out)) (wait_status ready ss))"

text \<open>Before the loop: six commands to the receiver, with what it sends during each wait.\<close>

definition command_or_log :: "bool \<Rightarrow> cstr \<Rightarrow> effect list" where
  "command_or_log ok msg = (if \<not> ok then [LOGE GPS_TAG msg []] else [])"

definition tracker_setup ::
  "gps_env \<Rightarrow> (nat \<Rightarrow> char list list) \<Rightarrow> RTC_Time_t \<Rightarrow> gps_state \<Rightarrow> (gps_state \<times> effect list) option" where
  "tracker_setup env rx rtc st0 =
     Option.bind (GPS_SetRtcTime env (rx 0) rtc st0) (\<lambda>(ok1, st1, e1).
     Option.bind (GPS_GetVersion env (rx 1) 255 st1) (\<lambda>(ver, st2, e2).
     Option.bind (GPS_SetSearchMode env (rx 2) True False True True st2) (\<lambda>(_, st3, e3).
     Option.bind (GPS_SetFixMode env (rx 3) GPS_FIX_MODE_NORMAL st3) (\<lambda>(ok4, st4, e4).
     Option.bind (GPS_SetLpMode env (rx 4) GPS_LP_MODE_NORMAL st4) (\<lambda>(ok5, st5, e5).
     map_option (\<lambda>(ok6, st6, e6).
       (st6,
        e1 @ command_or_log ok1 ''set gps time failed'' @
        e2 @ (case ver of None \<Rightarrow> [LOGE GPS_TAG ''get GPS firmware version failed'' []]
              | Some v \<Rightarrow> [LOGW GPS_TAG ''GPS firmware version: %s'' [AStr v]]) @
        e3 @ [LOGI GPS_TAG ''setting GPS fix mode to MODE_NORMAL'' []] @
        e4 @ command_or_log ok4 ''set fix mode fail'' @
        [LOGI GPS_TAG ''setting GPS LP Mode to GPS_LP_MODE_NORMAL'' []] @
        e5 @ command_or_log ok5 ''set GPS LP mode failed'' @
        [LOGI GPS_TAG ''setting GPS interval to 1000 ms'' []] @
        e6 @ command_or_log ok6 ''set GPS interval failed''))
     (GPS_SetOutputInterval env (rx 5) 1000 st5))))))"

definition tracker_start ::
  "gps_env \<Rightarrow> (nat \<Rightarrow> char list list) \<Rightarrow> RTC_Time_t \<Rightarrow> u8 list \<Rightarrow> gps_state \<Rightarrow> (gps_state \<times> effect list) option" where
  "tracker_start env rx rtc statuses st =
     Option.bind (wait_status (\<lambda>s. IS_INITIALIZED s \<and> IS_GSM_ACTIVE s) statuses) (\<lambda>(rest, w1).
     Option.bind (wait_status IS_GPS_STATUS_ON rest) (\<lambda>(_, w2).
     map_option (\<lambda>(st', out).
         (st', w1 @ [Sdk ''GPS_Open'' [], LOGI GPS_TAG ''Waiting for GPS'' []] @ w2 @ [Sdk ''TIME_GetRtcTime'' []] @ out))
       (tracker_setup env rx rtc st)))"

definition request_fmt :: cstr where
  "request_fmt = ''id=%s&valid=%d&timestamp=%d&lat=%f&lon=%f&speed=%1.f&bearing=%.1f&altitude=%.1f&accuracy=%.1f%s&batt=%d''"

definition tracker_request :: "t_Config \<Rightarrow> GPS_Info_t \<Rightarrow> GpsTrackerData_t \<Rightarrow> cstr \<Rightarrow> u8 \<Rightarrow> cstr" where
  "tracker_request cfg gi d cellStr percent =
     snprintf 400 request_fmt
       [AStr (device_name cfg), AInt (if rmc_valid (gi_rmc gi) then 1 else 0), AInt (td_timestamp d),
        AFlt (td_latitude d), AFlt (td_longitude d), AFlt (td_speed d), AFlt (td_bearing d), AFlt (td_altitude d),
        AFlt (td_accuracy d), AStr cellStr, AInt (uint percent)]"

text \<open>What the SDK returns during one turn; the two times are \<open>time(NULL)\<close> at its start and end.\<close>

record tracker_env =
  te_start :: u32
  te_end :: u32
  te_percent :: u8
  te_net :: http_net

definition tracker_report ::
  "tracker_env \<Rightarrow> t_Config \<Rightarrow> net_state \<Rightarrow> GPS_Info_t \<Rightarrow> GpsTrackerData_t \<Rightarrow> char list \<Rightarrow> char list \<times> effect list" where
  "tracker_report env cfg s gi d responseBuffer =
     (let printed = (if gps_print_pos cfg then print_location UART_Printf gi d else []);
          cellInfoStr = Network_GetCellInfoString s;
          cellStr = (if length cellInfoStr \<noteq> 0 then snprintf 1024 ''&cell=%s'' [AStr cellInfoStr] else []);
          requestBuffer = tracker_request cfg gi d cellStr (te_percent env);
          secure = (server_protocol cfg = PROT_HTTPS);
          (result, resp, out) = Http_Post (te_net env) secure (server_addr cfg) (server_port cfg) ''/'' requestBuffer
             (of_nat (length requestBuffer)) (store_at responseBuffer 0 (cellStr @ [NUL])) 1024
      in (resp, [Sdk ''PM_Voltage'' []] @ printed @ out @
            (if result < 0 then [LOGE GPS_TAG ''FAILED to send the location to the server. err: %d'' [AInt result]]
             else [LOGI GPS_TAG ''Sent location to %s://%s:%s''
                     [AStr (if secure then ''https'' else ''http''), AStr (server_addr cfg), AStr (server_port cfg)]])))"

text \<open>One turn of the loop: the new state, the response buffer and the effects, the sleep last.\<close>

definition tracker_turn ::
  "tracker_env \<Rightarrow> t_Config \<Rightarrow> net_state \<Rightarrow> GPS_Info_t \<Rightarrow> GpsTrackerData_t \<Rightarrow> char list \<Rightarrow>
   net_state \<times> char list \<times> effect list" where
  "tracker_turn env cfg s0 gi d responseBuffer =
     (let s = s0\<lparr>g_trackerloop_tick := te_start env\<rparr>;
          (resp, out, desired_interval) =
            (if IS_GPS_STATUS_ON (systemStatus s) \<and> IS_GSM_ACTIVE (systemStatus s)
             then let (resp, out) = tracker_report env cfg s gi d responseBuffer in (resp, out, 10)
             else (responseBuffer, [], 1));
          loop_duration = te_end env - g_trackerloop_tick s;
          loop_duration = (if loop_duration > desired_interval then desired_interval else loop_duration)
      in (s, resp, out @ [Sdk ''OS_Sleep'' [uint ((desired_interval - loop_duration) * 1000)]]))"

section \<open>What a turn sends\<close>

lemma sent_effects [simp]:
  "sent (UART_Printf f a) = []" "sent (Sdk f x # es) = sent es" "sent (LOGW t f a # es) = sent es"
  by (simp_all add: UART_Printf_def Let_def LOGW_def)

lemma sent_print_location [simp]: "sent (print_location UART_Printf gi d) = []"
  by (simp add: print_location_def Let_def)

lemma https_sent:
  "https_send_receive net hostName port msg retBuffer bufSize = (r, buf, out) \<Longrightarrow> \<exists>k. sent out = take k msg"
proof -
  assume h: "https_send_receive net hostName port msg retBuffer bufSize = (r, buf, out)"
  have "[] = take 0 msg" by simp
  then show ?thesis unfolding https_sent_taken [OF h] ssl_taken_def by (metis (full_types))
qed

lemma Http_Post_sent:
  assumes "length data < 65536" "http_malloc net" "0 < bufSize" "bufSize \<le> 65535" "length retBuffer = nat bufSize"
    "Http_Post net secure hostName port path data (of_nat (length data)) retBuffer bufSize = (r, buf, out)"
    "msg = request_bytes path hostName data"
  shows "\<exists>k. sent out = take k msg" "secure \<Longrightarrow> sent out = ssl_taken net msg"
    "\<not> secure \<Longrightarrow> r \<noteq> - 1 \<Longrightarrow> sent out = msg"
proof -
  have l: "length data = unat (of_nat (length data) :: u16)" using assms(1) by (simp add: unat_of_nat)
  obtain r1 b1 o1 where h1: "http_send_receive net hostName port msg retBuffer bufSize = (r1, b1, o1)"
    by (metis prod_cases3)
  obtain r2 b2 o2 where h2: "https_send_receive net hostName port msg retBuffer bufSize = (r2, b2, o2)"
    by (metis prod_cases3)
  have p: "(\<exists>k. sent o1 = take k msg) \<and> (r1 \<noteq> - 1 \<longrightarrow> sent o1 = msg)"
    using http_plain [OF h1 _ assms(3-5)] request_nonempty by (auto simp: assms(7))
  have q: "(\<exists>k. sent o2 = take k msg) \<and> sent o2 = ssl_taken net msg"
    using https_sent [OF h2] https_sent_taken [OF h2] by blast
  show "\<exists>k. sent out = take k msg" "secure \<Longrightarrow> sent out = ssl_taken net msg" "\<not> secure \<Longrightarrow> r \<noteq> - 1 \<Longrightarrow> sent out = msg"
    using assms(6) p q unfolding Http_Post_eq [OF l assms(2)] assms(7) [symmetric]
    by (cases secure; auto simp: h1 h2)+
qed

text \<open>The form data of a report, written out.\<close>

definition report_text :: "t_Config \<Rightarrow> GPS_Info_t \<Rightarrow> GpsTrackerData_t \<Rightarrow> cstr \<Rightarrow> u8 \<Rightarrow> cstr" where
  "report_text cfg gi d cellStr percent =
     ''id='' @ device_name cfg @ ''&valid='' @ (if rmc_valid (gi_rmc gi) then ''1'' else ''0'') @
     ''&timestamp='' @ int_str (td_timestamp d) @ ''&lat='' @ float_str 6 (td_latitude d) @
     ''&lon='' @ float_str 6 (td_longitude d) @ ''&speed='' @ float_str 0 (td_speed d) @
     ''&bearing='' @ float_str 1 (td_bearing d) @ ''&altitude='' @ float_str 1 (td_altitude d) @
     ''&accuracy='' @ float_str 1 (td_accuracy d) @ (if cellStr = [] then [] else ''&cell='' @ cellStr) @
     ''&batt='' @ nat_str (unat percent)"

lemma float_str_nonempty: "0 < length (float_str n v)"
  by (cases "(n, v)" rule: float_str.cases) (auto simp: fixed_str_def Let_def)

lemma pad_one: "f_width sp = 1 \<Longrightarrow> s \<noteq> [] \<Longrightarrow> pad_field sp b s = s"
  by (cases s) (auto simp: pad_field_def)

lemma pad_float: "f_width sp = 1 \<Longrightarrow> pad_field sp b (float_str n v) = float_str n v"
  using float_str_nonempty [of n v] by (intro pad_one) auto

lemma request_text:
  "sprintf request_fmt
       [AStr dev, AInt valid, AInt ts, AFlt la, AFlt lo, AFlt sp, AFlt be, AFlt al, AFlt ac, AStr cs, AInt batt] =
     ''id='' @ dev @ ''&valid='' @ int_str valid @ ''&timestamp='' @ int_str ts @ ''&lat='' @ float_str 6 la @
     ''&lon='' @ float_str 6 lo @ ''&speed='' @ float_str 0 sp @ ''&bearing='' @ float_str 1 be @
     ''&altitude='' @ float_str 1 al @ ''&accuracy='' @ float_str 1 ac @ cs @ ''&batt='' @ int_str batt"
  by (simp add: request_fmt_def cstr_simps pad_float)

lemma nat_str_1: "nat_str (Suc 0) = ''1''"
  by code_simp

lemma int_str_flags: "int_str 1 = ''1''" "int_str 0 = ''0''"
  by code_simp+

lemma tracker_request_text:
  assumes "length cellStr < 128"
  shows "tracker_request cfg gi d (if length cellStr \<noteq> 0 then snprintf 1024 ''&cell=%s'' [AStr cellStr] else []) percent =
    take 399 (report_text cfg gi d cellStr percent)"
proof -
  have c: "(if length cellStr \<noteq> 0 then snprintf 1024 ''&cell=%s'' [AStr cellStr] else []) = (if cellStr = [] then [] else ''&cell='' @ cellStr)"
    using assms by (simp add: snprintf_def cstr_simps snprintf_trunc_fits)
  have v: "int_str (if rmc_valid (gi_rmc gi) then 1 else 0) = (if rmc_valid (gi_rmc gi) then ''1'' else ''0'')"
    by (simp add: int_str_flags)
  have b: "int_str (uint percent) = nat_str (unat percent)" by (simp add: int_str_nonneg)
  have "400 - 1 = (399 :: nat)" by simp
  then show ?thesis unfolding tracker_request_def c unfolding snprintf_def snprintf_trunc_def request_text report_text_def v b
    by (simp only:)
qed

definition reporting :: "net_state \<Rightarrow> bool" where
  "reporting s \<longleftrightarrow> IS_GPS_STATUS_ON (systemStatus s) \<and> IS_GSM_ACTIVE (systemStatus s)"

text \<open>The form of a report, the request that carries it and the line logged about the outcome.\<close>

definition report_form :: "tracker_env \<Rightarrow> t_Config \<Rightarrow> net_state \<Rightarrow> GPS_Info_t \<Rightarrow> GpsTrackerData_t \<Rightarrow> cstr" where
  "report_form env cfg s gi d = take 399 (report_text cfg gi d (g_cellInfoStr s) (te_percent env))"

definition report_outcome :: "t_Config \<Rightarrow> int \<Rightarrow> effect" where
  "report_outcome cfg r =
     (if r < 0 then LOGE GPS_TAG ''FAILED to send the location to the server. err: %d'' [AInt r]
      else LOGI GPS_TAG ''Sent location to %s://%s:%s''
        [AStr (if server_protocol cfg = PROT_HTTPS then ''https'' else ''http''), AStr (server_addr cfg), AStr (server_port cfg)])"

text \<open>A report is one call of \<open>Http_Post\<close> with this form.\<close>

lemma report_posts:
  assumes "cells_ok s" "length responseBuffer = 1024" "tracker_report env cfg s gi d responseBuffer = (resp, acts)"
  shows "\<exists>buf r out. length buf = 1024 \<and>
    Http_Post (te_net env) (server_protocol cfg = PROT_HTTPS) (server_addr cfg) (server_port cfg) ''/''
      (report_form env cfg s gi d) (of_nat (length (report_form env cfg s gi d))) buf 1024 = (r, resp, out) \<and>
    acts = Sdk ''PM_Voltage'' [] # (if gps_print_pos cfg then print_location UART_Printf gi d else []) @ out @ [report_outcome cfg r]"
proof -
  have cs: "length (g_cellInfoStr s) < 128" using assms(1) by (simp add: cells_ok_def)
  define c where "c = (if length (g_cellInfoStr s) \<noteq> 0 then snprintf 1024 ''&cell=%s'' [AStr (g_cellInfoStr s)] else [])"
  have cl: "length c < 1024" by (auto simp: c_def snprintf_def length_snprintf_trunc)
  have b: "tracker_request cfg gi d c (te_percent env) = report_form env cfg s gi d"
    unfolding c_def report_form_def by (rule tracker_request_text [OF cs])
  obtain r rb out where h: "Http_Post (te_net env) (server_protocol cfg = PROT_HTTPS) (server_addr cfg) (server_port cfg) ''/''
      (report_form env cfg s gi d) (of_nat (length (report_form env cfg s gi d))) (store_at responseBuffer 0 (c @ [NUL])) 1024 = (r, rb, out)"
    by (metis prod_cases3)
  have "resp = rb \<and> acts = Sdk ''PM_Voltage'' [] # (if gps_print_pos cfg then print_location UART_Printf gi d else []) @ out @ [report_outcome cfg r]"
    using assms(3) unfolding tracker_report_def Let_def Network_GetCellInfoString_def c_def [symmetric] b h report_outcome_def
    by (auto split: if_splits)
  moreover have "length (store_at responseBuffer 0 (c @ [NUL])) = 1024" using assms(2) cl by (simp add: length_store_at)
  ultimately show ?thesis using h by blast
qed

lemma sent_report:
  "sent (Sdk ''PM_Voltage'' [] # (if p then print_location UART_Printf gi d else []) @ out @ [report_outcome cfg r]) = sent out"
  by (simp add: report_outcome_def)

text \<open>What the reporting task did in a turn with receiver and connection up.\<close>

definition reported ::
  "tracker_env \<Rightarrow> t_Config \<Rightarrow> net_state \<Rightarrow> GPS_Info_t \<Rightarrow> GpsTrackerData_t \<Rightarrow> char list \<Rightarrow> effect list \<Rightarrow> bool" where
  "reported env cfg s gi d resp acts \<longleftrightarrow>
     (let secure = (server_protocol cfg = PROT_HTTPS); form = report_form env cfg s gi d;
          request = request_bytes ''/'' (server_addr cfg) form
      in \<exists>buf r out. length buf = 1024 \<and>
        Http_Post (te_net env) secure (server_addr cfg) (server_port cfg) ''/'' form (of_nat (length form)) buf 1024 = (r, resp, out) \<and>
        acts = Sdk ''PM_Voltage'' [] # (if gps_print_pos cfg then print_location UART_Printf gi d else []) @ out @ [report_outcome cfg r] \<and>
        (\<exists>k. sent acts = take k request) \<and>
        (if secure then sent acts = ssl_taken (te_net env) request else r = - 1 \<or> sent acts = request))"

lemma report_reported:
  assumes "cells_ok s" "http_malloc (te_net env)" "length responseBuffer = 1024"
    "tracker_report env cfg s gi d responseBuffer = (resp, acts)"
  shows "reported env cfg s gi d resp acts"
proof -
  let ?form = "report_form env cfg s gi d"
  obtain buf r out where p: "length buf = 1024"
    "Http_Post (te_net env) (server_protocol cfg = PROT_HTTPS) (server_addr cfg) (server_port cfg) ''/'' ?form (of_nat (length ?form)) buf 1024 = (r, resp, out)"
    "acts = Sdk ''PM_Voltage'' [] # (if gps_print_pos cfg then print_location UART_Printf gi d else []) @ out @ [report_outcome cfg r]"
    using report_posts [OF assms(1,3,4)] by blast
  have l: "length ?form < 65536" "length buf = nat 1024" using p(1) by (simp_all add: report_form_def)
  note S = Http_Post_sent [OF l(1) assms(2) _ _ l(2) p(2) refl, simplified]
  have e: "sent acts = sent out" unfolding p(3) by (rule sent_report)
  show ?thesis unfolding reported_def Let_def e
    by (intro exI [of _ buf] exI [of _ r] exI [of _ out] conjI p S(1)) (use S(2,3) in auto)
qed

text \<open>
  C32. One turn of the reporting loop records its start in the watchdog's tick and ends with
  exactly one sleep. When the receiver is on and the connection active, it calls \<open>Http_Post\<close> once,
  with the form of the current position, cut to 399 characters, to the configured server, logs
  the outcome, and what goes out is a prefix of that request: over a plain socket the whole
  of it unless the call reports a failure, over SSL what \<open>SSL_Write\<close> took. Otherwise it does
  nothing. A turn that takes less than its period, ten seconds with a report and
  one without, is filled up to it exactly; a longer one, or a clock that was set back, is not
  followed by a sleep, and the sleep never exceeds the period.
\<close>

theorem tracker_turn_correct:
  assumes "cells_ok s" "http_malloc (te_net env)" "length responseBuffer = 1024"
  shows "\<exists>resp acts ms. tracker_turn env cfg s gi d responseBuffer =
      (s\<lparr>g_trackerloop_tick := te_start env\<rparr>, resp, acts @ [Sdk ''OS_Sleep'' [int ms]]) \<and>
    (if reporting s then reported env cfg s gi d resp acts else acts = [] \<and> resp = responseBuffer) \<and>
    (let period = (if reporting s then 10 else 1); used = unat (te_end env - te_start env)
     in ms = 1000 * (period - min period used) \<and> (used \<le> period \<longrightarrow> 1000 * used + ms = 1000 * period))"
proof -
  let ?s = "s\<lparr>g_trackerloop_tick := te_start env\<rparr>"
  define used where "used = te_end env - te_start env"
  obtain resp1 out1 where rep: "tracker_report env cfg ?s gi d responseBuffer = (resp1, out1)" by fastforce
  have c: "cells_ok ?s" using assms(1) by simp
  have R: "reported env cfg s gi d resp1 out1"
    using report_reported [OF c assms(2,3) rep] by (simp add: reported_def report_form_def)
  have sleep: "uint ((D - (if used > D then D else used)) * 1000) = int (1000 * (unat D - min (unat D) (unat used)))"
    if "D = 10 \<or> D = 1" for D :: u32
  proof -
    have le: "(if used > D then D else used) \<le> D" by (simp add: not_less)
    have m: "unat (if used > D then D else used) = min (unat D) (unat used)"
      by (auto simp: word_less_nat_alt min_def)
    have "unat (D - (if used > D then D else used)) = unat D - min (unat D) (unat used)"
      using unat_sub [OF le] m by simp
    moreover have "unat D \<le> 10" using that by auto
    ultimately have "unat ((D - (if used > D then D else used)) * 1000) = (unat D - min (unat D) (unat used)) * 1000"
      by (subst unat_mult_lem [THEN iffD1]) (simp_all add: unat_of_nat)
    then have "uint ((D - (if used > D then D else used)) * 1000) = int ((unat D - min (unat D) (unat used)) * 1000)"
      by (simp only: uint_nat)
    then show ?thesis by (simp only: mult.commute)
  qed
  have g: "g_trackerloop_tick ?s = te_start env" "systemStatus ?s = systemStatus s"
    "unat (10::u32) = 10" "unat (1::u32) = 1" by simp_all
  show ?thesis
  proof (cases "reporting s")
    case True
    then have r: "(IS_GPS_STATUS_ON (systemStatus s) \<and> IS_GSM_ACTIVE (systemStatus s)) = True" by (simp add: reporting_def)
    have "tracker_turn env cfg s gi d responseBuffer =
        (?s, resp1, out1 @ [Sdk ''OS_Sleep'' [int (1000 * (10 - min 10 (unat used)))]])"
      unfolding tracker_turn_def Let_def g r if_True rep prod.case used_def [symmetric] sleep [OF disjI1 [OF refl]] by (rule refl)
    then show ?thesis using R True unfolding used_def [symmetric]
      by (intro exI [of _ resp1] exI [of _ out1] exI [of _ "1000 * (10 - min 10 (unat used))"])
        (auto simp: Let_def min_def)
  next
    case False
    then have r: "(IS_GPS_STATUS_ON (systemStatus s) \<and> IS_GSM_ACTIVE (systemStatus s)) = False" by (simp add: reporting_def)
    have "tracker_turn env cfg s gi d responseBuffer =
        (?s, responseBuffer, [] @ [Sdk ''OS_Sleep'' [int (1000 * (1 - min 1 (unat used)))]])"
      unfolding tracker_turn_def Let_def g r if_False prod.case used_def [symmetric] sleep [OF disjI2 [OF refl]] by (rule refl)
    then show ?thesis using False unfolding used_def [symmetric]
      by (intro exI [of _ responseBuffer] exI [of _ "[]"] exI [of _ "1000 * (1 - min 1 (unat used))"])
        (auto simp: Let_def min_def)
  qed
qed

theorem tracker_turn_correct_witness:
  "\<forall>gi d. \<exists>resp acts.
     tracker_turn \<lparr>te_start = - 1, te_end = 2, te_percent = 80, te_net = net_ok\<rparr> default_config
       (net_example\<lparr>systemStatus := GSM_ACTIVE_ON (GPS_STATUS_ON 0)\<rparr>) gi d (replicate 1024 NUL) =
     (net_example\<lparr>systemStatus := GSM_ACTIVE_ON (GPS_STATUS_ON 0), g_trackerloop_tick := - 1\<rparr>, resp,
      acts @ [Sdk ''OS_Sleep'' [7000]]) \<and>
     reported \<lparr>te_start = - 1, te_end = 2, te_percent = 80, te_net = net_ok\<rparr> default_config
       (net_example\<lparr>systemStatus := GSM_ACTIVE_ON (GPS_STATUS_ON 0)\<rparr>) gi d resp acts"
proof (intro allI)
  fix gi d
  let ?s = "net_example\<lparr>systemStatus := GSM_ACTIVE_ON (GPS_STATUS_ON 0)\<rparr>"
  let ?e = "\<lparr>te_start = - 1, te_end = 2, te_percent = 80, te_net = net_ok\<rparr> :: tracker_env"
  have r: "reporting ?s" by (simp add: reporting_def)
  have c: "cells_ok ?s" using net_wf_example by (simp add: net_wf_def)
  have m: "http_malloc (te_net ?e)" by (simp add: net_ok_def)
  have l: "length (replicate 1024 NUL) = 1024" by simp
  obtain resp acts ms where t: "tracker_turn ?e default_config ?s gi d (replicate 1024 NUL) =
      (?s\<lparr>g_trackerloop_tick := - 1\<rparr>, resp, acts @ [Sdk ''OS_Sleep'' [int ms]])"
      "ms = 1000 * (10 - min 10 (unat (2 - (- 1) :: u32)))" "reported ?e default_config ?s gi d resp acts"
    using tracker_turn_correct [OF c m l, of default_config gi d] r by (auto simp: Let_def)
  moreover have "ms = 7000" unfolding t(2) by simp
  ultimately show "\<exists>resp acts. tracker_turn ?e default_config ?s gi d (replicate 1024 NUL) =
      (net_example\<lparr>systemStatus := GSM_ACTIVE_ON (GPS_STATUS_ON 0), g_trackerloop_tick := - 1\<rparr>, resp,
       acts @ [Sdk ''OS_Sleep'' [7000]]) \<and> reported ?e default_config ?s gi d resp acts"
    by auto
qed

end
