(* ===== verification/Config_Commands.thy ===== *)
theory Config_Commands
  imports Config_Store Tracker "HOL-Library.Multiset"
begin

text \<open>
  \<open>app/src/config_commands.c\<close>: the commands a user types on the UART. The command table and
  its sorted index, the fourteen handlers, and the dispatcher. \<open>app_state\<close> collects the state
  of the firmware the handlers reach; the SDK's answers during one command are \<open>cmd_env\<close>. A
  handler whose C code writes outside an array has the result \<open>None\<close>.
\<close>

section \<open>State and environment\<close>

record app_state =
  app_cfg :: cfg_state
  app_net :: net_state
  app_gps :: gps_state
  app_data :: GpsTrackerData_t
  uart_cmd_sorted_idx :: "nat list"     \<comment> \<open>empty while \<open>uart_cmd_table_size\<close> is 0\<close>

record dirent =
  d_type :: nat
  d_name :: cstr

record SMS_Storage_Info_t =
  sms_used :: u16
  sms_total :: u16
  sms_unReadRecords :: u16
  sms_readRecords :: u16
  sms_sentRecords :: u16
  sms_unsentRecords :: u16
  sms_unknownRecords :: u16
  sms_storageId :: u16

record cmd_env =
  ce_net :: net_env
  ce_save_fd :: int                         \<comment> \<open>\<open>API_FS_Open\<close> of the configuration file\<close>
  ce_save_write :: "cstr \<Rightarrow> int"
  ce_dir :: "cstr \<Rightarrow> dirent list option"    \<comment> \<open>what \<open>API_FS_ReadDir\<close> delivers\<close>
  ce_file :: "cstr \<Rightarrow> fs_file"
  ce_seek :: int
  ce_delete :: "cstr \<Rightarrow> int"
  ce_ip :: "cstr option"
  ce_deactive :: bool
  ce_sms_info :: "SMS_Storage_Info_t option"
  ce_sms_list :: bool
  ce_sms_delete :: bool

definition CMD_TAG :: cstr where "CMD_TAG = ''Config''"

abbreviation prn :: "cstr \<Rightarrow> fmtarg list \<Rightarrow> effect list" where
  "prn fmt args \<equiv> UART_Printf (fmt @ CRLF) args"

section \<open>Configuration commands\<close>

definition HandleSetCommand :: "cmd_env \<Rightarrow> cstr \<Rightarrow> cfg_state \<Rightarrow> cfg_state \<times> effect list" where
  "HandleSetCommand env param0 st =
     (let param = trim param0 in
      if param = [] then (st, prn ''missing variable'' [])
      else
        let (name, value) = (case strchr param (CHR '' '') of Some (pre, suf) \<Rightarrow> (pre, tl suf) | None \<Rightarrow> (param, []))
        in case getConfigMap (Some name) of
             None \<Rightarrow> (st, prn ''unknown variable'' [])
           | Some configMap \<Rightarrow>
               let (ok, st') = validator configMap (Some value) st in
               if \<not> ok then (st', prn ''invalid value for %s'' [AStr name])
               else
                 let (saved, out) = ConfigStore_Save (Some CONFIG_FILE_PATH) (ce_save_fd env) (ce_save_write env) (g_ConfigStore st')
                 in (st', out @
                     (if saved then [] else [LOGE CMD_TAG ''Failed to save config file: %s'' [AStr CONFIG_FILE_PATH]]) @
                     prn (''Set %s to '' @ CHR 0x27 # ''%s'' @ [CHR 0x27]) [AStr name, AStr value]))"

definition serialized :: "t_config_map \<Rightarrow> cfg_state \<Rightarrow> cstr" where
  "serialized e st = (case serializer e (g_ConfigStore st) of None \<Rightarrow> [] | Some s \<Rightarrow> s)"

definition HandleGetCommand :: "cstr \<Rightarrow> cfg_state \<Rightarrow> effect list" where
  "HandleGetCommand param0 st =
     (let param = trim param0 in
      if param = [] then
        prn ''Current configuration:'' [] @
        concat (map (\<lambda>e. prn ''%-20s : %s'' [AStr (param_name e), AStr (serialized e st)]) g_config_map)
      else case getConfigMap (Some param) of
        None \<Rightarrow> prn ''unknown variable'' []
      | Some e \<Rightarrow> prn ''%s : %s'' [AStr (param_name e), AStr (serialized e st)])"

section \<open>File commands\<close>

text \<open>
  The path buffer of \<open>ls\<close> has 256 bytes. The NUL behind the name goes to the index of its full
  length, which may lie outside: \<open>None\<close>.
\<close>

definition ls_base :: "cstr \<Rightarrow> cstr" where
  "ls_base path =
     (let file_path = strncpy0 256 path; n = length file_path in
      if (n = 0 \<or> file_path ! (n - 1) \<noteq> CHR ''/'') \<and> n < 255 then file_path @ ''/'' else file_path)"

definition ls_entry :: "cmd_env \<Rightarrow> cstr \<Rightarrow> dirent \<Rightarrow> effect list option" where
  "ls_entry env base e =
     (if d_type e = 8 then
        if length base + length (d_name e) \<ge> 256 then None
        else
          let file_path = base @ d_name e; f = ce_file env file_path;
              (log, file_size) =
                (if open_ret f < 0 then ([LOGE CMD_TAG ''open file %s fail'' [AStr file_path]], 0) else ([], size_ret f))
          in Some (log @ prn ''<file>  %-*s  %8d'' [AInt 20, AStr (d_name e), AInt file_size])
      else if d_type e = 4 then Some (prn ''<dir>   %-*s'' [AInt 20, AStr (d_name e)])
      else Some (prn ''<unknown>'' []))"

fun ls_loop :: "cmd_env \<Rightarrow> cstr \<Rightarrow> dirent list \<Rightarrow> effect list option" where
  "ls_loop env base [] = Some []"
| "ls_loop env base (e # es) =
     Option.bind (ls_entry env base e) (\<lambda>o1. map_option (\<lambda>o2. o1 @ o2) (ls_loop env base es))"

definition HandleLsCommand :: "cmd_env \<Rightarrow> cstr \<Rightarrow> effect list option" where
  "HandleLsCommand env path0 =
     (let path = (if trim path0 = [] then ''/'' else trim path0);
          head = prn ''File list in %s:'' [AStr path]
      in case ce_dir env path of
           None \<Rightarrow> Some (head @ prn ''cannot open directory: %s'' [AStr path])
         | Some entries \<Rightarrow> map_option (\<lambda>out. head @ out) (ls_loop env (ls_base path) entries))"

definition HandleRemoveFileCommand :: "cmd_env \<Rightarrow> cstr \<Rightarrow> effect list" where
  "HandleRemoveFileCommand env path0 =
     (let path = trim path0 in
      if path = [] then prn ''no file specified'' []
      else FsDelete path #
        (if ce_delete env path = 0 then prn ''File deleted: %s'' [AStr path]
         else prn ''failed to delete file: %s'' [AStr path]))"

text \<open>The bytes are printed one by one; \<open>pos\<close> is the position in the file.\<close>

function tail_loop :: "fs_file \<Rightarrow> nat \<Rightarrow> int \<Rightarrow> effect list" where
  "tail_loop f pos remaining =
     (if remaining > 0 then
        let to_read = (if remaining > 128 then 128 else remaining); n = read_ret f pos to_read in
        if n \<le> 0 then []
        else concat (map (\<lambda>c. UART_Printf ''%c'' [AChr c]) (take (nat n) (drop pos (file_bytes f)))) @
             tail_loop f (pos + nat n) (remaining - n)
      else [])"
  by pat_completeness auto
termination
  by (relation "measure (\<lambda>(f, pos, remaining). nat remaining)") auto

declare tail_loop.simps [simp del]

definition tail_args :: "cstr \<Rightarrow> cstr \<times> int" where
  "tail_args file_path =
     (case strchr file_path (CHR '' '') of
        None \<Rightarrow> (file_path, 500)
      | Some (pre, suf) \<Rightarrow>
          let bytes_str = trim (tl suf) in
          (pre, if bytes_str \<noteq> [] \<and> atoi bytes_str > 0 then atoi bytes_str else 500))"

definition HandleTailCommand :: "cmd_env \<Rightarrow> cstr \<Rightarrow> effect list" where
  "HandleTailCommand env args =
     (if trim args = [] then prn ''missing file'' []
      else
        let (file_path, bytes) = tail_args (trim args); f = ce_file env file_path in
        if open_ret f < 0 then prn ''tail: cannot open file %s'' [AStr file_path]
        else
          let file_size = size_ret f in
          if file_size < 0 then prn ''tail: cannot get file size'' []
          else
            let start = (if file_size > bytes then file_size - bytes else 0) in
            if ce_seek env < 0 then prn ''tail: seek error'' []
            else tail_loop f (nat start) (file_size - start) @ prn [] [])"

section \<open>Network, message and system commands\<close>

definition bool_text :: "bool \<Rightarrow> cstr" where "bool_text b = (if b then ''true'' else ''false'')"

definition HandleLocationCommand :: "app_state \<Rightarrow> effect list" where
  "HandleLocationCommand s =
     (if \<not> IS_GPS_STATUS_ON (systemStatus (app_net s)) then prn ''GPS is not active.'' []
      else gps_PrintLocation (\<lambda>_. 0) LOGGER_OUTPUT_UART (Gps_GetInfo (gps_parse (app_gps s))) (app_data s))"

definition HandleNetworkStatusCommand :: "cmd_env \<Rightarrow> net_state \<Rightarrow> effect list" where
  "HandleNetworkStatusCommand env s =
     (let act = IS_GSM_ACTIVE (systemStatus s) in
      prn ''GSM Network registered: %s, active: %s''
        [AStr (bool_text (IS_GSM_REGISTERED (systemStatus s))), AStr (bool_text act)] @
      (if act then
         (case ce_ip env of Some ip_address \<Rightarrow> prn ''IP address: %s'' [AStr ip_address]
          | None \<Rightarrow> prn ''Failed to get IP address'' [])
       else prn ''IP address: not available'' []) @
      NetworkPrintCellInfo s)"

definition HandleNetworkActivateCommand :: "cmd_env \<Rightarrow> t_Config \<Rightarrow> net_state \<Rightarrow> net_state \<times> effect list" where
  "HandleNetworkActivateCommand env cfg s =
     (let (ok, s', out) = NetworkAttachActivate (ce_net env) cfg s
      in (s', out @ (if ok then prn ''Network activated.'' [] else prn ''Network activation failed.'' [])))"

definition HandleNetworkDeactivateCommand :: "cmd_env \<Rightarrow> effect list" where
  "HandleNetworkDeactivateCommand env =
     NetStartDeactive 1 #
     (if ce_deactive env then prn ''Network deactivated.'' [] else prn ''Network deactivation failed.'' [])"

definition HandleRestartCommand :: "effect list" where
  "HandleRestartCommand = prn ''System restarting...'' [] @ [Restart]"

definition HandleSmsCommand :: "cmd_env \<Rightarrow> cstr \<Rightarrow> effect list" where
  "HandleSmsCommand env param =
     (if trim param \<noteq> [] then prn ''Unknown sms command parameter'' []
      else case ce_sms_info env of
        None \<Rightarrow> prn ''Failed to get SMS storage info.'' []
      | Some info \<Rightarrow>
          prn ''SMS Storage Info (SIM):'' [] @
          prn ''  Used: %d'' [AInt (uint (sms_used info))] @
          prn ''  Total: %d'' [AInt (uint (sms_total info))] @
          prn ''  Unread: %d'' [AInt (uint (sms_unReadRecords info))] @
          prn ''  Read: %d'' [AInt (uint (sms_readRecords info))] @
          prn ''  Sent: %d'' [AInt (uint (sms_sentRecords info))] @
          prn ''  Unsent: %d'' [AInt (uint (sms_unsentRecords info))] @
          prn ''  Unknown: %d'' [AInt (uint (sms_unknownRecords info))] @
          prn ''  Storage ID: %d'' [AInt (uint (sms_storageId info))])"

abbreviation SMS_STATUS_UNREAD :: nat where "SMS_STATUS_UNREAD \<equiv> 1"
abbreviation SMS_STATUS_READ :: nat where "SMS_STATUS_READ \<equiv> 2"
abbreviation SMS_STATUS_ALL :: nat where "SMS_STATUS_ALL \<equiv> 128"

definition HandleSmsLsCommand :: "cmd_env \<Rightarrow> cstr \<Rightarrow> effect list" where
  "HandleSmsLsCommand env param0 =
     (let param = trim param0;
          request = (\<lambda>status. SmsList status #
            (if \<not> ce_sms_list env then prn ''Failed to request SMS list'' [] else []))
      in if param = [] \<or> strncmp_eq param ''all'' 3 then request SMS_STATUS_ALL
         else if strncmp_eq param ''read'' 4 then request SMS_STATUS_READ
         else if strncmp_eq param ''unread'' 6 then request SMS_STATUS_UNREAD
         else prn (''Unknown sms ls parameter. Use '' @ CHR 0x27 # ''all'' @ CHR 0x27 # '', '' @ CHR 0x27 # ''read'' @ CHR 0x27 #
                '', or '' @ CHR 0x27 # ''unread'' @ [CHR 0x27]) [])"

definition HandleSmsRmCommand :: "cmd_env \<Rightarrow> cstr \<Rightarrow> effect list" where
  "HandleSmsRmCommand env param0 =
     (let param = trim param0 in
      if param \<noteq> [] then prn ''incorrect parameter'' []
      else
        let idx = atoi param in
        if idx < 0 then prn ''Invalid index.'' []
        else SmsDelete idx #
          (if ce_sms_delete env then prn ''Deleted SMS at index %d'' [AInt idx]
           else prn ''Failed to delete SMS at index %d'' [AInt idx]))"

text \<open>A message of the list: \<open>data\<close> are its bytes, \<open>None\<close> a null pointer.\<close>

record SMS_Message_Info_t =
  msg_index :: u8
  msg_phoneNumber :: cstr
  msg_time :: RTC_Time_t
  msg_dataLen :: u16
  msg_data :: "char list option"

definition SmsListMessageCallback :: "SMS_Message_Info_t \<Rightarrow> effect list" where
  "SmsListMessageCallback msg =
     (let t = msg_time msg in
      UART_Printf (CRLF @ ''[SMS index: %d]'' @ CRLF @ ''From: %s'' @ CRLF @
          ''Time: %u/%02u/%02u,%02u:%02u:%02u+%02d'' @ CRLF @ ''Content: %.*s'' @ CRLF @ CRLF)
        [AInt (uint (msg_index msg)), AStr (msg_phoneNumber msg), AInt (rtc_year t), AInt (rtc_month t), AInt (rtc_day t),
         AInt (rtc_hour t), AInt (rtc_minute t), AInt (rtc_second t), AInt (rtc_timeZone t),
         AInt (uint (msg_dataLen msg)), AStr (case msg_data msg of None \<Rightarrow> [] | Some d \<Rightarrow> cstr_of d)])"

section \<open>The command table and its order\<close>

datatype cmd_handler =
    H_Help | H_Set | H_Get | H_Ls | H_RemoveFile | H_Tail | H_NetworkActivate | H_NetworkDeactivate
  | H_NetworkStatus | H_Sms | H_SmsLs | H_SmsRm | H_Location | H_Restart

record uart_cmd_entry =
  cmd :: cstr
  cmd_len :: nat
  handler :: cmd_handler
  syntax_text :: cstr
  help_text :: cstr

definition uart_cmd_table :: "uart_cmd_entry list" where
  "uart_cmd_table = [
     \<lparr>cmd = ''help'', cmd_len = 4, handler = H_Help, syntax_text = ''help'', help_text = ''Show this help message''\<rparr>,
     \<lparr>cmd = ''set'', cmd_len = 3, handler = H_Set, syntax_text = ''set <param> [value]'',
      help_text = ''Set value to a specified parameter. if no value provided parameter will be cleared.''\<rparr>,
     \<lparr>cmd = ''get'', cmd_len = 3, handler = H_Get, syntax_text = ''get [para]'',
      help_text = ''Print a value of a specified parameter. (for no parameter it prints all config)''\<rparr>,
     \<lparr>cmd = ''ls'', cmd_len = 2, handler = H_Ls, syntax_text = ''ls [path]'',
      help_text = ''List files in specified folder (default: /)''\<rparr>,
     \<lparr>cmd = ''rm'', cmd_len = 2, handler = H_RemoveFile, syntax_text = ''rm <file>'',
      help_text = ''Remove file at specified path''\<rparr>,
     \<lparr>cmd = ''tail'', cmd_len = 4, handler = H_Tail, syntax_text = ''tail <file> [bytes]'',
      help_text = ''Print last [bytes] of file (default: 500 bytes)''\<rparr>,
     \<lparr>cmd = ''net activate'', cmd_len = 12, handler = H_NetworkActivate, syntax_text = ''net activate'',
      help_text = ''Activate (attach and activate) the network''\<rparr>,
     \<lparr>cmd = ''net deactivate'', cmd_len = 14, handler = H_NetworkDeactivate, syntax_text = ''net deactivate'',
      help_text = ''Deactivate (detach and deactivate) the network''\<rparr>,
     \<lparr>cmd = ''net status'', cmd_len = 10, handler = H_NetworkStatus, syntax_text = ''net status'',
      help_text = ''Print network status''\<rparr>,
     \<lparr>cmd = ''sms'', cmd_len = 3, handler = H_Sms, syntax_text = ''sms'',
      help_text = ''Show SMS storage info (default)''\<rparr>,
     \<lparr>cmd = ''sms ls'', cmd_len = 6, handler = H_SmsLs, syntax_text = ''sms ls <all|read|unread>'',
      help_text = ''list SMS messages ()''\<rparr>,
     \<lparr>cmd = ''sms rm'', cmd_len = 6, handler = H_SmsRm, syntax_text = ''sms rm <index|all>'',
      help_text = ''remove SMS message (rm <index>) or remove all messages (rm all)''\<rparr>,
     \<lparr>cmd = ''location'', cmd_len = 8, handler = H_Location, syntax_text = ''location'',
      help_text = ''Show the last known GPS position''\<rparr>,
     \<lparr>cmd = ''restart'', cmd_len = 7, handler = H_Restart, syntax_text = ''restart'',
      help_text = ''Restart the system immediately''\<rparr>]"

text \<open>The selection sort of the indices, over any key; the key of the table is \<open>cmd_len\<close>.\<close>

definition select_max :: "(nat \<Rightarrow> nat) \<Rightarrow> nat list \<Rightarrow> nat \<Rightarrow> nat" where
  "select_max key idx i = foldl (\<lambda>maxj j. if key (idx ! j) > key (idx ! maxj) then j else maxj) i [i + 1..<length idx]"

definition swap_max :: "(nat \<Rightarrow> nat) \<Rightarrow> nat list \<Rightarrow> nat \<Rightarrow> nat list" where
  "swap_max key idx i =
     (let maxj = select_max key idx i in if maxj \<noteq> i then idx[i := idx ! maxj, maxj := idx ! i] else idx)"

definition InitUartCmdTableSortedIdx :: "nat list" where
  "InitUartCmdTableSortedIdx =
     (let n = length uart_cmd_table
      in foldl (swap_max (\<lambda>k. cmd_len (uart_cmd_table ! k))) [0..<n] [0..<n - 1])"

definition HandleHelpCommand :: "effect list" where
  "HandleHelpCommand =
     prn (CRLF @ ''Available commands:'') [] @
     concat (map (\<lambda>e. prn ''  %-24s- %s'' [AStr (syntax_text e), AStr (help_text e)]) uart_cmd_table) @
     UART_Printf (CRLF @ ''<param> is one of:'' @ CRLF @ ''  '') [] @
     concat (map (\<lambda>e. UART_Printf ''%s, '' [AStr (param_name e)]) g_config_map) @ prn [] []"

section \<open>The dispatcher\<close>

definition on_cfg :: "(cfg_state \<Rightarrow> cfg_state \<times> effect list) \<Rightarrow> app_state \<Rightarrow> app_state \<times> effect list" where
  "on_cfg f s = (let (c, out) = f (app_cfg s) in (s\<lparr>app_cfg := c\<rparr>, out))"

definition run_handler :: "cmd_env \<Rightarrow> cmd_handler \<Rightarrow> cstr \<Rightarrow> app_state \<Rightarrow> (app_state \<times> effect list) option" where
  "run_handler env h rest s =
     (case h of
        H_Help \<Rightarrow> Some (s, HandleHelpCommand)
      | H_Set \<Rightarrow> Some (on_cfg (HandleSetCommand env rest) s)
      | H_Get \<Rightarrow> Some (s, HandleGetCommand rest (app_cfg s))
      | H_Ls \<Rightarrow> map_option (\<lambda>out. (s, out)) (HandleLsCommand env rest)
      | H_RemoveFile \<Rightarrow> Some (s, HandleRemoveFileCommand env rest)
      | H_Tail \<Rightarrow> Some (s, HandleTailCommand env rest)
      | H_NetworkActivate \<Rightarrow>
          (let (n, out) = HandleNetworkActivateCommand env (g_ConfigStore (app_cfg s)) (app_net s)
           in Some (s\<lparr>app_net := n\<rparr>, out))
      | H_NetworkDeactivate \<Rightarrow> Some (s, HandleNetworkDeactivateCommand env)
      | H_NetworkStatus \<Rightarrow> Some (s, HandleNetworkStatusCommand env (app_net s))
      | H_Sms \<Rightarrow> Some (s, HandleSmsCommand env rest)
      | H_SmsLs \<Rightarrow> Some (s, HandleSmsLsCommand env rest)
      | H_SmsRm \<Rightarrow> Some (s, HandleSmsRmCommand env rest)
      | H_Location \<Rightarrow> Some (s, HandleLocationCommand s)
      | H_Restart \<Rightarrow> Some (s, HandleRestartCommand))"

text \<open>\<open>cmd\<close> matches at the start and is followed by a space or the end.\<close>

definition cmd_matches :: "cstr \<Rightarrow> uart_cmd_entry \<Rightarrow> bool" where
  "cmd_matches text e \<longleftrightarrow> strncmp_eq text (cmd e) (cmd_len e) \<and>
     (at_ptr (drop (cmd_len e) text) = CHR '' '' \<or> at_ptr (drop (cmd_len e) text) = NUL)"

fun find_cmd :: "nat list \<Rightarrow> cstr \<Rightarrow> uart_cmd_entry option" where
  "find_cmd [] text = None"
| "find_cmd (i # is) text = (if cmd_matches text (uart_cmd_table ! i) then Some (uart_cmd_table ! i) else find_cmd is text)"

definition HandleUartCommand :: "cmd_env \<Rightarrow> cstr \<Rightarrow> app_state \<Rightarrow> (app_state \<times> effect list) option" where
  "HandleUartCommand env text0 s0 =
     (let text = trim text0;
          s = (if uart_cmd_sorted_idx s0 = [] then s0\<lparr>uart_cmd_sorted_idx := InitUartCmdTableSortedIdx\<rparr> else s0)
      in case find_cmd (uart_cmd_sorted_idx s) text of
           Some e \<Rightarrow> run_handler env (handler e) (drop (cmd_len e) text) s
         | None \<Rightarrow> Some (s, prn (''Unknown command. Type '' @ CHR 0x27 # ''help'' @ CHR 0x27 # '' to see available commands.'') []))"

section \<open>The sort\<close>

lemma select_max_range:
  assumes "i < length idx"
  shows "i \<le> select_max key idx i \<and> select_max key idx i < length idx \<and>
    (\<forall>j. i \<le> j \<longrightarrow> j < length idx \<longrightarrow> key (idx ! j) \<le> key (idx ! select_max key idx i))"
proof -
  define f where "f = (\<lambda>maxj j. if key (idx ! j) > key (idx ! maxj) then j else maxj)"
  have "k \<le> length idx \<Longrightarrow> i < k \<Longrightarrow> i \<le> foldl f i [i + 1..<k] \<and> foldl f i [i + 1..<k] < k \<and>
      (\<forall>j. i \<le> j \<longrightarrow> j < k \<longrightarrow> key (idx ! j) \<le> key (idx ! foldl f i [i + 1..<k]))" for k
  proof (induction k)
    case (Suc k)
    show ?case
    proof (cases "i = k")
      case False
      then have "i + 1 \<le> k" "i < k" using Suc.prems by auto
      then show ?thesis using Suc unfolding upt_Suc_append [OF \<open>i + 1 \<le> k\<close>]
        by (auto simp: f_def less_Suc_eq dest: order.trans less_imp_le)
    qed (auto simp: less_Suc_eq)
  qed simp
  from this [of "length idx"] assms show ?thesis by (simp add: select_max_def f_def)
qed

definition sorted_upto :: "(nat \<Rightarrow> nat) \<Rightarrow> nat \<Rightarrow> nat list \<Rightarrow> bool" where
  "sorted_upto key i idx \<longleftrightarrow> (\<forall>a b. a < i \<longrightarrow> a < b \<longrightarrow> b < length idx \<longrightarrow> key (idx ! b) \<le> key (idx ! a))"

lemma mset_swap_max: "i < length idx \<Longrightarrow> mset (swap_max key idx i) = mset idx"
  using select_max_range [of i idx key] by (auto simp: swap_max_def Let_def mset_swap)

lemma sorted_swap_max:
  assumes "i < length idx" "sorted_upto key i idx"
  shows "sorted_upto key (Suc i) (swap_max key idx i)"
proof -
  define m where "m = select_max key idx i"
  have m: "i \<le> m" "m < length idx" "\<And>j. i \<le> j \<Longrightarrow> j < length idx \<Longrightarrow> key (idx ! j) \<le> key (idx ! m)"
    using select_max_range [OF assms(1), of key] by (auto simp: m_def)
  have s: "swap_max key idx i = idx[i := idx ! m, m := idx ! i]"
    using m(2) assms(1) by (auto simp: swap_max_def Let_def simp flip: m_def)
  have old: "\<And>a b. a < i \<Longrightarrow> a < b \<Longrightarrow> b < length idx \<Longrightarrow> key (idx ! b) \<le> key (idx ! a)"
    using assms(2) by (auto simp: sorted_upto_def)
  show ?thesis unfolding s sorted_upto_def
    using m old assms(1) by (auto simp: nth_list_update less_Suc_eq)
qed

lemma selection_sort:
  fixes key :: "nat \<Rightarrow> nat"
  assumes "0 < length idx"
  shows "mset (foldl (swap_max key) idx [0..<length idx - 1]) = mset idx \<and>
    sorted_wrt (\<lambda>a b. key b \<le> key a) (foldl (swap_max key) idx [0..<length idx - 1])"
proof -
  have "k < length idx \<Longrightarrow> mset (foldl (swap_max key) idx [0..<k]) = mset idx \<and>
      sorted_upto key k (foldl (swap_max key) idx [0..<k])" for k
  proof (induction k)
    case (Suc k)
    let ?r = "foldl (swap_max key) idx [0..<k]"
    have "length ?r = length idx" using Suc by (metis Suc_lessD mset_eq_length)
    then show ?case using Suc mset_swap_max [of k ?r key] sorted_swap_max [of k ?r key] by simp
  qed (simp add: sorted_upto_def)
  from this [of "length idx - 1"] assms
  have r: "mset (foldl (swap_max key) idx [0..<length idx - 1]) = mset idx"
    "sorted_upto key (length idx - 1) (foldl (swap_max key) idx [0..<length idx - 1])" by simp_all
  moreover have "length (foldl (swap_max key) idx [0..<length idx - 1]) = length idx" using r(1) by (rule mset_eq_length)
  ultimately show ?thesis by (auto simp: sorted_upto_def sorted_wrt_iff_nth_less)
qed

lemma sorted_idx:
  "mset InitUartCmdTableSortedIdx = mset [0..<length uart_cmd_table]"
  "sorted_wrt (\<lambda>a b. cmd_len (uart_cmd_table ! b) \<le> cmd_len (uart_cmd_table ! a)) InitUartCmdTableSortedIdx"
  using selection_sort [of "[0..<length uart_cmd_table]" "\<lambda>k. cmd_len (uart_cmd_table ! k)"]
  by (simp_all add: InitUartCmdTableSortedIdx_def Let_def) (simp_all add: uart_cmd_table_def)

section \<open>Dispatch\<close>

lemma table_names: "\<forall>e \<in> set uart_cmd_table. cmd_len e = length (cmd e)" "distinct (map cmd uart_cmd_table)"
  by (simp_all add: uart_cmd_table_def)

lemma set_idx: "(\<lambda>i. uart_cmd_table ! i) ` set InitUartCmdTableSortedIdx = set uart_cmd_table"
proof -
  have "set InitUartCmdTableSortedIdx = {0..<length uart_cmd_table}"
    using sorted_idx(1) by (metis atLeastLessThan_upt set_mset_mset)
  then show ?thesis by (auto simp: set_conv_nth)
qed

lemma find_cmd_None: "find_cmd is text = None \<longleftrightarrow> (\<forall>i \<in> set is. \<not> cmd_matches text (uart_cmd_table ! i))"
  by (induction "is") auto

lemma find_cmd_Some:
  assumes "find_cmd is text = Some e" "sorted_wrt (\<lambda>a b. cmd_len (uart_cmd_table ! b) \<le> cmd_len (uart_cmd_table ! a)) is"
  shows "e \<in> (\<lambda>i. uart_cmd_table ! i) ` set is \<and> cmd_matches text e \<and>
    (\<forall>i \<in> set is. cmd_matches text (uart_cmd_table ! i) \<longrightarrow> cmd_len (uart_cmd_table ! i) \<le> cmd_len e)"
  using assms by (induction "is") (auto split: if_splits)

text \<open>Two commands of one length that match the same text are one.\<close>

lemma match_unique:
  assumes "a \<in> set uart_cmd_table" "b \<in> set uart_cmd_table" "cmd_matches text a" "cmd_matches text b" "cmd_len a = cmd_len b"
  shows "a = b"
proof -
  have "cmd a = cmd b" using assms table_names(1) unfolding cmd_matches_def strncmp_eq_def
    by (metis order_refl take_all)
  then show ?thesis using assms(1,2) table_names(2) by (metis distinct_map inj_onD)
qed

definition longest_match :: "cstr \<Rightarrow> uart_cmd_entry \<Rightarrow> bool" where
  "longest_match text e \<longleftrightarrow> e \<in> set uart_cmd_table \<and> cmd_matches text e \<and>
     (\<forall>e' \<in> set uart_cmd_table. cmd_matches text e' \<longrightarrow> cmd_len e' \<le> cmd_len e)"

lemma find_longest: "longest_match text e \<Longrightarrow> find_cmd InitUartCmdTableSortedIdx text = Some e"
proof -
  assume l: "longest_match text e"
  show "find_cmd InitUartCmdTableSortedIdx text = Some e"
  proof (cases "find_cmd InitUartCmdTableSortedIdx text")
    case None
    then have "\<forall>e' \<in> (\<lambda>i. uart_cmd_table ! i) ` set InitUartCmdTableSortedIdx. \<not> cmd_matches text e'"
      by (auto simp: find_cmd_None)
    then show ?thesis using l unfolding set_idx by (auto simp: longest_match_def)
  next
    case (Some d)
    note f = find_cmd_Some [OF Some sorted_idx(2)]
    have "\<forall>e' \<in> (\<lambda>i. uart_cmd_table ! i) ` set InitUartCmdTableSortedIdx. cmd_matches text e' \<longrightarrow> cmd_len e' \<le> cmd_len d"
      using f by blast
    then have "\<forall>e' \<in> set uart_cmd_table. cmd_matches text e' \<longrightarrow> cmd_len e' \<le> cmd_len d" unfolding set_idx by assumption
    moreover have "d \<in> set uart_cmd_table" "cmd_matches text d" using f unfolding set_idx by auto
    ultimately have "d = e" using l by (intro match_unique [of d e "text"]) (auto simp: longest_match_def intro: antisym)
    then show ?thesis using Some by simp
  qed
qed

definition idx_ok :: "app_state \<Rightarrow> bool" where
  "idx_ok s \<longleftrightarrow> uart_cmd_sorted_idx s \<in> {[], InitUartCmdTableSortedIdx}"

abbreviation idx_ready :: "app_state \<Rightarrow> app_state" where
  "idx_ready s \<equiv> s\<lparr>uart_cmd_sorted_idx := InitUartCmdTableSortedIdx\<rparr>"

lemma idx_nonempty: "InitUartCmdTableSortedIdx \<noteq> []"
proof
  assume "InitUartCmdTableSortedIdx = []"
  then have "set uart_cmd_table = {}" using set_idx by simp
  then show False by (simp add: uart_cmd_table_def)
qed

lemma HandleUartCommand_eq:
  assumes "idx_ok s"
  shows "HandleUartCommand env text s =
    (case find_cmd InitUartCmdTableSortedIdx (trim text) of
       Some e \<Rightarrow> run_handler env (handler e) (drop (cmd_len e) (trim text)) (idx_ready s)
     | None \<Rightarrow> Some (idx_ready s, prn (''Unknown command. Type '' @ CHR 0x27 # ''help'' @ CHR 0x27 # '' to see available commands.'') []))"
proof -
  have "(if uart_cmd_sorted_idx s = [] then idx_ready s else s) = idx_ready s"
    using assms idx_nonempty by (auto simp: idx_ok_def)
  then show ?thesis by (simp add: HandleUartCommand_def Let_def)
qed

text \<open>
  C34. The dispatcher runs the handler of the longest command that matches the trimmed line,
  on the rest of the line, and refuses a line that no command matches, before and after the
  index was built. The index is a permutation of the table's rows in the order of decreasing
  length; a matching command of the greatest length is unique, so ``net activate'' or ``sms
  ls'' never reach the handler of a shorter command.
\<close>

theorem HandleUartCommand_longest:
  assumes "idx_ok s"
  shows "mset InitUartCmdTableSortedIdx = mset [0..<length uart_cmd_table] \<and>
    sorted_wrt (\<lambda>a b. cmd_len (uart_cmd_table ! b) \<le> cmd_len (uart_cmd_table ! a)) InitUartCmdTableSortedIdx \<and>
    (\<forall>e. longest_match (trim text) e \<longrightarrow>
       HandleUartCommand env text s = run_handler env (handler e) (drop (cmd_len e) (trim text)) (idx_ready s)) \<and>
    ((\<forall>e \<in> set uart_cmd_table. \<not> cmd_matches (trim text) e) \<longrightarrow>
       HandleUartCommand env text s = Some (idx_ready s,
         prn (''Unknown command. Type '' @ CHR 0x27 # ''help'' @ CHR 0x27 # '' to see available commands.'') []))"
proof -
  have "find_cmd InitUartCmdTableSortedIdx (trim text) = None" if "\<forall>e \<in> set uart_cmd_table. \<not> cmd_matches (trim text) e"
    using that unfolding find_cmd_None set_idx [symmetric] by auto
  then show ?thesis using sorted_idx HandleUartCommand_eq [OF assms] by (auto simp: find_longest)
qed

text \<open>The witness: the line \<open>sms ls all\<close>, before the index was built.\<close>

theorem HandleUartCommand_longest_witness:
  "\<forall>env s. HandleUartCommand env '' sms ls all'' (s\<lparr>uart_cmd_sorted_idx := []\<rparr>) =
     Some (idx_ready s, HandleSmsLsCommand env '' all'')"
proof (intro allI)
  fix env s
  have t: "trim '' sms ls all'' = ''sms ls all''" by code_simp
  define e where "e = \<lparr>cmd = ''sms ls'', cmd_len = 6, handler = H_SmsLs, syntax_text = ''sms ls <all|read|unread>'',
      help_text = ''list SMS messages ()''\<rparr>"
  have "longest_match ''sms ls all'' e"
    by (simp add: longest_match_def e_def uart_cmd_table_def cmd_matches_def strncmp_eq_def)
  then show "HandleUartCommand env '' sms ls all'' (s\<lparr>uart_cmd_sorted_idx := []\<rparr>) =
     Some (idx_ready s, HandleSmsLsCommand env '' all'')"
    using HandleUartCommand_longest [of "s\<lparr>uart_cmd_sorted_idx := []\<rparr>" "'' sms ls all''" env]
    by (simp add: idx_ok_def t e_def run_handler_def)
qed

section \<open>Setting a parameter\<close>

lemma file_after_Save:
  "0 \<le> fd \<Longrightarrow> file_after CONFIG_FILE_PATH old (snd (ConfigStore_Save (Some CONFIG_FILE_PATH) fd (\<lambda>l. int (length l)) c)) = saved_file c"
  by (simp add: saved_file_def ConfigStore_Save_def)

lemma file_after_UART [simp]: "file_after n bs (UART_Printf f a) = bs"
  by (simp add: UART_Printf_def Let_def)

lemma param_names_trim: "e \<in> set g_config_map \<Longrightarrow> trim (param_name e) = param_name e \<and> param_name e \<noteq> []"
proof -
  have "list_all (\<lambda>s. trim s = s \<and> s \<noteq> []) (map param_name g_config_map)"
    unfolding g_config_map_def entry_defs list.map t_config_map.simps by code_simp
  then show "e \<in> set g_config_map \<Longrightarrow> trim (param_name e) = param_name e \<and> param_name e \<noteq> []"
    by (simp add: list_all_iff)
qed

text \<open>
  C35. Setting a parameter to a value its validator accepts takes effect at once, is printed when
  the parameter is read back, and rewrites the configuration file as a whole, without the \<open>save\<close>
  command of which the developer guide speaks. Loading that file later, in any chunking and from any
  state, restores the new configuration provided that it is one a file can hold
  (\<open>config_saved\<close>): its log level is not \<open>none\<close>, its port is valid as stored, its range error is read
  back from six decimals, and its texts begin and end with no blank and hold no line break. The proviso is needed:
  \<open>set log_level none\<close> is accepted and lost by the next load (\<open>log_level_none_lost\<close>).
\<close>

theorem HandleSetCommand_persists:
  assumes "trim param = name @ CHR '' '' # value" "CHR '' '' \<notin> set name" "getConfigMap (Some name) = Some e"
    "validator e (Some value) st = (True, st')" "0 \<le> ce_save_fd env" "ce_save_write env = (\<lambda>l. int (length l))"
    "read_ok f" "file_bytes f = saved_file (g_ConfigStore st')" "0 \<le> open_ret f" "size_ret f = int (length (file_bytes f))"
  shows "\<exists>out eff. HandleSetCommand env param st = (st', out) \<and>
    file_after CONFIG_FILE_PATH old out = saved_file (g_ConfigStore st') \<and>
    HandleGetCommand name st' = prn ''%s : %s'' [AStr name, AStr (serialized e st')] \<and>
    (config_saved (g_ConfigStore st') \<longrightarrow> ConfigStore_Load (Some CONFIG_FILE_PATH) f st0 = Some (True,
      \<lparr>g_ConfigStore = (g_ConfigStore st')\<lparr>imei := imei (g_ConfigStore st0)\<rparr>,
       isSaveLog = gps_logging (g_ConfigStore st'), gpsLogPath = PathConfig\<rparr>, eff))"
proof -
  have e: "e \<in> set g_config_map" "param_name e = name" using assms(3) find_entry_Some by (auto simp: getConfigMap_def)
  obtain out1 where sv: "ConfigStore_Save (Some CONFIG_FILE_PATH) (ce_save_fd env) (\<lambda>l. int (length l)) (g_ConfigStore st') = (True, out1)"
    using assms(5) by (simp add: ConfigStore_Save_def)
  define out where "out = out1 @ prn (''Set %s to '' @ CHR 0x27 # ''%s'' @ [CHR 0x27]) [AStr name, AStr value]"
  have sp: "strchr (name @ CHR '' '' # value) (CHR '' '') = Some (name, CHR '' '' # value)" using assms(2) by (rule strchr_eq)
  have "HandleSetCommand env param st = (st', out)"
    unfolding HandleSetCommand_def Let_def assms(1) sp option.case prod.case list.sel assms(3,4,6) sv out_def by simp
  moreover have "file_after CONFIG_FILE_PATH old out = saved_file (g_ConfigStore st')"
    using file_after_Save [OF assms(5), of old "g_ConfigStore st'"] by (simp add: out_def file_after_append sv)
  moreover have "\<exists>eff. config_saved (g_ConfigStore st') \<longrightarrow> ConfigStore_Load (Some CONFIG_FILE_PATH) f st0 = Some (True,
      \<lparr>g_ConfigStore = (g_ConfigStore st')\<lparr>imei := imei (g_ConfigStore st0)\<rparr>,
       isSaveLog = gps_logging (g_ConfigStore st'), gpsLogPath = PathConfig\<rparr>, eff)"
  proof (cases "config_saved (g_ConfigStore st')")
    case True
    have "NUL \<notin> set (file_bytes f)" unfolding assms(8) using rows_written(2) [OF True] saved_file_rows [OF True] by auto
    then show ?thesis
      using ConfigStore_Load_returns [OF assms(7) _ assms(9,10), of CONFIG_FILE_PATH st0] load_saved_file [OF True, of st0]
      by (auto simp: assms(8))
  qed simp
  moreover have "HandleGetCommand name st' = prn ''%s : %s'' [AStr name, AStr (serialized e st')]"
    using param_names_trim [OF e(1)] e(2) assms(3) by (simp add: HandleGetCommand_def)
  ultimately show ?thesis by blast
qed

text \<open>The witness sets the access point name of the default configuration.\<close>

definition cfg_example :: cfg_state where
  "cfg_example = \<lparr>g_ConfigStore = default_config, isSaveLog = False, gpsLogPath = PathConfig\<rparr>"

definition env_example :: cmd_env where
  "env_example = \<lparr>ce_net = env_idle, ce_save_fd = 3, ce_save_write = (\<lambda>l. int (length l)), ce_dir = (\<lambda>_. None),
     ce_file = (\<lambda>_. \<lparr>open_ret = - 1, size_ret = 0, file_bytes = [], read_ret = (\<lambda>_ _. 0)\<rparr>), ce_seek = 0,
     ce_delete = (\<lambda>_. 0), ce_ip = None, ce_deactive = True, ce_sms_info = None, ce_sms_list = True, ce_sms_delete = True\<rparr>"

definition file_of :: "char list \<Rightarrow> fs_file" where
  "file_of bs = \<lparr>open_ret = 1, size_ret = int (length bs), file_bytes = bs,
     read_ret = (\<lambda>pos count. min 1 (min count (int (length bs - pos))))\<rparr>"

lemma read_ok_file_of: "read_ok (file_of bs)"
  by (auto simp: read_ok_def file_of_def)

lemma HandleSetCommand_persists_witness:
  "\<exists>out. HandleSetCommand env_example ''apn net'' cfg_example =
      (cfg_example\<lparr>g_ConfigStore := default_config\<lparr>apn := ''net''\<rparr>\<rparr>, out) \<and>
    file_after CONFIG_FILE_PATH ''old'' out = saved_file (default_config\<lparr>apn := ''net''\<rparr>) \<and>
    (\<exists>eff. ConfigStore_Load (Some CONFIG_FILE_PATH) (file_of (saved_file (default_config\<lparr>apn := ''net''\<rparr>))) boot_state =
      Some (True, \<lparr>g_ConfigStore = default_config\<lparr>apn := ''net'', imei := imei (g_ConfigStore boot_state)\<rparr>,
       isSaveLog = gps_logging default_config, gpsLogPath = PathConfig\<rparr>, eff))"
proof -
  let ?c = "default_config\<lparr>apn := ''net''\<rparr>"
  let ?st = "cfg_example\<lparr>g_ConfigStore := ?c\<rparr>"
  have t: "trim ''apn net'' = ''apn'' @ CHR '' '' # ''net''" by code_simp
  have g: "getConfigMap (Some ''apn'') = Some entry_apn"
    using getConfigMap_entry [of entry_apn] by (simp add: g_config_map_def) (simp add: entry_apn_def)
  have v: "validator entry_apn (Some ''net'') cfg_example = (True, ?st)"
    by (simp add: entry_apn_def ApnValidate_def cfg_example_def set_cfg_def strncpy0_def)
  have s: "config_saved ?c"
  proof -
    have "text_ok 1 MAX_APN_LENGTH ''net''" by (simp add: text_ok_def value_text_plain isspace_def)
    then show ?thesis using default_saved by (simp add: config_saved_def)
  qed
  have env: "0 \<le> ce_save_fd env_example" "ce_save_write env_example = (\<lambda>l. int (length l))"
    by (simp_all add: env_example_def)
  let ?f = "file_of (saved_file ?c)"
  have f: "file_bytes ?f = saved_file (g_ConfigStore ?st)" "0 \<le> open_ret ?f" "size_ret ?f = int (length (file_bytes ?f))"
    by (simp_all add: file_of_def)
  have "CHR '' '' \<notin> set ''apn''" by simp
  from HandleSetCommand_persists [OF t this g v env read_ok_file_of f, of "''old''" boot_state] s
  show ?thesis by auto
qed

section \<open>Printing the end of a file\<close>

lemma print_char: "UART_Printf ''%c'' [AChr c] = [Uart [c]]"
  by (simp add: UART_Printf_def cstr_simps clamped_fits)

lemma print_chars: "concat (map (\<lambda>c. UART_Printf ''%c'' [AChr c]) s) = map (\<lambda>c. Uart [c]) s"
  by (induction s) (simp_all add: print_char)

lemma tail_loop_all:
  assumes "read_ok f" "pos \<le> length (file_bytes f)"
  shows "tail_loop f pos (int (length (file_bytes f) - pos)) = map (\<lambda>c. Uart [c]) (drop pos (file_bytes f))"
  using assms(2)
proof (induction "length (file_bytes f) - pos" arbitrary: pos rule: less_induct)
  case less
  show ?case
  proof (cases "pos < length (file_bytes f)")
    case False
    then show ?thesis using less.prems by (simp add: tail_loop.simps [of f _ 0])
  next
    case True
    define r where "r = int (length (file_bytes f) - pos)"
    define to_read where "to_read = (if r > 128 then 128 else r)"
    define n where "n = read_ret f pos to_read"
    have "0 < to_read" using True by (simp add: to_read_def r_def)
    then have n: "0 < n" "n \<le> r" using assms(1) True unfolding read_ok_def n_def r_def by (metis)+
    have le: "pos + nat n \<le> length (file_bytes f)" using n(2) True by (simp add: r_def)
    have "tail_loop f pos r = map (\<lambda>c. Uart [c]) (take (nat n) (drop pos (file_bytes f))) @ tail_loop f (pos + nat n) (r - n)"
      using True n by (simp add: tail_loop.simps [of f pos r] print_chars flip: to_read_def n_def)
    also have "r - n = int (length (file_bytes f) - (pos + nat n))" using le n by (simp add: r_def)
    also have "tail_loop f (pos + nat n) (int (length (file_bytes f) - (pos + nat n))) = map (\<lambda>c. Uart [c]) (drop (pos + nat n) (file_bytes f))"
      by (rule less.hyps) (use le n True in simp_all)
    also have "map (\<lambda>c. Uart [c]) (take (nat n) (drop pos (file_bytes f))) @ map (\<lambda>c. Uart [c]) (drop (pos + nat n) (file_bytes f)) =
        map (\<lambda>c. Uart [c]) (drop pos (file_bytes f))"
      by (metis add.commute append_take_drop_id drop_drop map_append)
    finally show ?thesis by (simp add: r_def)
  qed
qed

lemma tail_args_pos: "tail_args t = (p, n) \<Longrightarrow> 0 < n"
  by (auto simp: tail_args_def Let_def split: option.splits if_splits)

text \<open>
  C36. \<open>tail\<close> on a readable file prints exactly its last bytes, each of them once and in order,
  however the reads are chunked, and then a line end: as many bytes as its second argument
  says, 500 when that is missing or not a positive number, or the whole file if it is shorter.
\<close>

theorem HandleTailCommand_prints:
  assumes "trim args \<noteq> []" "tail_args (trim args) = (path, n)" "read_ok (ce_file env path)" "0 \<le> open_ret (ce_file env path)"
    "size_ret (ce_file env path) = int (length (file_bytes (ce_file env path)))" "0 \<le> ce_seek env"
  shows "0 < n \<and> HandleTailCommand env args =
    map (\<lambda>c. Uart [c]) (drop (length (file_bytes (ce_file env path)) - nat n) (file_bytes (ce_file env path))) @ prn [] []"
proof -
  define f where "f = ce_file env path"
  define start where "start = length (file_bytes f) - nat n"
  have n: "0 < n" using tail_args_pos [OF assms(2)] .
  have s: "(if int (length (file_bytes f)) > n then int (length (file_bytes f)) - n else 0) = int start"
    using n by (auto simp: start_def)
  have r: "int (length (file_bytes f)) - int start = int (length (file_bytes f) - start)" by (simp add: start_def)
  have "HandleTailCommand env args = tail_loop f (nat (int start)) (int (length (file_bytes f)) - int start) @ prn [] []"
  proof -
    have c: "(trim args = []) = False" "(open_ret f < 0) = False" "(int (length (file_bytes f)) < 0) = False"
      "(ce_seek env < 0) = False" "size_ret f = int (length (file_bytes f))"
      using assms(1,4-6) by (simp_all add: f_def)
    show ?thesis unfolding HandleTailCommand_def assms(2) prod.case Let_def f_def [symmetric] c if_False s by (rule refl)
  qed
  also have "\<dots> = map (\<lambda>c. Uart [c]) (drop start (file_bytes f)) @ prn [] []"
    unfolding r using tail_loop_all [of f start] assms(3) by (simp add: f_def start_def)
  finally show ?thesis using n by (simp add: start_def f_def)
qed

definition env_file :: "char list \<Rightarrow> cmd_env" where
  "env_file bs = env_example\<lparr>ce_file := (\<lambda>_. file_of bs)\<rparr>"

theorem HandleTailCommand_prints_witness:
  "HandleTailCommand (env_file ''abcd'') ''/log.txt 2'' = [Uart ''c'', Uart ''d''] @ prn [] []"
proof -
  have t: "trim ''/log.txt 2'' = ''/log.txt 2''" by code_simp
  have a: "tail_args (trim ''/log.txt 2'') = (''/log.txt'', 2)" unfolding t by code_simp
  have "read_ok (ce_file (env_file ''abcd'') ''/log.txt'')" by (simp add: env_file_def read_ok_file_of)
  from HandleTailCommand_prints [OF _ a this] show ?thesis
    by (simp add: t env_file_def file_of_def env_example_def)
qed

section \<open>Listing a directory\<close>

lemma ls_loop_None:
  "ls_loop env base es = None \<longleftrightarrow> (\<exists>e \<in> set es. d_type e = 8 \<and> 256 \<le> length base + length (d_name e))"
proof (induction es)
  case (Cons e es)
  have "ls_entry env base e = None \<longleftrightarrow> d_type e = 8 \<and> 256 \<le> length base + length (d_name e)"
    by (auto simp: ls_entry_def Let_def)
  then show ?case using Cons by (cases "ls_entry env base e") auto
qed simp

lemma length_ls_base: "length (ls_base path) \<le> 255"
  by (auto simp: ls_base_def Let_def strncpy0_def)

text \<open>
  \<open>ls\<close> writes outside its 256 byte path buffer exactly when the directory can be opened and
  holds a file whose name, behind the path with its slash, needs 256 bytes or more: the NUL is
  stored at the index of the untruncated length. In every other case it returns.
\<close>

lemma HandleLsCommand_overflow:
  "HandleLsCommand env path = None \<longleftrightarrow>
     (\<exists>entries e. ce_dir env (if trim path = [] then ''/'' else trim path) = Some entries \<and> e \<in> set entries \<and>
        d_type e = 8 \<and> 256 \<le> length (ls_base (if trim path = [] then ''/'' else trim path)) + length (d_name e))"
  by (auto simp: HandleLsCommand_def Let_def ls_loop_None split: option.splits)

text \<open>\<open>sms rm\<close>: every argument is refused, and without one the message at index 0 is deleted.\<close>

lemma HandleSmsRmCommand_cases:
  "HandleSmsRmCommand env param =
    (if trim param \<noteq> [] then prn ''incorrect parameter'' []
     else SmsDelete 0 # (if ce_sms_delete env then prn ''Deleted SMS at index %d'' [AInt 0]
                         else prn ''Failed to delete SMS at index %d'' [AInt 0]))"
proof -
  have "atoi [] = 0" by code_simp
  then show ?thesis by (simp add: HandleSmsRmCommand_def Let_def)
qed

end
