(* ===== verification/Sms.thy ===== *)
theory Sms
  imports Debug_Log
begin

text \<open>
  \<open>app/src/sms_service.c\<close>: setting up the short message service and answering the message
  ``get location'' with a link to the last known position. The position is an argument, what
  is sent is an effect.
\<close>

abbreviation SMS_BODY_MAX_LEN :: nat where "SMS_BODY_MAX_LEN \<equiv> 176"
abbreviation SMS_PHONE_NUMBER_MAX_LEN :: nat where "SMS_PHONE_NUMBER_MAX_LEN \<equiv> 21"
abbreviation SMS_ENCODE_TYPE_ASCII :: int where "SMS_ENCODE_TYPE_ASCII \<equiv> 0"
abbreviation SMS_ENCODE_TYPE_UNICODE :: int where "SMS_ENCODE_TYPE_UNICODE \<equiv> 1"

abbreviation SQ :: char where "SQ \<equiv> CHR 0x27"

definition SMS_TAG :: cstr where "SMS_TAG = ''SMS''"

section \<open>Operations\<close>

text \<open>The three answers of the modem: to the format, the parameters and the storage.\<close>

definition SmsInit :: "bool \<Rightarrow> bool \<Rightarrow> bool \<Rightarrow> effect list" where
  "SmsInit format param storage =
     Sdk ''SMS_SetFormat'' [1] #
     (if \<not> format then [LOGE SMS_TAG ''sms set format error'' []]
      else Sdk ''SMS_SetParameter'' [17, 11, 0, 4] #
        (if \<not> param then [LOGE SMS_TAG ''sms set parameter error'' []]
         else Sdk ''SMS_SetNewMessageStorage'' [] #
           (if \<not> storage then [LOGE SMS_TAG ''sms set message storage fail'' []] else [])))"

definition GetGoogleMapsLink :: "nat \<Rightarrow> fpv \<Rightarrow> fpv \<Rightarrow> cstr option" where
  "GetGoogleMapsLink bufsize latitude longitude =
     (if f32_eq latitude (FFin 0) \<and> f32_eq longitude (FFin 0) then None
      else Some (snprintf bufsize ''https://maps.google.com/?q=%.6f,%.6f'' [AFlt latitude, AFlt longitude]))"

definition SendLocationSms :: "fpv \<Rightarrow> fpv \<Rightarrow> cstr \<Rightarrow> effect list" where
  "SendLocationSms latitude longitude phoneNumber =
     (case GetGoogleMapsLink SMS_BODY_MAX_LEN latitude longitude of
        Some msg \<Rightarrow> [LOGI SMS_TAG ''Sending location SMS to %s: %s'' [AStr phoneNumber, AStr msg], SmsSend phoneNumber msg]
      | None \<Rightarrow>
          let err = ''Location not available''
          in [LOGI SMS_TAG ''Sending error SMS to %s: %s'' [AStr phoneNumber, AStr err], SmsSend phoneNumber err])"

text \<open>
  The text of a UCS-2 message: the low bytes of the characters whose high byte is zero. The
  index is an \<open>uint16_t\<close>, the length an \<open>uint32_t\<close>; \<open>None\<close> stands for a loop that does not end.
\<close>

partial_function (option) ucs2_loop :: "char list \<Rightarrow> u32 \<Rightarrow> u16 \<Rightarrow> cstr \<Rightarrow> cstr option" where
  "ucs2_loop contentStr contentLen i cmd =
     (if ucast i < contentLen \<and> length cmd < SMS_BODY_MAX_LEN - 1 then
        ucs2_loop contentStr contentLen (i + 2)
          (if unat i + 1 < unat contentLen \<and> contentStr ! unat i = NUL then cmd @ [contentStr ! (unat i + 1)] else cmd)
      else Some cmd)"

text \<open>\<open>cmd\<close> after the content was decoded; the inner option is \<open>None\<close> for another encoding.\<close>

definition decode_content :: "int \<Rightarrow> char list \<Rightarrow> u32 \<Rightarrow> cstr option option" where
  "decode_content encodeType contentStr contentLen =
     (if encodeType = SMS_ENCODE_TYPE_ASCII
      then Some (Some (cstr_of (take (if unat contentLen < SMS_BODY_MAX_LEN - 1 then unat contentLen else SMS_BODY_MAX_LEN - 1) contentStr)))
      else if encodeType = SMS_ENCODE_TYPE_UNICODE
      then map_option (\<lambda>cmd. Some (cstr_of cmd)) (ucs2_loop contentStr contentLen 0 [])
      else Some None)"

text \<open>The number between the first quotes of the header; a wrong character (\<open>Inl\<close>) ends the search.\<close>

fun phone_loop :: "cstr \<Rightarrow> bool \<Rightarrow> cstr \<Rightarrow> char + cstr" where
  "phone_loop [] insideQuotes phone = Inr phone"
| "phone_loop (c # cs) insideQuotes phone =
     (if \<not> length phone < SMS_PHONE_NUMBER_MAX_LEN then Inr phone
      else if \<not> insideQuotes \<and> c = QUOT then phone_loop cs True phone
      else if insideQuotes \<and> c = QUOT then Inr phone
      else if insideQuotes then
        if isdigit c \<or> (c = CHR ''+'' \<and> phone = []) then phone_loop cs insideQuotes (phone @ [c]) else Inl c
      else phone_loop cs insideQuotes phone)"

definition SmsReceivedCallback :: "fpv \<Rightarrow> fpv \<Rightarrow> int \<Rightarrow> cstr \<Rightarrow> char list \<Rightarrow> u32 \<Rightarrow> effect list option" where
  "SmsReceivedCallback latitude longitude encodeType headerStr contentStr contentLen =
     map_option (\<lambda>decoded. case decoded of
         None \<Rightarrow> [LOGE SMS_TAG ''SMS received with unsupported encoding type: %d'' [AInt encodeType]]
       | Some text \<Rightarrow>
           let cmd = fst (trim_whitespace text);
               logs = [LOGI SMS_TAG ''SMS received header: %s, encodeType: %d, contentLength: %d''
                         [AStr headerStr, AInt encodeType, AInt (sint contentLen)],
                       LOGI SMS_TAG (''SMS content (processed): '' @ SQ # ''%s'' @ [SQ]) [AStr cmd]]
           in logs @
              (case phone_loop headerStr False [] of
                 Inl c \<Rightarrow> [LOGE SMS_TAG (''Unexpected character in phone number: '' @ SQ # ''%c'' @ [SQ]) [AChr c]]
               | Inr phoneNumber \<Rightarrow>
                   if phoneNumber = [] then [LOGE SMS_TAG ''Return phone number is empty'' []]
                   else if str_case_cmp cmd ''get location'' = 0
                   then LOGI SMS_TAG (''Recognized '' @ SQ # ''get location'' @ SQ # '' command from %s'') [AStr phoneNumber] #
                        SendLocationSms latitude longitude phoneNumber
                   else [LOGE SMS_TAG ''Unknown SMS command received: %s'' [AStr cmd]]))
       (decode_content encodeType contentStr contentLen)"

section \<open>Decoding the content\<close>

lemmas ucs2_loop_unfold = ucs2_loop.simps

text \<open>The characters a UCS-2 text keeps, at most 175.\<close>

fun ucs2_text :: "char list \<Rightarrow> cstr" where
  "ucs2_text (hi # lo # bs) = (if hi = NUL then lo # ucs2_text bs else ucs2_text bs)"
| "ucs2_text _ = []"

lemma ucs2_loop_correct:
  assumes "unat contentLen < 65535" "length s = unat contentLen" "unat i \<le> Suc (length s)" "length cmd \<le> 175"
  shows "ucs2_loop s contentLen i cmd = Some (take 175 (cmd @ ucs2_text (drop (unat i) s)))"
  using assms(3,4)
proof (induction "Suc (length s) - unat i" arbitrary: i cmd rule: less_induct)
  case less
  have small: "unat i < 65535" if "unat i < length s" using that assms(1,2) by simp
  have lt: "ucast i < contentLen \<longleftrightarrow> unat i < length s"
    using assms(2) unsigned_less [where 'a = nat, of i] by (simp add: word_less_nat_alt unsigned_ucast_eq take_bit_nat_eq_self)
  show ?case
  proof (cases "unat i < length s \<and> length cmd < 175")
    case False
    then have "unat i \<ge> length s \<or> length cmd = 175" using less.prems by auto
    then show ?thesis using False lt less.prems(2) by (subst ucs2_loop.simps) auto
  next
    case True
    have two: "unat (i + 2) = unat i + 2"
      using True assms(1,2) by (subst unat_add_lem [THEN iffD1]) (auto simp: unat_of_nat)
    let ?cmd = "if unat i + 1 < unat contentLen \<and> s ! unat i = NUL then cmd @ [s ! (unat i + 1)] else cmd"
    have "ucs2_loop s contentLen (i + 2) ?cmd = Some (take 175 (?cmd @ ucs2_text (drop (unat (i + 2)) s)))"
    proof (rule less.hyps)
      show "Suc (length s) - unat (i + 2) < Suc (length s) - unat i" using True two by linarith
      show "unat (i + 2) \<le> Suc (length s)" using True two by simp
      show "length ?cmd \<le> 175" using True by simp
    qed
    moreover have "?cmd @ ucs2_text (drop (unat (i + 2)) s) = cmd @ ucs2_text (drop (unat i) s)"
    proof (cases "unat i + 1 < length s")
      case n: True
      then have "drop (unat i) s = s ! unat i # s ! (unat i + 1) # drop (unat i + 2) s"
        by (simp add: Cons_nth_drop_Suc)
      then show ?thesis using n two assms(2) by simp
    next
      case n: False
      then have "drop (unat i) s = [s ! unat i]" using True
        by (metis Cons_nth_drop_Suc Suc_eq_plus1 drop_all not_less)
      then show ?thesis using n two assms(2) True by simp
    qed
    ultimately have "ucs2_loop s contentLen (i + 2) ?cmd = Some (take 175 (cmd @ ucs2_text (drop (unat i) s)))"
      by (simp only:)
    moreover have "ucs2_loop s contentLen i cmd = ucs2_loop s contentLen (i + 2) ?cmd"
      using True lt by (subst ucs2_loop.simps) simp
    ultimately show ?thesis by (simp only:)
  qed
qed

text \<open>The content as the callback understands it.\<close>

definition content_text :: "int \<Rightarrow> char list \<Rightarrow> cstr" where
  "content_text encodeType s =
     cstr_of (take 175 (if encodeType = SMS_ENCODE_TYPE_ASCII then s else ucs2_text s))"

lemma decode_content_correct:
  assumes "encodeType \<in> {SMS_ENCODE_TYPE_ASCII, SMS_ENCODE_TYPE_UNICODE}" "length s = unat contentLen"
    "unat contentLen < 65535"
  shows "decode_content encodeType s contentLen = Some (Some (content_text encodeType s))"
proof (cases "encodeType = SMS_ENCODE_TYPE_ASCII")
  case True
  then show ?thesis using assms(2) by (auto simp: decode_content_def content_text_def)
next
  case False
  then show ?thesis using assms ucs2_loop_correct [OF assms(3,2), of 0 "[]"]
    by (auto simp: decode_content_def content_text_def)
qed

text \<open>UCS-2 as a sender writes ASCII text: a zero byte before each character.\<close>

definition ucs2 :: "cstr \<Rightarrow> char list" where
  "ucs2 t = concat (map (\<lambda>c. [NUL, c]) t)"

lemma ucs2_text_ucs2 [simp]: "ucs2_text (ucs2 t) = t"
  by (induction t) (simp_all add: ucs2_def)

lemma length_ucs2: "length (ucs2 t) = 2 * length t"
  by (induction t) (simp_all add: ucs2_def)

section \<open>The number to answer\<close>

text \<open>
  The specification: the text between the first two quotes, or up to the end, cut to 21
  characters. It must not be empty and consist of digits, the first one possibly a plus.
\<close>

definition quoted :: "cstr \<Rightarrow> cstr" where
  "quoted header = take 21 (takeWhile (\<lambda>c. c \<noteq> QUOT) (tl (dropWhile (\<lambda>c. c \<noteq> QUOT) header)))"

fun phone_chars :: "cstr \<Rightarrow> bool" where
  "phone_chars [] = True"
| "phone_chars (c # cs) \<longleftrightarrow> (isdigit c \<or> c = CHR ''+'') \<and> (\<forall>d \<in> set cs. isdigit d)"

definition phone_of :: "cstr \<Rightarrow> cstr option" where
  "phone_of header = (if quoted header \<noteq> [] \<and> phone_chars (quoted header) then Some (quoted header) else None)"

lemma isdigit_not_QUOT: "isdigit c \<Longrightarrow> c \<noteq> QUOT"
  by (auto simp: isdigit_def)

lemma phone_inside_tail:
  assumes "phone \<noteq> []" "length phone \<le> 21"
  shows "case phone_loop cs True phone of
      Inr p \<Rightarrow> p = phone @ take (21 - length phone) (takeWhile (\<lambda>c. c \<noteq> QUOT) cs) \<and>
        (\<forall>d \<in> set (take (21 - length phone) (takeWhile (\<lambda>c. c \<noteq> QUOT) cs)). isdigit d)
    | Inl c \<Rightarrow> \<not> (\<forall>d \<in> set (take (21 - length phone) (takeWhile (\<lambda>c. c \<noteq> QUOT) cs)). isdigit d)"
  using assms
proof (induction cs arbitrary: phone)
  case (Cons c cs)
  show ?case
  proof (cases "length phone < 21")
    case True
    define m where "m = 21 - length (phone @ [c])"
    have k: "21 - length phone = Suc m" "length (phone @ [c]) \<le> 21" using True by (simp_all add: m_def)
    note ih = Cons.IH [of "phone @ [c]", folded m_def, OF _ k(2)]
    consider "c = QUOT" | "isdigit c" "c \<noteq> QUOT" | "\<not> isdigit c" "c \<noteq> QUOT" by blast
    then show ?thesis
    proof cases
      case 2
      then have "phone_loop (c # cs) True phone = phone_loop cs True (phone @ [c])" using True by simp
      then show ?thesis using ih 2 unfolding k(1) by (auto split: sum.splits)
    qed (use True Cons.prems k(1) in simp_all)

  next
    case False
    then show ?thesis using Cons.prems by simp
  qed
qed simp

lemma phone_inside:
  "case phone_loop cs True [] of
      Inr p \<Rightarrow> p = take 21 (takeWhile (\<lambda>c. c \<noteq> QUOT) cs) \<and> phone_chars p
    | Inl c \<Rightarrow> \<not> phone_chars (take 21 (takeWhile (\<lambda>c. c \<noteq> QUOT) cs))"
proof (cases cs)
  case (Cons c cs')
  show ?thesis
  proof (cases "isdigit c \<or> c = CHR ''+''")
    case True
    then have "c \<noteq> QUOT" using isdigit_not_QUOT by auto
    then show ?thesis using True phone_inside_tail [of "[c]" cs'] by (auto simp: Cons split: sum.splits)
  next
    case False
    then show ?thesis by (simp add: Cons)
  qed
qed simp

lemma phone_loop_correct:
  "case phone_loop header False [] of
      Inr p \<Rightarrow> p = quoted header \<and> phone_chars (quoted header)
    | Inl c \<Rightarrow> \<not> phone_chars (quoted header)"
proof (induction header)
  case (Cons c cs)
  show ?case using Cons phone_inside [of cs] by (auto simp: quoted_def split: sum.splits)
qed (simp add: quoted_def)

section \<open>What is sent, and to whom\<close>

fun sms_sent :: "effect list \<Rightarrow> (cstr \<times> cstr) list" where
  "sms_sent [] = []"
| "sms_sent (SmsSend number text # es) = (number, text) # sms_sent es"
| "sms_sent (_ # es) = sms_sent es"

lemma sms_sent_Log [simp]:
  "sms_sent (LOGE t f a # es) = sms_sent es" "sms_sent (LOGI t f a # es) = sms_sent es"
  by (simp_all add: LOGE_def LOGI_def)

definition location_text :: "fpv \<Rightarrow> fpv \<Rightarrow> cstr" where
  "location_text latitude longitude =
     (if f32_eq latitude (FFin 0) \<and> f32_eq longitude (FFin 0) then ''Location not available''
      else take 175 (''https://maps.google.com/?q='' @ float_str 6 latitude @ '','' @ float_str 6 longitude))"

lemma link_printed:
  "snprintf SMS_BODY_MAX_LEN ''https://maps.google.com/?q=%.6f,%.6f'' [AFlt a, AFlt b] =
     take 175 (''https://maps.google.com/?q='' @ float_str 6 a @ '','' @ float_str 6 b)"
proof -
  have "sprintf ''https://maps.google.com/?q=%.6f,%.6f'' [AFlt a, AFlt b] =
      ''https://maps.google.com/?q='' @ float_str 6 a @ '','' @ float_str 6 b"
    by (simp add: cstr_simps)
  then show ?thesis by (simp only: snprintf_def snprintf_trunc_def) simp
qed

lemma SendLocationSms_sent:
  "sms_sent (SendLocationSms latitude longitude phone) = [(phone, location_text latitude longitude)]"
  unfolding SendLocationSms_def GetGoogleMapsLink_def link_printed location_text_def by (simp add: Let_def)

text \<open>The content is the command when it is \<open>get location\<close> up to letter case and blanks behind it.\<close>

definition is_get_location :: "cstr \<Rightarrow> bool" where
  "is_get_location text \<longleftrightarrow> str_case_cmp (fst (trim_whitespace text)) ''get location'' = 0"

text \<open>
  C28. The callback returns for every message in one of the two supported encodings. It sends
  at most one message: exactly when the decoded content is the command and the header holds a
  quoted number made of digits and an optional leading plus, to that number, cut to 21
  characters, with the link to the last position or the note that there is none. A message in
  UCS-2 is treated as the same text in ASCII, and one in another encoding is never answered.
\<close>

theorem SmsReceivedCallback_answers:
  assumes "length content = unat contentLen" "unat contentLen < 65535"
  shows "\<exists>out. SmsReceivedCallback latitude longitude encodeType header content contentLen = Some out \<and>
    sms_sent out =
      (if encodeType \<in> {SMS_ENCODE_TYPE_ASCII, SMS_ENCODE_TYPE_UNICODE} \<and>
          is_get_location (content_text encodeType content)
       then (case phone_of header of None \<Rightarrow> [] | Some number \<Rightarrow> [(number, location_text latitude longitude)])
       else []) \<and>
    content_text SMS_ENCODE_TYPE_UNICODE (ucs2 text) = content_text SMS_ENCODE_TYPE_ASCII text"
proof (cases "encodeType \<in> {SMS_ENCODE_TYPE_ASCII, SMS_ENCODE_TYPE_UNICODE}")
  case True
  show ?thesis using phone_loop_correct [of header] True
    unfolding SmsReceivedCallback_def decode_content_correct [OF True assms]
    by (auto simp: Let_def phone_of_def SendLocationSms_sent is_get_location_def content_text_def split: sum.splits)
next
  case False
  then show ?thesis by (simp add: SmsReceivedCallback_def decode_content_def content_text_def)
qed

definition header_example :: cstr where
  "header_example = [QUOT] @ ''+48123456789'' @ [QUOT] @ '','' @ [QUOT] @ ''2023/06/08,11:22:33+00'' @ [QUOT]"

theorem SmsReceivedCallback_answers_witness:
  "\<exists>out. SmsReceivedCallback (FFin 52) (FFin 21) SMS_ENCODE_TYPE_UNICODE header_example
       (ucs2 ''Get Location '') 26 = Some out \<and>
     sms_sent out = [(''+48123456789'', location_text (FFin 52) (FFin 21))]"
proof -
  have "phone_of header_example = Some ''+48123456789''" by code_simp
  moreover have "is_get_location (content_text SMS_ENCODE_TYPE_UNICODE (ucs2 ''Get Location ''))" by code_simp
  moreover have "length (ucs2 ''Get Location '') = unat (26::u32)" "unat (26::u32) < 65535"
    by (simp_all add: length_ucs2)
  ultimately show ?thesis
    using SmsReceivedCallback_answers [of "ucs2 ''Get Location ''" 26 "FFin 52" "FFin 21" SMS_ENCODE_TYPE_UNICODE header_example]
    by auto
qed

text \<open>A blank in front of the command is not trimmed, since the pointer returned by \<open>trim_whitespace\<close> is dropped.\<close>

lemma leading_blank_refused:
  "is_get_location ''get location'' \<and> \<not> is_get_location '' get location'' \<and> trim '' get location'' = ''get location''"
  by code_simp

end
