(* ===== verification/Led.thy ===== *)
theory Led
  imports System_Status
begin

text \<open>
  \<open>app/src/led_handler.c\<close>: the two status LEDs, driven by a timer that calls \<open>LED_Blink\<close>
  every half second. The static tick counter is an argument and a result; the levels the pins
  take are effects.
\<close>

abbreviation GPS_STATUS_LED :: nat where "GPS_STATUS_LED \<equiv> 27"
abbreviation GSM_STATUS_LED :: nat where "GSM_STATUS_LED \<equiv> 28"

definition LED_BlinkingTimer :: "effect list" where
  "LED_BlinkingTimer = [StartTimer 500 ''LED_Blink'']"

definition handle_led_blink :: "bool \<Rightarrow> int \<Rightarrow> nat \<Rightarrow> effect list" where
  "handle_led_blink status_on count pin =
     (if status_on then [GpioSet pin GPIO_LEVEL_HIGH]
      else if count = 0 then [GpioSet pin GPIO_LEVEL_HIGH]
      else if count = 1 then [GpioSet pin GPIO_LEVEL_LOW]
      else [])"

text \<open>\<open>valid\<close> is the result of \<open>gps_isValid()\<close>; a handle is a number, zero being NULL.\<close>

definition LED_Blink :: "nat \<Rightarrow> u8 \<Rightarrow> bool \<Rightarrow> int \<Rightarrow> int \<times> effect list" where
  "LED_Blink param systemStatus valid count =
     (if param = 0 then (count, [])
      else if IS_INITIALIZED systemStatus
      then ((count + 1) smod 5,
            handle_led_blink valid count GPS_STATUS_LED @
            handle_led_blink (IS_GSM_ACTIVE systemStatus) count GSM_STATUS_LED @ LED_BlinkingTimer)
      else ((count + 1) smod 2,
            [GpioSet GPS_STATUS_LED GPIO_LEVEL_LOW] @ handle_led_blink False count GSM_STATUS_LED @ LED_BlinkingTimer))"

text \<open>Both pins become outputs, low at first.\<close>

definition LED_init :: "effect list" where
  "LED_init = [Sdk ''GPIO_Init'' [int GPS_STATUS_LED, 0], Sdk ''GPIO_Init'' [int GSM_STATUS_LED, 0]] @ LED_BlinkingTimer"

section \<open>The levels of the pins over time\<close>

fun pin_level :: "nat \<Rightarrow> gpio_level \<Rightarrow> effect list \<Rightarrow> gpio_level" where
  "pin_level pin l [] = l"
| "pin_level pin l (GpioSet p v # es) = pin_level pin (if p = pin then v else l) es"
| "pin_level pin l (_ # es) = pin_level pin l es"

record led_state =
  led_count :: int
  led_gps :: gpio_level
  led_gsm :: gpio_level

definition led_tick :: "u8 \<times> bool \<Rightarrow> led_state \<Rightarrow> led_state" where
  "led_tick inp s =
     (let (count, out) = LED_Blink 1 (fst inp) (snd inp) (led_count s)
      in \<lparr>led_count = count, led_gps = pin_level GPS_STATUS_LED (led_gps s) out,
          led_gsm = pin_level GSM_STATUS_LED (led_gsm s) out\<rparr>)"

definition led_run :: "(u8 \<times> bool) list \<Rightarrow> led_state \<Rightarrow> led_state" where
  "led_run inps s = fold led_tick inps s"

text \<open>The counter stays in the range of the slower pattern, also when the pattern changes.\<close>

definition count_ok :: "int \<Rightarrow> bool" where
  "count_ok c \<longleftrightarrow> c \<in> {0, 1, 2, 3, 4}"

lemma count_ok_next: "count_ok c \<Longrightarrow> count_ok (fst (LED_Blink p sys v c))"
  by (auto simp: count_ok_def LED_Blink_def signed_modulo_int_def)

lemma led_run_simps [simp]: "led_run [] s = s" "led_run (x # xs) s = led_run xs (led_tick x s)"
  by (simp_all add: led_run_def)

lemma led_run_append: "led_run (a @ b) s = led_run b (led_run a s)"
  by (simp add: led_run_def)

lemma count_ok_tick: "count_ok (led_count s) \<Longrightarrow> count_ok (led_count (led_tick inp s))"
  using count_ok_next [of "led_count s" 1 "fst inp" "snd inp"] by (simp add: led_tick_def case_prod_beta Let_def)

lemma count_ok_run: "count_ok (led_count s) \<Longrightarrow> count_ok (led_count (led_run inps s))"
  by (induction inps arbitrary: s) (simp_all add: count_ok_tick)

text \<open>One tick of an initialised system.\<close>

definition shown :: "bool \<Rightarrow> int \<Rightarrow> gpio_level \<Rightarrow> gpio_level" where
  "shown on c old = (if on \<or> c = 0 then GPIO_LEVEL_HIGH else if c = 1 then GPIO_LEVEL_LOW else old)"

lemma led_tick_initialized:
  assumes "IS_INITIALIZED sys"
  shows "led_tick (sys, v) s = \<lparr>led_count = (led_count s + 1) smod 5, led_gps = shown v (led_count s) (led_gps s),
     led_gsm = shown (IS_GSM_ACTIVE sys) (led_count s) (led_gsm s)\<rparr>"
  using assms by (simp add: led_tick_def LED_Blink_def handle_led_blink_def LED_BlinkingTimer_def shown_def)

lemma five: "replicate 5 x = [x, x, x, x, x]"
  by (simp add: eval_nat_numeral)

text \<open>Five ticks of a constant status bring both LEDs to the pattern of that status.\<close>

lemma five_ticks:
  assumes "IS_INITIALIZED sys" "count_ok (led_count s)"
  shows "led_run (replicate 5 (sys, v)) s = \<lparr>led_count = led_count s,
     led_gps = (if v \<or> led_count s = 1 then GPIO_LEVEL_HIGH else GPIO_LEVEL_LOW),
     led_gsm = (if IS_GSM_ACTIVE sys \<or> led_count s = 1 then GPIO_LEVEL_HIGH else GPIO_LEVEL_LOW)\<rparr>"
proof -
  have m: "(1::int) smod 5 = 1" "(2::int) smod 5 = 2" "(3::int) smod 5 = 3" "(4::int) smod 5 = 4" "(5::int) smod 5 = 0"
    by (simp_all add: signed_modulo_int_def)
  from assms(2) consider "led_count s = 0" | "led_count s = 1" | "led_count s = 2" | "led_count s = 3" | "led_count s = 4"
    by (auto simp: count_ok_def)
  then show ?thesis unfolding five
    by cases (simp_all add: led_tick_initialized [OF assms(1)] shown_def m)
qed

text \<open>
  C29. Whatever happened before, the tick counter is between 0 and 4, and after five ticks or
  more of an initialised system with a constant status each LED shows it: constantly high for a
  valid position or an active connection, and otherwise high on one tick in five and low on the
  other four. Every tick arms the timer again. The manual (\<open>README.md\<close>) says otherwise: off
  without a fix or connection, and blinking with one.
\<close>

theorem LED_pattern:
  assumes "IS_INITIALIZED sys" "count_ok (led_count s)" "5 \<le> n"
  shows "\<exists>s1 s2. led_run (inps @ replicate n (sys, v)) s = s2 \<and> led_run (inps @ replicate (n - 5) (sys, v)) s = s1 \<and>
    count_ok (led_count s1) \<and> led_count s2 = led_count s1 \<and>
    led_gps s2 = (if v \<or> led_count s2 = 1 then GPIO_LEVEL_HIGH else GPIO_LEVEL_LOW) \<and>
    led_gsm s2 = (if IS_GSM_ACTIVE sys \<or> led_count s2 = 1 then GPIO_LEVEL_HIGH else GPIO_LEVEL_LOW) \<and>
    led_count (led_tick (sys, v) s2) = (led_count s2 + 1) mod 5 \<and>
    (\<exists>c acts. LED_Blink 1 sys v (led_count s2) = (c, acts @ LED_BlinkingTimer))"
proof -
  define s1 where "s1 = led_run (inps @ replicate (n - 5) (sys, v)) s"
  have ok: "count_ok (led_count s1)" unfolding s1_def by (rule count_ok_run) (rule assms(2))
  have "replicate n (sys, v) = replicate (n - 5) (sys, v) @ replicate 5 (sys, v)"
    using assms(3) by (simp flip: replicate_add)
  then have "led_run (inps @ replicate n (sys, v)) s = led_run (replicate 5 (sys, v)) s1"
    by (simp add: s1_def led_run_append)
  moreover have "(led_count s1 + 1) smod 5 = (led_count s1 + 1) mod 5" using ok
    by (auto simp: count_ok_def signed_modulo_int_def)
  moreover have "\<exists>c acts. LED_Blink 1 sys v (led_count s1) = (c, acts @ LED_BlinkingTimer)"
    using assms(1) by (simp add: LED_Blink_def)
  ultimately show ?thesis using ok unfolding s1_def [symmetric]
    by (simp add: five_ticks [OF assms(1) ok] led_tick_initialized [OF assms(1)])
qed

theorem LED_pattern_witness:
  "led_gsm (led_run ([] @ replicate 6 (INITIALIZED_ON 0, True)) \<lparr>led_count = 0, led_gps = GPIO_LEVEL_LOW, led_gsm = GPIO_LEVEL_LOW\<rparr>) =
     GPIO_LEVEL_HIGH \<and>
   led_gps (led_run ([] @ replicate 6 (INITIALIZED_ON 0, True)) \<lparr>led_count = 0, led_gps = GPIO_LEVEL_LOW, led_gsm = GPIO_LEVEL_LOW\<rparr>) =
     GPIO_LEVEL_HIGH"
proof -
  let ?s = "\<lparr>led_count = 0, led_gps = GPIO_LEVEL_LOW, led_gsm = GPIO_LEVEL_LOW\<rparr>"
  have "led_count (led_run ([] @ replicate (6 - 5) (INITIALIZED_ON 0, True)) ?s) = 1"
    by (simp add: led_tick_initialized signed_modulo_int_def)
  then show ?thesis using LED_pattern [of "INITIALIZED_ON 0" ?s 6 "[]" True]
    by (simp add: count_ok_def)
qed

end
