(* ===== verification/System_Events.thy ===== *)
theory System_Events
  imports Config_Commands Sms Led
begin

text \<open>
  \<open>app/src/system.c\<close>: start-up of the firmware and the handler of its events, which calls
  every other component, and the system as a whole: the main task's events, the network's
  status callback, the two timers and the turns of the reporting task as the steps of one
  transition relation. Each of these runs to its end before the next one starts.
\<close>

section \<open>Events\<close>

text \<open>The events the handler knows, with the parameters it reads.\<close>

datatype API_Event_t =
    API_EVENT_ID_NO_SIMCARD int
  | API_EVENT_ID_SIMCARD_DROP int
  | API_EVENT_ID_NETWORK_REGISTER_DENIED
  | API_EVENT_ID_NETWORK_REGISTER_NO
  | API_EVENT_ID_NETWORK_DETACHED
  | API_EVENT_ID_SIGNAL_QUALITY int
  | API_EVENT_ID_NETWORK_CELL_INFO "Network_Location_t list" int
  | API_EVENT_ID_SYSTEM_READY
  | API_EVENT_ID_SMS_RECEIVED int cstr "char list" u32
  | API_EVENT_ID_SMS_LIST_MESSAGE SMS_Message_Info_t
  | API_EVENT_ID_GPS_UART_RECEIVED "char list"
  | API_EVENT_ID_UART_RECEIVED int "char list"
  | API_EVENT_ID_OTHER

abbreviation UART1 :: int where "UART1 \<equiv> 1"

definition SYS_TAG :: cstr where "SYS_TAG = ''System''"

record sys_env =
  se_cmd :: cmd_env
  se_log_open :: "cstr option \<Rightarrow> bool"
  se_log_write :: "cstr \<Rightarrow> int"
  se_malloc :: bool
  se_gcvt :: "fpv \<Rightarrow> cstr"
  se_now :: int                        \<comment> \<open>\<open>time(NULL)\<close>\<close>

definition gps_env_of :: "sys_env \<Rightarrow> app_state \<Rightarrow> gps_env" where
  "gps_env_of env s = \<lparr>env_cfg = app_cfg s, env_open = se_log_open env, env_write = se_log_write env,
     env_malloc = se_malloc env, env_gcvt = se_gcvt env\<rparr>"

definition upd_net :: "(net_state \<Rightarrow> net_state) \<Rightarrow> app_state \<Rightarrow> app_state" where
  "upd_net f s = s\<lparr>app_net := f (app_net s)\<rparr>"

text \<open>\<open>None\<close>: a step that does not return or leaves an array.\<close>

definition gps_event :: "sys_env \<Rightarrow> char list \<Rightarrow> app_state \<Rightarrow> (app_state \<times> effect list) option" where
  "gps_event env data s0 =
     (let out0 = (if gps_logging (g_ConfigStore (app_cfg s0))
                  then [LOGD SYS_TAG (''received GPS data, length:%d, data:'' @ CRLF @ ''%s'') [AInt (int (length data)), AStr (cstr_of data)]]
                  else []);
          s = upd_net (upd_status GPS_STATUS_ON) s0
      in Option.bind (GPS_Update (gps_env_of env s) data (of_nat (length data)) (app_gps s)) (\<lambda>(g, out).
         map_option (\<lambda>d. (s\<lparr>app_gps := g, app_data := d\<rparr>, out0 @ out))
           (gps_Process (g_ConfigStore (app_cfg s)) (se_now env) (Gps_GetInfo (gps_parse g)))))"

definition EventHandler :: "sys_env \<Rightarrow> API_Event_t \<Rightarrow> app_state \<Rightarrow> (app_state \<times> effect list) option" where
  "EventHandler env ev s =
     (case ev of
        API_EVENT_ID_NO_SIMCARD n \<Rightarrow>
          Some (upd_net (upd_status GSM_ACTIVE_OFF) s, [LOGE SYS_TAG ''no sim card %d !'' [AInt n]])
      | API_EVENT_ID_SIMCARD_DROP n \<Rightarrow>
          Some (upd_net (upd_status GSM_ACTIVE_OFF) s, [LOGE SYS_TAG ''sim card %d drop !'' [AInt n]])
      | API_EVENT_ID_NETWORK_REGISTER_DENIED \<Rightarrow>
          Some (upd_net (upd_status GSM_REGISTERED_OFF) s, [LOGE SYS_TAG ''network register denied'' []])
      | API_EVENT_ID_NETWORK_REGISTER_NO \<Rightarrow>
          Some (upd_net (upd_status GSM_REGISTERED_OFF) s, [LOGE SYS_TAG ''network register no'' []])
      | API_EVENT_ID_NETWORK_DETACHED \<Rightarrow> Some (s, [LOGE SYS_TAG ''network detached'' []])
      | API_EVENT_ID_SIGNAL_QUALITY q \<Rightarrow>
          (let (n, out) = NetworkSigQualityCallback q (app_net s) in Some (s\<lparr>app_net := n\<rparr>, out))
      | API_EVENT_ID_NETWORK_CELL_INFO loc number \<Rightarrow>
          Some (upd_net (NetworkCellInfoCallback loc number) s, [])
      | API_EVENT_ID_SYSTEM_READY \<Rightarrow>
          Some (upd_net (upd_status INITIALIZED_ON) s, [LOGW SYS_TAG ''system initialize complete'' []])
      | API_EVENT_ID_SMS_RECEIVED encode header content len \<Rightarrow>
          map_option (\<lambda>out. (s, out))
            (SmsReceivedCallback (gps_GetLastLatitude (app_data s)) (gps_GetLastLongitude (app_data s)) encode header content len)
      | API_EVENT_ID_SMS_LIST_MESSAGE msg \<Rightarrow> Some (s, SmsListMessageCallback msg)
      | API_EVENT_ID_GPS_UART_RECEIVED data \<Rightarrow> gps_event env data s
      | API_EVENT_ID_UART_RECEIVED uart data \<Rightarrow>
          (if uart = UART1 then HandleUartCommand (se_cmd env) (cstr_of data) s else Some (s, []))
      | API_EVENT_ID_OTHER \<Rightarrow> Some (s, []))"

section \<open>Start-up\<close>

text \<open>
  The state of all components; \<open>sys_led\<close> is the static counter of \<open>LED_Blink\<close> and \<open>sys_resp\<close>
  the response buffer of the reporting task.
\<close>

record sys_state =
  sys_app :: app_state
  sys_led :: int
  sys_resp :: "char list"

definition tracker_zero :: GpsTrackerData_t where
  "tracker_zero = \<lparr>td_timestamp = 0, td_latitude = FFin 0, td_longitude = FFin 0, td_speed = FFin 0,
     td_bearing = FFin 0, td_altitude = FFin 0, td_accuracy = FFin 0\<rparr>"

text \<open>Static storage when the task starts; \<open>gps_boot\<close> has the queue that \<open>GPS_Init\<close> sets up once more.\<close>

definition app_boot :: app_state where
  "app_boot = \<lparr>app_cfg = boot_state, app_net = net_boot, app_gps = gps_boot, app_data = tracker_zero, uart_cmd_sorted_idx = []\<rparr>"

record init_env =
  ie_imei :: "bool \<times> cstr"
  ie_config :: fs_file
  ie_fsinfo :: "cstr \<Rightarrow> int \<times> API_FS_INFO"
  ie_sms_format :: bool
  ie_sms_param :: bool
  ie_sms_storage :: bool

definition app_MainTask_init :: "init_env \<Rightarrow> (sys_state \<times> effect list) option" where
  "app_MainTask_init env =
     (let (n, o1) = NetworkInit (app_net app_boot) in
      map_option (\<lambda>(c, o2).
          let (st, g) = gps_Init (systemStatus n) (app_gps app_boot) in
          (\<lparr>sys_app = app_boot\<lparr>app_cfg := c, app_net := n\<lparr>systemStatus := st\<rparr>, app_gps := g\<rparr>, sys_led = 0,
             sys_resp = replicate 1024 NUL\<rparr>,
           [Sdk ''PM_PowerEnable'' [], Sdk ''UART_Init'' [UART1]] @ UART_Printf (''Initialization ...'' @ CRLF) [] @
           o1 @ LED_init @ [Sdk ''TIME_SetIsAutoUpdateRtcTime'' [1]] @ o2 @ FsInfoTest (ie_fsinfo env) @
           SmsInit (ie_sms_format env) (ie_sms_param env) (ie_sms_storage env) @ [Sdk ''OS_CreateTask'' []]))
        (ConfigStore_Init (ie_imei env) (ie_config env) (app_cfg app_boot)))"

section \<open>The system as a transition relation\<close>

text \<open>
  One step and its effects. The SDK reports as many cells as it says, and a UART event carries
  at most 65535 bytes. The set-up of the receiver is one step: what the receiver sends while the
  task waits for an acknowledgement goes to the driver within that step.
\<close>

fun event_ok :: "API_Event_t \<Rightarrow> bool" where
  "event_ok (API_EVENT_ID_NETWORK_CELL_INFO loc number) \<longleftrightarrow> cells_seen number \<le> length loc"
| "event_ok (API_EVENT_ID_GPS_UART_RECEIVED data) \<longleftrightarrow> length data \<le> 65535"
| "event_ok _ \<longleftrightarrow> True"

definition chunks_ok :: "char list list \<Rightarrow> bool" where
  "chunks_ok rx \<longleftrightarrow> (\<forall>c \<in> set rx. length c \<le> 65535)"

inductive sys_step :: "sys_state \<Rightarrow> effect list \<Rightarrow> sys_state \<Rightarrow> bool" where
  event: "event_ok ev \<Longrightarrow> EventHandler env ev (sys_app s) = Some (a, out) \<Longrightarrow> sys_step s out (s\<lparr>sys_app := a\<rparr>)"
| status: "NetworkUpdateStatus env (g_ConfigStore (app_cfg (sys_app s))) st (app_net (sys_app s)) = (n, out) \<Longrightarrow>
    sys_step s out (s\<lparr>sys_app := (sys_app s)\<lparr>app_net := n\<rparr>\<rparr>)"
| monitor: "NetworkMonitor env (g_ConfigStore (app_cfg (sys_app s))) param (app_net (sys_app s)) = (n, out) \<Longrightarrow>
    sys_step s out (s\<lparr>sys_app := (sys_app s)\<lparr>app_net := n\<rparr>\<rparr>)"
| led: "LED_Blink param (systemStatus (app_net (sys_app s))) (gps_isValid (Gps_GetInfo (gps_parse (app_gps (sys_app s)))))
      (sys_led s) = (c, out) \<Longrightarrow> sys_step s out (s\<lparr>sys_led := c\<rparr>)"
| tracker: "tracker_turn env (g_ConfigStore (app_cfg (sys_app s))) (app_net (sys_app s))
      (Gps_GetInfo (gps_parse (app_gps (sys_app s)))) (app_data (sys_app s)) (sys_resp s) = (n, resp, out) \<Longrightarrow>
    sys_step s out (s\<lparr>sys_app := (sys_app s)\<lparr>app_net := n\<rparr>, sys_resp := resp\<rparr>)"
| receiver: "\<forall>i < 6. chunks_ok (rx i) \<Longrightarrow>
    tracker_start (gps_env_of env (sys_app s)) rx rtc statuses (app_gps (sys_app s)) = Some (g, out) \<Longrightarrow>
    sys_step s out (s\<lparr>sys_app := (sys_app s)\<lparr>app_gps := g\<rparr>\<rparr>)"

inductive sys_run :: "sys_state \<Rightarrow> effect list \<Rightarrow> sys_state \<Rightarrow> bool" where
  nothing: "sys_run s [] s"
| further: "sys_run s out t \<Longrightarrow> sys_step t out' u \<Longrightarrow> sys_run s (out @ out') u"

section \<open>The driver keeps its buffers well formed\<close>

definition driver_ok :: "gps_state \<Rightarrow> bool" where
  "driver_ok g \<longleftrightarrow> buffer_wf (gpsNmeaBuffer g) \<and> parse_wf (gps_parse g)"

lemma driver_ok_upd [simp]:
  "driver_ok (g\<lparr>semCmdSending := x\<rparr>) = driver_ok g" "driver_ok (g\<lparr>gpsAckMsg := m\<rparr>) = driver_ok g"
  "driver_ok (g\<lparr>isCmdSendTimeOut := b\<rparr>) = driver_ok g"
  by (simp_all add: driver_ok_def)

lemma Gets_keeps:
  assumes "buffer_wf b" "Buffer_Gets b k = (ok, d, b')" shows "buffer_wf b'"
proof -
  have k: "Buffer_Gets b k = ring_get b (unat k)" by simp
  have l: "unat k \<le> 65535" using unsigned_less [where 'a = nat, of k] by simp
  show ?thesis
  proof (cases "unat k \<le> length (contents b)")
    case True
    then show ?thesis using Buffer_Gets_ok [OF assms(1) l True] assms(2) unfolding k by auto
  next
    case False
    then have "Buffer_Gets b k = (False, [], b)" unfolding k
      using Buffer_Gets_guard [OF l, of b] by (auto simp: Buffer_Gets_def)
    then show ?thesis using assms by simp
  qed
qed

lemma GPS_Parse_keeps: "parse_wf p \<Longrightarrow> parse_wf (snd (GPS_Parse t p))"
  using parse_frames_wf [of p False t] by (cases "parse_frames False t p") (simp add: GPS_Parse_def parse_wf_def)

lemma activations_SaveToTFCard [simp]: "activations (snd (SaveToTFCard env t)) = []"
  by (simp add: SaveToTFCard_def)

lemma update_loop_keeps:
  assumes "update_loop env st out = Some r"
  shows "driver_ok st \<longrightarrow> driver_ok (fst r) \<and> activations (snd r) = activations out"
proof (rule update_loop.raw_induct [OF _ assms], goal_cases)
  case (1 upd env st out r)
  show ?case
  proof
    assume ok: "driver_ok st"
    show "driver_ok (fst r) \<and> activations (snd r) = activations out"
    proof -
      let ?b = "gpsNmeaBuffer st"
      have d: "driver_ok (st\<lparr>gpsNmeaBuffer := b', gps_parse := snd (GPS_Parse t (gps_parse st))\<rparr>)"
        if "Buffer_Gets ?b k = (got, d, b')" for b' t k d got
        using ok GPS_Parse_keeps [of "gps_parse st" t] Gets_keeps [OF _ that] by (simp add: driver_ok_def)
      show ?thesis using 1(2) ok d 1(1)
        by (auto simp: Let_def split: if_splits prod.splits)
    qed
  qed
qed

lemma take_message_keeps:
  assumes "driver_ok st" "take_message env h i st = Some st'" shows "driver_ok st'"
proof -
  have "driver_ok (st\<lparr>gpsNmeaBuffer := b'\<rparr>)" if "Buffer_Gets (gpsNmeaBuffer st) k = (got, d, b')" for b' k d got
    using assms(1) Gets_keeps [OF _ that] by (simp add: driver_ok_def)
  then show ?thesis using assms by (auto simp: take_message_def Let_def split: prod.splits if_splits option.splits)
qed

lemma GPS_Update_keeps:
  assumes "driver_ok st" "length data \<le> 65535" "GPS_Update env data (of_nat (length data)) st = Some (st', out)"
  shows "driver_ok st' \<and> activations out = []"
proof -
  obtain ok b where p: "Buffer_Puts (gpsNmeaBuffer st) data (ucast (of_nat (length data) :: u32)) = (ok, b)" "buffer_wf b"
    using Puts_queued [of "gpsNmeaBuffer st" data] assms(1,2) by (auto simp: driver_ok_def)
  have d: "driver_ok (st\<lparr>gpsNmeaBuffer := b\<rparr>)" using assms(1) p(2) by (simp add: driver_ok_def)
  have c: "update_command env t = Some t' \<Longrightarrow> driver_ok t \<Longrightarrow> driver_ok t'" for t t'
    by (auto simp: update_command_def Let_def split: if_splits intro: take_message_keeps)
  show ?thesis
  proof (cases "semCmdSending st = None")
    case True
    then show ?thesis using assms(3) update_loop_keeps [of env "st\<lparr>gpsNmeaBuffer := b\<rparr>" "[]" "(st', out)"] d
      by (simp add: GPS_Update_def p)
  next
    case False
    then show ?thesis using assms(3) c d by (auto simp: GPS_Update_def p)
  qed
qed

text \<open>Outside a command the driver stays idle.\<close>

lemma update_loop_idle:
  assumes "update_loop env st out = Some r"
  shows "semCmdSending (fst r) = semCmdSending st"
proof (rule update_loop.raw_induct [OF _ assms], goal_cases)
  case (1 upd env st out r)
  show ?case using 1(2) by (auto simp: Let_def dest!: 1(1) split: if_splits prod.splits)
qed

lemma GPS_Update_idle:
  "semCmdSending st = None \<Longrightarrow> GPS_Update env data n st = Some (st', out) \<Longrightarrow> semCmdSending st' = None"
  by (auto simp: GPS_Update_def dest!: update_loop_idle split: prod.splits)

text \<open>The commands to the receiver.\<close>

lemma wait_keeps:
  "driver_ok st \<Longrightarrow> chunks_ok rx \<Longrightarrow> wait_semaphore env rx st = Some (st', out) \<Longrightarrow> driver_ok st' \<and> activations out = []"
proof (induction rx arbitrary: st out)
  case Nil
  then show ?case by (auto simp: OnCmdAckFail_def split: if_splits)
next
  case (Cons d rx)
  have "length d \<le> 65535" "chunks_ok rx" using Cons.prems(2) by (simp_all add: chunks_ok_def)
  then show ?case using Cons.prems(1,3) Cons.IH GPS_Update_keeps [OF Cons.prems(1), of d env]
    by (fastforce split: if_splits option.splits)
qed

lemma CMDSend_keeps:
  assumes "driver_ok st" "GPS_CMDSend str f st = (msg, st', out)" shows "driver_ok st' \<and> activations out = []"
  using assms wf_Buffer_Clear [of "gpsNmeaBuffer st"]
  by (auto simp: GPS_CMDSend_def GPS_Send_def driver_ok_def Let_def split: GPS_Format_t.splits)

lemma WaitAck_keeps:
  assumes "driver_ok st" "chunks_ok rx" "GPS_SendCMDWaitAck env rx str f t st = Some (a, b, c, st', out)"
  shows "driver_ok st' \<and> semCmdSending st' = None \<and> activations out = []"
proof -
  let ?st = "st\<lparr>isCmdSendTimeOut := False, semCmdSending := Some 0\<rparr>"
  obtain msg st2 e1 where s: "GPS_CMDSend str f ?st = (msg, st2, e1)" by (metis prod_cases3)
  have k: "driver_ok st2" "activations e1 = []" using CMDSend_keeps [OF _ s] assms(1) by simp_all
  show ?thesis using assms(3) k wait_keeps [OF k(1) assms(2)]
    by (auto simp: GPS_SendCMDWaitAck_def s Let_def split: option.splits prod.splits if_splits)
qed

lemma NormalAck_keeps:
  assumes "driver_ok st" "chunks_ok rx" "GPS_SendWaiteNormalAck env rx k str f t st = Some (ok, st', out)"
  shows "driver_ok st' \<and> semCmdSending st' = None \<and> activations out = []"
  using assms(3) WaitAck_keeps [OF assms(1,2)]
  by (auto simp: GPS_SendWaiteNormalAck_def Let_def split: if_splits)

lemma GetVersion_keeps:
  assumes "driver_ok st" "chunks_ok rx" "GPS_GetVersion env rx n st = Some (v, st', out)"
  shows "driver_ok st' \<and> semCmdSending st' = None \<and> activations out = []"
  using assms(3) WaitAck_keeps [OF assms(1,2)]
  by (auto simp: GPS_GetVersion_def Let_def split: option.splits if_splits)

lemmas setting_defs = GPS_SetRtcTime_def GPS_SetSearchMode_def GPS_SetFixMode_def GPS_SetLpMode_def
  GPS_SetOutputInterval_def send_nmea_def

lemma settings_keep:
  assumes "driver_ok st" "chunks_ok rx"
  shows "GPS_SetRtcTime env rx t st = Some (ok, st', out) \<Longrightarrow> driver_ok st' \<and> semCmdSending st' = None \<and> activations out = []"
    "GPS_SetSearchMode env rx b1 b2 b3 b4 st = Some (ok, st', out) \<Longrightarrow> driver_ok st' \<and> semCmdSending st' = None \<and> activations out = []"
    "GPS_SetFixMode env rx fm st = Some (ok, st', out) \<Longrightarrow> driver_ok st' \<and> semCmdSending st' = None \<and> activations out = []"
    "GPS_SetLpMode env rx lp st = Some (ok, st', out) \<Longrightarrow> driver_ok st' \<and> semCmdSending st' = None \<and> activations out = []"
    "GPS_SetOutputInterval env rx w st = Some (ok, st', out) \<Longrightarrow> driver_ok st' \<and> semCmdSending st' = None \<and> activations out = []"
  unfolding setting_defs using NormalAck_keeps [OF assms] by blast+

lemma tracker_setup_keeps:
  assumes "driver_ok st" "\<forall>i < 6. chunks_ok (rx i)" "tracker_setup env rx rtc st = Some (st', out)"
  shows "driver_ok st' \<and> semCmdSending st' = None \<and> activations out = []"
proof -
  obtain ok1 st1 e1 where 1: "GPS_SetRtcTime env (rx 0) rtc st = Some (ok1, st1, e1)"
    using assms(3) by (auto simp: tracker_setup_def bind_eq_Some_conv)
  obtain v st2 e2 where 2: "GPS_GetVersion env (rx (Suc 0)) 255 st1 = Some (v, st2, e2)"
    using assms(3) by (auto simp: tracker_setup_def bind_eq_Some_conv 1)
  obtain ok3 st3 e3 where 3: "GPS_SetSearchMode env (rx 2) True False True True st2 = Some (ok3, st3, e3)"
    using assms(3) by (auto simp: tracker_setup_def bind_eq_Some_conv 1 2)
  obtain ok4 st4 e4 where 4: "GPS_SetFixMode env (rx 3) GPS_FIX_MODE_NORMAL st3 = Some (ok4, st4, e4)"
    using assms(3) by (auto simp: tracker_setup_def bind_eq_Some_conv 1 2 3)
  obtain ok5 st5 e5 where 5: "GPS_SetLpMode env (rx 4) GPS_LP_MODE_NORMAL st4 = Some (ok5, st5, e5)"
    using assms(3) by (auto simp: tracker_setup_def bind_eq_Some_conv 1 2 3 4)
  obtain ok6 e6 where 6: "GPS_SetOutputInterval env (rx 5) 1000 st5 = Some (ok6, st', e6)"
    using assms(3) by (auto simp: tracker_setup_def bind_eq_Some_conv 1 2 3 4 5)
  have rx: "chunks_ok (rx 0)" "chunks_ok (rx (Suc 0))" "chunks_ok (rx 2)" "chunks_ok (rx 3)" "chunks_ok (rx 4)" "chunks_ok (rx 5)"
    using assms(2) by simp_all
  note k1 = settings_keep(1) [OF assms(1) rx(1) 1]
  note k2 = GetVersion_keeps [OF conjunct1 [OF k1] rx(2) 2]
  note k3 = settings_keep(2) [OF conjunct1 [OF k2] rx(3) 3]
  note k4 = settings_keep(3) [OF conjunct1 [OF k3] rx(4) 4]
  note k5 = settings_keep(4) [OF conjunct1 [OF k4] rx(5) 5]
  note k6 = settings_keep(5) [OF conjunct1 [OF k5] rx(6) 6]
  have "activations (command_or_log ok m) = []" for ok m by (simp add: command_or_log_def)
  then show ?thesis using assms(3) k1 k2 k3 k4 k5 k6
    by (auto simp: tracker_setup_def 1 2 3 4 5 6 split: option.splits)
qed

lemma activations_wait: "wait_status ready ss = Some (rest, out) \<Longrightarrow> activations out = []"
  by (induction ready ss arbitrary: rest out rule: wait_status.induct) (auto split: if_splits)

lemma tracker_start_keeps:
  assumes "driver_ok st" "\<forall>i < 6. chunks_ok (rx i)" "tracker_start env rx rtc ss st = Some (st', out)"
  shows "driver_ok st' \<and> semCmdSending st' = None \<and> activations out = []"
  using assms(3) tracker_setup_keeps [OF assms(1,2)]
  by (auto simp: tracker_start_def bind_eq_Some_conv activations_wait)

section \<open>Only the network component starts activations\<close>

lemma activations_concat [simp]: "activations (concat xss) = concat (map activations xss)"
  by (induction xss) simp_all

lemma activations_Save [simp]: "activations (snd (ConfigStore_Save n fd w c)) = []"
  by (auto simp: ConfigStore_Save_def save_entry_def Let_def split: option.splits)

lemma activations_location [simp]: "activations (gps_PrintLocation w LOGGER_OUTPUT_UART gi d) = []"
  by (simp add: gps_PrintLocation_def print_location_def Let_def)

lemma activations_tail [simp]: "activations (tail_loop f pos n) = []"
proof (induction f pos n rule: tail_loop.induct)
  case (1 f pos n)
  then show ?case by (subst tail_loop.simps) (simp add: Let_def)
qed

lemma activations_ls_entry: "ls_entry env base e = Some out \<Longrightarrow> activations out = []"
proof -
  have "case_option True (\<lambda>out. activations out = []) (ls_entry env base e)"
    by (simp add: ls_entry_def Let_def)
  then show "ls_entry env base e = Some out \<Longrightarrow> activations out = []" by simp
qed

lemma activations_ls: "ls_loop env base es = Some out \<Longrightarrow> activations out = []"
  by (induction es arbitrary: out) (auto simp: activations_ls_entry bind_eq_Some_conv)

lemma activations_set [simp]: "activations (snd (HandleSetCommand env p st)) = []"
  by (simp add: HandleSetCommand_def Let_def case_prod_beta split: option.split)

lemma activations_handlers [simp]:
  "activations HandleHelpCommand = []" "activations (HandleGetCommand p st) = []"
  "activations (HandleRemoveFileCommand env p) = []" "activations (HandleTailCommand env p) = []"
  "activations (HandleNetworkDeactivateCommand env) = []" "activations (HandleSmsCommand env p) = []"
  "activations (HandleSmsLsCommand env p) = []" "activations (HandleSmsRmCommand env p) = []"
  "activations HandleRestartCommand = []" "activations (HandleLocationCommand s) = []"
  "activations (NetworkPrintCellInfo n) = []" "activations (SmsListMessageCallback m) = []"
  by (auto simp: HandleHelpCommand_def HandleGetCommand_def HandleRemoveFileCommand_def HandleTailCommand_def
      HandleNetworkDeactivateCommand_def HandleSmsCommand_def HandleSmsLsCommand_def HandleSmsRmCommand_def
      HandleRestartCommand_def HandleLocationCommand_def NetworkPrintCellInfo_def SmsListMessageCallback_def Let_def
      split: option.splits prod.splits)

lemma activations_status [simp]: "activations (HandleNetworkStatusCommand env n) = []"
  by (simp add: HandleNetworkStatusCommand_def Let_def split: option.splits)

lemma activations_HandleLs: "HandleLsCommand env p = Some out \<Longrightarrow> activations out = []"
  by (auto simp: HandleLsCommand_def Let_def activations_ls split: option.splits)

lemma activations_SendLocation [simp]: "activations (SendLocationSms la lo p) = []"
  by (simp add: SendLocationSms_def Let_def split: option.splits)

lemma activations_sms: "SmsReceivedCallback la lo e h c n = Some out \<Longrightarrow> activations out = []"
  unfolding SmsReceivedCallback_def map_option_eq_Some
  by (elim exE conjE, hypsubst) (simp add: Let_def split: option.split sum.split)

lemma activations_send [simp]: "activations (snd (send_loop buf t rs)) = []"
proof (induction buf t rs rule: send_loop.induct)
  case (1 buf t rs)
  then show ?case by (subst send_loop.simps) (auto simp: Let_def split: prod.splits)
qed

lemma activations_recv [simp]: "activations (snd (snd (http_recv_loop n k buf es))) = []"
  by (induction n k buf es rule: http_recv_loop.induct) (auto simp: Let_def split: sel_event.splits)

lemma activations_http: "http_send_receive net h p b r n = (x, y, out) \<Longrightarrow> activations out = []"
proof -
  have "activations o1 = []" if "send_loop a b c = (ok, o1)" for a b c ok o1 using activations_send [of a b c] that by simp
  moreover have "activations o1 = []" if "http_recv_loop a b c d = (z, w, o1)" for a b c d z w o1
    using activations_recv [of a b c d] that by simp
  ultimately show "http_send_receive net h p b r n = (x, y, out) \<Longrightarrow> activations out = []"
    by (auto simp: http_send_receive_def close_fd_def Let_def split: if_splits option.splits prod.splits)
qed

lemma activations_ssl [simp]: "activations (ssl_close net e) = []" "activations (ssl_destroy net e) = []"
  by (simp_all add: ssl_close_def ssl_destroy_def)

lemma activations_https: "https_send_receive net h p b r n = (x, y, out) \<Longrightarrow> activations out = []"
  by (auto simp: https_send_receive_def Let_def split: if_splits sum.splits)

lemma activations_Post [simp]: "activations (snd (snd (Http_Post net sec h p path d n r m))) = []"
proof -
  have "activations (snd (snd (http_send_receive net h p b r m))) = []" for b
    by (rule activations_http [of net h p b r m]) (simp add: prod_eq_iff)
  moreover have "activations (snd (snd (https_send_receive net h p b r m))) = []" for b
    by (rule activations_https [of net h p b r m]) (simp add: prod_eq_iff)
  ultimately show ?thesis by (simp add: Http_Post_def Let_def case_prod_beta)
qed

lemma activations_report [simp]: "activations (snd (tracker_report env cfg n gi d resp)) = []"
  by (simp add: tracker_report_def print_location_def Let_def case_prod_beta)

lemma activations_turn: "tracker_turn env cfg n gi d resp = (n', resp', out) \<Longrightarrow> activations out = []"
  by (auto simp: tracker_turn_def Let_def case_prod_beta)

section \<open>The invariant of the system\<close>

definition app_ok :: "app_state \<Rightarrow> bool" where
  "app_ok a \<longleftrightarrow> net_wf (app_net a) \<and> state_wf (app_cfg a) \<and> driver_ok (app_gps a) \<and>
     semCmdSending (app_gps a) = None \<and> idx_ok a"

text \<open>What every step does: the invariant stays, and so does the alternation of the two APNs.\<close>

definition moves :: "app_state \<Rightarrow> app_state \<Rightarrow> effect list \<Rightarrow> bool" where
  "moves a a' out \<longleftrightarrow> app_ok a' \<and> flips (g_ConfigStore (app_cfg a)) (app_net a) (app_net a') out \<and>
     (IS_INITIALIZED (systemStatus (app_net a)) \<longrightarrow> IS_INITIALIZED (systemStatus (app_net a')))"

lemma idx_ok_upd [simp]:
  "idx_ok (a\<lparr>app_net := n\<rparr>) = idx_ok a" "idx_ok (a\<lparr>app_cfg := c\<rparr>) = idx_ok a" "idx_ok (idx_ready a)"
  "idx_ok (a\<lparr>app_gps := g\<rparr>) = idx_ok a" "idx_ok (a\<lparr>app_data := d\<rparr>) = idx_ok a"
  by (simp_all add: idx_ok_def)

lemma moves_quiet: "app_ok a \<Longrightarrow> activations out = [] \<Longrightarrow> moves a a out"
  by (simp add: moves_def flips_def)

lemma moves_net:
  assumes "app_ok a" "net_wf n" "flips (g_ConfigStore (app_cfg a)) (app_net a) n out"
    "IS_INITIALIZED (systemStatus (app_net a)) \<longrightarrow> IS_INITIALIZED (systemStatus n)"
  shows "moves a (a\<lparr>app_net := n\<rparr>) out"
  using assms by (simp add: moves_def app_ok_def)

lemma moves_flag:
  assumes "app_ok a" "activations out = []" "\<And>s. IS_INITIALIZED s \<Longrightarrow> IS_INITIALIZED (f s)"
  shows "moves a (upd_net (upd_status f) a) out"
  unfolding upd_net_def using assms by (intro moves_net) (auto simp: app_ok_def net_wf_def flips_def)

text \<open>Setting a parameter keeps the configuration well formed.\<close>

lemma set_keeps:
  assumes "state_wf st" "NUL \<notin> set p" shows "state_wf (fst (HandleSetCommand env p st))"
proof -
  have t: "NUL \<notin> set (trim p)" using assms(2) set_strip [of p] by (auto simp: trim_strip)
  have v: "NUL \<notin> set (tl suf)" if "strchr (trim p) (CHR '' '') = Some (pre, suf)" for pre suf
    using strchr_append [OF that] t by (cases suf) auto
  have k: "state_wf st'" if "getConfigMap (Some name) = Some e" "validator e (Some w) st = (ok, st')" "NUL \<notin> set w"
    for name e w ok st'
  proof -
    have "e \<in> set g_config_map" using that(1) find_entry_Some by (auto simp: getConfigMap_def)
    then show ?thesis using config_validator.keeps [OF validators_contract, of e st "Some w"] assms(1) that(2,3) by simp
  qed
  show ?thesis using assms(1) k v
    by (auto simp: HandleSetCommand_def Let_def split: prod.splits option.splits if_splits)
qed

lemma run_handler_moves:
  assumes "app_ok a" "NUL \<notin> set rest" "run_handler env h rest a = Some (a', out)"
  shows "moves a a' out"
proof (cases h)
  case H_Set
  obtain c o1 where c: "HandleSetCommand env rest (app_cfg a) = (c, o1)" by fastforce
  have "state_wf c" "activations o1 = []"
    using set_keeps [of "app_cfg a" rest env] activations_set [of env rest "app_cfg a"] assms(1,2) c by (simp_all add: app_ok_def)
  then show ?thesis using assms(1,3) H_Set by (auto simp: run_handler_def on_cfg_def c moves_def app_ok_def flips_def)
next
  case H_NetworkActivate
  obtain r n o1 where n: "NetworkAttachActivate (ce_net env) (g_ConfigStore (app_cfg a)) (app_net a) = (r, n, o1)"
    by (metis prod_cases3)
  have "keeps (g_ConfigStore (app_cfg a)) (app_net a) n o1" using attach_keeps(1) [OF _ n] assms(1) by (simp add: app_ok_def)
  then show ?thesis using assms(1,3) H_NetworkActivate
    by (auto simp: run_handler_def HandleNetworkActivateCommand_def n keeps_def flips_def intro!: moves_net)
next
  case H_Ls
  then show ?thesis using assms(1,3) by (auto simp: run_handler_def activations_HandleLs intro: moves_quiet)
qed (use assms(1,3) in \<open>auto simp: run_handler_def intro: moves_quiet\<close>)

lemma HandleUartCommand_moves:
  assumes "app_ok a" "NUL \<notin> set text" "HandleUartCommand env text a = Some (a', out)"
  shows "moves a a' out"
proof -
  have r: "app_ok (idx_ready a)" using assms(1) by (simp add: app_ok_def)
  have e: "moves (idx_ready a) a' out \<Longrightarrow> moves a a' out" by (simp add: moves_def)
  have n: "NUL \<notin> set (drop k (trim text))" for k
    using assms(2) set_strip [of "text"] by (auto simp: trim_strip dest: in_set_dropD)
  have i: "idx_ok a" using assms(1) by (simp add: app_ok_def)
  show ?thesis
  proof (cases "find_cmd InitUartCmdTableSortedIdx (trim text)")
    case None
    have "moves (idx_ready a) (idx_ready a) (prn msg [])" for msg using r by (intro moves_quiet) simp_all
    then show ?thesis using assms(3) e unfolding HandleUartCommand_eq [OF i] None option.case by blast
  next
    case (Some c)
    have "run_handler env (handler c) (drop (cmd_len c) (trim text)) (idx_ready a) = Some (a', out)"
      using assms(3) unfolding HandleUartCommand_eq [OF i] Some option.case by assumption
    from e [OF run_handler_moves [OF r n this]] show ?thesis .
  qed
qed

lemma gps_event_moves:
  assumes "app_ok a" "length data \<le> 65535" "gps_event env data a = Some (a', out)"
  shows "moves a a' out"
proof -
  let ?s = "upd_net (upd_status GPS_STATUS_ON) a"
  have s: "app_ok ?s" "app_gps ?s = app_gps a" "app_cfg ?s = app_cfg a"
    using moves_flag [OF assms(1), of "[]" GPS_STATUS_ON] by (simp_all add: moves_def upd_net_def)
  obtain g o1 d where g: "GPS_Update (gps_env_of env ?s) data (of_nat (length data)) (app_gps ?s) = Some (g, o1)"
    "a' = ?s\<lparr>app_gps := g, app_data := d\<rparr>" "activations out = activations o1"
    using assms(3) unfolding gps_event_def Let_def bind_eq_Some_conv map_option_eq_Some by (auto split: if_splits)
  have "driver_ok g \<and> activations o1 = []"
    by (rule GPS_Update_keeps [OF _ assms(2) g(1)]) (use assms(1) in \<open>simp add: s app_ok_def\<close>)
  moreover have "semCmdSending g = None"
    using GPS_Update_idle [OF _ g(1)] assms(1) by (simp add: s app_ok_def)
  ultimately show ?thesis using s(1) g(2,3) moves_flag [OF assms(1), of "[]" GPS_STATUS_ON]
    by (auto simp: moves_def app_ok_def flips_def)
qed

lemma cell_info_ok: "cells_ok s \<Longrightarrow> cells_seen k \<le> length loc \<Longrightarrow> cells_ok (NetworkCellInfoCallback loc k s)"
  using length_cell_text [of "loc ! 0"]
  by (auto simp: cell_callback cells_ok_def cells_seen_def unat_of_nat min_def)

lemma EventHandler_moves:
  assumes "app_ok a" "event_ok ev" "EventHandler env ev a = Some (a', out)"
  shows "moves a a' out"
proof (cases ev)
  case (API_EVENT_ID_SIGNAL_QUALITY q)
  obtain n o1 where n: "NetworkSigQualityCallback q (app_net a) = (n, o1)" by fastforce
  have "net_wf n \<and> activations o1 = [] \<and> apn_workaround_pending n = apn_workaround_pending (app_net a) \<and>
      systemStatus n = systemStatus (app_net a)"
    using n assms(1) by (auto simp: NetworkSigQualityCallback_def app_ok_def net_wf_def Let_def split: if_splits)
  then show ?thesis using assms(1,3) API_EVENT_ID_SIGNAL_QUALITY
    by (auto simp: EventHandler_def n flips_def intro!: moves_net)
next
  case (API_EVENT_ID_NETWORK_CELL_INFO loc k)
  have c: "cells_ok (app_net a)" "cells_seen k \<le> length loc"
    using assms(1,2) API_EVENT_ID_NETWORK_CELL_INFO by (simp_all add: app_ok_def net_wf_def)
  have "net_wf (NetworkCellInfoCallback loc k (app_net a))"
    using cell_info_ok [OF c] assms(1) cell_callback [OF c] by (simp add: net_wf_def app_ok_def contexts_ok_def)
  then show ?thesis using assms(1,3) API_EVENT_ID_NETWORK_CELL_INFO cell_callback [OF c]
    by (auto simp: EventHandler_def upd_net_def flips_def intro!: moves_net)
next
  case (API_EVENT_ID_SMS_RECEIVED e h c n)
  then show ?thesis using assms(1,3) by (auto simp: EventHandler_def activations_sms intro: moves_quiet)
next
  case (API_EVENT_ID_GPS_UART_RECEIVED data)
  then show ?thesis using assms gps_event_moves [of a data env a' out] by (simp add: EventHandler_def)
next
  case (API_EVENT_ID_UART_RECEIVED u data)
  have "NUL \<notin> set (cstr_of data)" by (rule cstr_of_no_NUL)
  then show ?thesis using assms(1,3) API_EVENT_ID_UART_RECEIVED
    by (auto simp: EventHandler_def intro: moves_quiet HandleUartCommand_moves split: if_splits)
qed (use assms(1,3) in \<open>auto simp: EventHandler_def LOGW_def intro!: moves_flag moves_quiet\<close>)

section \<open>The response buffer keeps its size\<close>

lemma http_length:
  assumes "0 < n" "n \<le> 65535" "length ret = nat n" "http_send_receive net h p msg ret n = (r, buf, out)"
  shows "length buf = length ret"
proof (cases "msg = []")
  case True
  then show ?thesis using assms(4) by (simp add: http_send_receive_def)
next
  case False
  then show ?thesis using http_plain [OF assms(4) False assms(1-3)] by blast
qed

lemma https_length:
  assumes "length ret = nat n" "https_send_receive net h p msg ret n = (r, buf, out)"
  shows "length buf = length ret"
  using assms by (auto simp: https_send_receive_def Let_def length_store_at split: if_splits sum.splits)

lemma Post_length:
  assumes "0 < n" "n \<le> 65535" "length ret = nat n"
  shows "length (fst (snd (Http_Post net sec h p path d k ret n))) = length ret"
proof -
  have "length (fst (snd (http_send_receive net h p m ret n))) = length ret" for m
    by (rule http_length [OF assms, of net h p m]) (simp add: prod_eq_iff)
  moreover have "length (fst (snd (https_send_receive net h p m ret n))) = length ret" for m
    by (rule https_length [OF assms(3), of net h p m]) (simp add: prod_eq_iff)
  ultimately show ?thesis by (simp add: Http_Post_def Let_def case_prod_beta)
qed

lemma report_length:
  assumes "length resp = 1024" shows "length (fst (tracker_report env cfg n gi d resp)) = 1024"
proof -
  define c where "c = (if length (Network_GetCellInfoString n) \<noteq> 0
    then snprintf 1024 ''&cell=%s'' [AStr (Network_GetCellInfoString n)] else [])"
  have "length c < 1024" by (auto simp: c_def snprintf_def length_snprintf_trunc)
  then have "length (store_at resp 0 (c @ [NUL])) = 1024" using assms by (simp add: length_store_at)
  then show ?thesis unfolding tracker_report_def Let_def c_def [symmetric]
    by (simp add: case_prod_beta Post_length)
qed

lemma turn_length:
  assumes "length resp = 1024" "tracker_turn env cfg n gi d resp = (n', resp', out)"
  shows "length resp' = 1024"
  using assms report_length [OF assms(1)]
  by (auto simp: tracker_turn_def Let_def case_prod_beta split: if_splits)

section \<open>Runs\<close>

definition sys_inv :: "sys_state \<Rightarrow> bool" where
  "sys_inv s \<longleftrightarrow> app_ok (sys_app s) \<and> count_ok (sys_led s) \<and> length (sys_resp s) = 1024"

lemma sys_step_moves:
  assumes "sys_inv s" "sys_step s out t"
  shows "sys_inv t \<and> moves (sys_app s) (sys_app t) out"
proof -
  have a: "app_ok (sys_app s)" "net_wf (app_net (sys_app s))" "driver_ok (app_gps (sys_app s))"
    using assms(1) by (simp_all add: sys_inv_def app_ok_def)
  have q: "activations e = [] \<Longrightarrow> moves (sys_app s) (sys_app s) e" for e using a(1) by (rule moves_quiet)
  have m: "app_ok b" if "moves (sys_app s) b out" for b using that by (simp add: moves_def)
  from assms(2) show ?thesis
  proof (cases rule: sys_step.cases)
    case (event ev env b)
    then show ?thesis using assms(1) EventHandler_moves [OF a(1)] m by (auto simp: sys_inv_def)
  next
    case (status env st n)
    have "moves (sys_app s) ((sys_app s)\<lparr>app_net := n\<rparr>) out"
      using update_keeps [OF a(2) status(2)] by (intro moves_net a(1)) (auto simp: keeps_def)
    then show ?thesis using status(1) assms(1) m by (auto simp: sys_inv_def)
  next
    case (monitor env param n)
    have "moves (sys_app s) ((sys_app s)\<lparr>app_net := n\<rparr>) out"
      using monitor_keeps [OF a(2) monitor(2)] by (intro moves_net a(1)) auto
    then show ?thesis using monitor(1) assms(1) m by (auto simp: sys_inv_def)
  next
    case (led param c)
    have "activations out = []"
      using led(2) by (auto simp: LED_Blink_def handle_led_blink_def LED_BlinkingTimer_def split: if_splits)
    moreover have "count_ok c"
      using count_ok_next [of "sys_led s" param] assms(1) led(2) by (metis fst_conv sys_inv_def)
    ultimately show ?thesis using led(1) assms(1) q by (simp add: sys_inv_def)
  next
    case (tracker env n resp)
    have n: "n = (app_net (sys_app s))\<lparr>g_trackerloop_tick := te_start env\<rparr>"
      using tracker(2) by (simp add: tracker_turn_def Let_def split: prod.splits)
    have "moves (sys_app s) ((sys_app s)\<lparr>app_net := n\<rparr>) out"
      using a(1,2) activations_turn [OF tracker(2)] by (intro moves_net) (auto simp: n flips_def net_wf_def contexts_ok_def)
    moreover have "length resp = 1024" using turn_length [OF _ tracker(2)] assms(1) by (simp add: sys_inv_def)
    ultimately show ?thesis using tracker(1) assms(1) m by (auto simp: sys_inv_def)
  next
    case (receiver rx env rtc statuses g)
    then show ?thesis using assms(1) tracker_start_keeps [OF a(3) receiver(2,3)]
      by (auto simp: sys_inv_def moves_def app_ok_def flips_def)
  qed
qed

text \<open>
  The access point that the activation after \<open>n\<close> others is to use: the configured one, cut to the
  size of its fields, if \<open>n\<close> is even, and the dummy one if it is odd.
\<close>

definition due_apn :: "nat \<Rightarrow> t_Config \<Rightarrow> cstr \<times> cstr \<times> cstr" where
  "due_apn n cfg = (if even n then real_apn cfg else dummy_apn)"

lemma sys_step_flips:
  assumes "sys_inv s" "sys_step s out t"
  shows "flips (g_ConfigStore (app_cfg (sys_app s))) (app_net (sys_app s)) (app_net (sys_app t)) out"
  using sys_step_moves [OF assms] by (simp add: moves_def)

lemma sys_step_due:
  assumes "sys_inv s" "sys_step s out t" "apn_workaround_pending (app_net (sys_app s)) = odd n"
  shows "activations out = [] \<or> activations out = [due_apn n (g_ConfigStore (app_cfg (sys_app s)))]"
    "apn_workaround_pending (app_net (sys_app t)) = odd (n + length (activations out))"
  using sys_step_flips [OF assms(1,2)] assms(3) by (auto simp: flips_def due_apn_def next_apn_def)

lemma sys_run_moves:
  assumes "sys_run s0 out s" "sys_inv s0" "\<not> apn_workaround_pending (app_net (sys_app s0))"
  shows "sys_inv s \<and> apn_workaround_pending (app_net (sys_app s)) = odd (length (activations out)) \<and>
    (IS_INITIALIZED (systemStatus (app_net (sys_app s0))) \<longrightarrow> IS_INITIALIZED (systemStatus (app_net (sys_app s))))"
  using assms
proof (induction rule: sys_run.induct)
  case (further s out t out' u)
  then have t: "sys_inv t" "apn_workaround_pending (app_net (sys_app t)) = odd (length (activations out))" by simp_all
  have m: "sys_inv u" "moves (sys_app t) (sys_app u) out'" using sys_step_moves [OF t(1) further.hyps(2)] by simp_all
  then have i: "IS_INITIALIZED (systemStatus (app_net (sys_app t))) \<longrightarrow> IS_INITIALIZED (systemStatus (app_net (sys_app u)))"
    by (simp add: moves_def)
  then show ?case using m(1) sys_step_due(2) [OF t(1) further.hyps(2) t(2)] further.IH further.prems by simp
qed simp

section \<open>The system from its start\<close>

definition init_ok :: "init_env \<Rightarrow> bool" where
  "init_ok env \<longleftrightarrow> reads_end (ie_config env) \<and>
     (0 < size_ret (ie_config env) \<longrightarrow> size_ret (ie_config env) = int (length (file_bytes (ie_config env)))) \<and>
     length (snd (ie_imei env)) < MAX_IMEI_LENGTH \<and> NUL \<notin> set (snd (ie_imei env)) \<and>
     (fst (ie_imei env) \<longrightarrow> snd (ie_imei env) \<noteq> [])"

lemma driver_ok_init: "driver_ok (GPS_Init gps_boot)" "semCmdSending (GPS_Init gps_boot) = None"
  using boot_buffer parse_init_fresh(1) by (simp_all add: driver_ok_def) (simp_all add: gps_boot_def GPS_Init_def)

lemma net_status_boot: "g_NetworkStatus net_boot = NETWORK_STATUS_OFFLINE"
  by (simp add: net_boot_def)

lemma init_returns:
  assumes "init_ok env"
  shows "\<exists>s out. app_MainTask_init env = Some (s, out) \<and> sys_inv s \<and>
    \<not> apn_workaround_pending (app_net (sys_app s)) \<and> g_NetworkStatus (app_net (sys_app s)) = NETWORK_STATUS_OFFLINE"
proof -
  have "\<exists>st eff. ConfigStore_Init (ie_imei env) (ie_config env) boot_state = Some (st, eff) \<and> state_wf st"
    using ConfigStore_Init_returns [of "ie_config env" "snd (ie_imei env)" "fst (ie_imei env)"] assms by (simp add: init_ok_def)
  then obtain c o2 where c: "ConfigStore_Init (ie_imei env) (ie_config env) boot_state = Some (c, o2)" "state_wf c" by blast
  have "net_wf ((fst (NetworkInit net_boot))\<lparr>systemStatus := b\<rparr>)" for b
    using net_wf_init by (simp add: net_wf_def)
  then show ?thesis using c driver_ok_init
    by (simp add: app_MainTask_init_def app_boot_def NetworkInit_def gps_Init_def sys_inv_def app_ok_def idx_ok_def count_ok_def net_status_boot)
qed

text \<open>
  C1. Start-up returns, whatever bytes the configuration file holds and wherever reading it fails,
  and from then on every sequence
  of events, status callbacks, timer ticks, turns of the reporting task and set-ups of the
  receiver keeps the state well formed: the configuration, the cell table, the contexts, the
  driver's queue, the sorted command index, the LED counter and the size of the response
  buffer. After any run, whatever comes next starts no activation or exactly one, and this one uses
  the access point that the configuration in force at that moment names when the number of
  activations so far is even, and the dummy one when it is odd, whatever mixture
  of the status callback, the monitor and the UART command started them; the flag of the
  workaround tells which is next.
\<close>

theorem sys_run_invariant:
  assumes "init_ok env"
  shows "\<exists>s0 out0. app_MainTask_init env = Some (s0, out0) \<and>
    (\<forall>out s. sys_run s0 out s \<longrightarrow> sys_inv s \<and>
       apn_workaround_pending (app_net (sys_app s)) = odd (length (activations out)) \<and>
       (\<forall>out' t. sys_step s out' t \<longrightarrow> activations out' = [] \<or>
          activations out' = [due_apn (length (activations out)) (g_ConfigStore (app_cfg (sys_app s)))]))"
proof -
  obtain s0 out0 where s0: "app_MainTask_init env = Some (s0, out0)" "sys_inv s0" "\<not> apn_workaround_pending (app_net (sys_app s0))"
    using init_returns [OF assms] by blast
  then show ?thesis using sys_run_moves [OF _ s0(2,3)] sys_step_due(1) by blast
qed

text \<open>
  The witness: the device starts without a configuration file and then registers; the callback
  starts the activation of the configured access point.
\<close>

definition init_example :: init_env where
  "init_example = \<lparr>ie_imei = (True, ''868''), ie_config = \<lparr>open_ret = - 1, size_ret = 0, file_bytes = [], read_ret = (\<lambda>_ _. 0)\<rparr>,
     ie_fsinfo = (\<lambda>_. (- 1, \<lparr>usedSize = 0, totalSize = 0\<rparr>)), ie_sms_format = True, ie_sms_param = True, ie_sms_storage = True\<rparr>"

lemma sys_run_invariant_witness:
  "\<exists>s0 out0 out s cfg. app_MainTask_init init_example = Some (s0, out0) \<and> sys_run s0 out s \<and> sys_inv s \<and>
    cfg = g_ConfigStore (app_cfg (sys_app s0)) \<and> activations out = [real_apn cfg] \<and> apn_workaround_pending (app_net (sys_app s))"
proof -
  have ok: "init_ok init_example" by (simp add: init_ok_def init_example_def reads_end_def)
  obtain s0 out0 where s0: "app_MainTask_init init_example = Some (s0, out0)"
    and r: "\<forall>out s. sys_run s0 out s \<longrightarrow> sys_inv s \<and>
       apn_workaround_pending (app_net (sys_app s)) = odd (length (activations out)) \<and>
       (\<forall>out' t. sys_step s out' t \<longrightarrow> activations out' = [] \<or>
          activations out' = [due_apn (length (activations out)) (g_ConfigStore (app_cfg (sys_app s)))])"
    using sys_run_invariant [OF ok] by blast
  let ?n = "upd_status GSM_REGISTERED_ON (app_net (sys_app s0))" and ?cfg = "g_ConfigStore (app_cfg (sys_app s0))"
  have i: "sys_inv s0" "g_NetworkStatus (app_net (sys_app s0)) = NETWORK_STATUS_OFFLINE"
    using init_returns [OF ok] s0 by auto
  have c: "contexts_ok ?n" using i(1) by (simp add: sys_inv_def app_ok_def net_wf_def)
  have m: "may_activate env_idle ?n" using i(2) by (simp add: may_activate_def env_idle_def upd_status_def)
  obtain n out1 where a: "NetworkAttachActivate env_idle ?cfg ?n = (True, n, out1)" "activations out1 = [next_apn ?cfg ?n]"
    using attach_activates [OF c m, of ?cfg] by (metis env_idle_def net_env.select_convs(4))
  let ?o = "LOGW Network.TAG ''state: network registered successfully'' [] # out1"
  let ?s = "s0\<lparr>sys_app := (sys_app s0)\<lparr>app_net := n\<lparr>g_NetworkStatus := NETWORK_STATUS_REGISTERED\<rparr>\<rparr>\<rparr>"
  have step: "sys_step s0 ?o ?s"
    by (rule sys_step.status [of env_idle s0 NETWORK_STATUS_REGISTERED]) (simp add: NetworkUpdateStatus.simps a)
  then have run: "sys_run s0 ?o ?s" using sys_run.further [OF sys_run.nothing] by fastforce
  have "activations ?o = [real_apn ?cfg]"
    using r [rule_format, OF sys_run.nothing] step by (auto simp: a(2) due_apn_def)
  moreover have "sys_inv ?s" "apn_workaround_pending (app_net (sys_app ?s)) = odd (length (activations ?o))"
    using r [rule_format, OF run] by blast+
  ultimately show ?thesis using s0 run
    by (intro exI [of _ s0] exI [of _ out0] exI [of _ ?o] exI [of _ ?s] exI [of _ ?cfg]) simp
qed

section \<open>The answer to a location request without a fix\<close>

text \<open>
  Before the first fix the coordinates have scale 0, and \<open>minmea_tocoord\<close> gives a NaN for them.
  A NaN is not equal to zero, so the test for a missing position does not see it: the answer is
  a link to \<open>nan,nan\<close>, and ``Location not available'' is sent only while no sentence was
  processed at all.
\<close>

lemma no_fix_link:
  assumes "fl_scale (rmc_latitude (gi_rmc gi)) = 0" "fl_scale (rmc_longitude (gi_rmc gi)) = 0" "gps_Process cfg now gi = Some d"
  shows "GetGoogleMapsLink SMS_BODY_MAX_LEN (gps_GetLastLatitude d) (gps_GetLastLongitude d) =
    Some ''https://maps.google.com/?q=nan,nan''"
proof -
  have "td_latitude d = FNaN" "td_longitude d = FNaN"
    using assms by (auto simp: gps_Process_def minmea_tocoord_def Let_def bind_eq_Some_conv split: if_splits)
  moreover have "GetGoogleMapsLink SMS_BODY_MAX_LEN FNaN FNaN = Some ''https://maps.google.com/?q=nan,nan''"
    by code_simp
  ultimately show ?thesis by (simp add: gps_GetLastLatitude_def gps_GetLastLongitude_def)
qed

lemma no_fix_initially:
  "GetGoogleMapsLink SMS_BODY_MAX_LEN (gps_GetLastLatitude tracker_zero) (gps_GetLastLongitude tracker_zero) = None"
  by (simp add: GetGoogleMapsLink_def gps_GetLastLatitude_def gps_GetLastLongitude_def tracker_zero_def)

end
