(* ===== verification/Event_Returns.thy ===== *)
theory Event_Returns
  imports System_Events
begin

text \<open>
  When the event handler of \<open>app/src/system.c\<close> returns. The event task is the only one that
  handles events, so a handler that does not come back stops the device. Each operation the
  handler calls is shown to return, with three exceptions that are characterised exactly.
\<close>

section \<open>Operations that always return\<close>

text \<open>The conversion of a position divides by zero.\<close>

definition position_undefined :: "GPS_Info_t \<Rightarrow> bool" where
  "position_undefined gi \<longleftrightarrow>
     minmea_tocoord (rmc_latitude (gi_rmc gi)) = None \<or> minmea_tocoord (rmc_longitude (gi_rmc gi)) = None"

lemma gps_Process_returns: "gps_Process cfg now gi = None \<longleftrightarrow> position_undefined gi"
proof -
  obtain t where "mk_time (rmc_date (gi_rmc gi)) (rmc_time (gi_rmc gi)) = Some t" using mk_time_total by blast
  then show ?thesis
    by (cases "minmea_tocoord (rmc_latitude (gi_rmc gi))"; cases "minmea_tocoord (rmc_longitude (gi_rmc gi))")
      (simp_all add: gps_Process_def position_undefined_def Let_def)
qed

fun sms_ok :: "API_Event_t \<Rightarrow> bool" where
  "sms_ok (API_EVENT_ID_SMS_RECEIVED encode header content len) \<longleftrightarrow> length content = unat len \<and> unat len < 65535"
| "sms_ok _ \<longleftrightarrow> True"

lemma sms_returns:
  assumes "length content = unat len" "unat len < 65535"
  shows "SmsReceivedCallback la lo encode header content len \<noteq> None"
proof (cases "encode \<in> {SMS_ENCODE_TYPE_ASCII, SMS_ENCODE_TYPE_UNICODE}")
  case True
  then show ?thesis using decode_content_correct [OF True assms] by (simp add: SmsReceivedCallback_def)
next
  case False
  then show ?thesis by (simp add: SmsReceivedCallback_def decode_content_def)
qed

section \<open>Received positions\<close>

text \<open>The receiving loop returns exactly when the specification \<open>frames\<close> has a result.\<close>

lemma update_loop_None:
  assumes "buffer_wf (gpsNmeaBuffer st)" "frames (contents (gpsNmeaBuffer st)) = None"
  shows "update_loop env st out = None"
  using assms
proof (induction "contents (gpsNmeaBuffer st)" arbitrary: st out rule: frames.induct)
  case 1
  let ?b = "gpsNmeaBuffer st" and ?c = "contents (gpsNmeaBuffer st)"
  obtain p u where s: "strstr ?c ''VTG'' = Some (p, u)" using 1(3) by (cases "strstr ?c ''VTG''") (auto simp: frames.simps [of ?c])
  show ?case
  proof (cases "strstr u CRLF")
    case None
    then have "unfinished ?c" using s by (auto simp: unfinished_def)
    then show ?thesis using update_loop_stuck [of env st out] 1(2) by (cases "update_loop env st out") auto
  next
    case (Some w)
    obtain q z where w: "w = (q, z)" by (cases w)
    define n where "n = frame_len (length p + length q + 2)"
    have f: "frames (drop n ?c) = None" using 1(3) s Some w by (simp add: frames.simps [of ?c] n_def Let_def)
    obtain b' where b': "buffer_wf b'" "contents b' = drop n ?c"
      "update_loop env st out = update_loop env
        (st\<lparr>gpsNmeaBuffer := b', gps_parse := parse_frame (take n ?c) (gps_parse st)\<rparr>) (out @ log_frame env (take n ?c))"
      using update_loop_step [OF 1(2) s Some [unfolded w] n_def refl] by blast
    show ?thesis unfolding b'(3)
      by (rule 1(1) [OF s refl Some w [symmetric] n_def]) (use b' f in simp_all)
  qed
qed

lemma GPS_Update_returns:
  assumes "driver_ok st" "semCmdSending st = None" "length data \<le> 65535"
  shows "GPS_Update env data (of_nat (length data)) st = None \<longleftrightarrow> frames (queued (gpsNmeaBuffer st) data) = None"
proof -
  obtain ok b where b: "Buffer_Puts (gpsNmeaBuffer st) data (ucast (of_nat (length data) :: u32)) = (ok, b)"
    "buffer_wf b" "contents b = queued (gpsNmeaBuffer st) data"
    using Puts_queued [of "gpsNmeaBuffer st" data] assms(1,3) by (auto simp: driver_ok_def)
  have "update_loop env (st\<lparr>gpsNmeaBuffer := b\<rparr>) [] = None \<longleftrightarrow> frames (contents b) = None"
    using update_loop_None [of "st\<lparr>gpsNmeaBuffer := b\<rparr>" env "[]"] update_loop_frames [of "st\<lparr>gpsNmeaBuffer := b\<rparr>" _ _ env "[]"] b(2)
    by (cases "frames (contents b)") (auto, fastforce?)
  then show ?thesis using assms(2) by (simp add: GPS_Update_def b)
qed

text \<open>What position data does to the event task.\<close>

definition data_stops :: "gps_state \<Rightarrow> char list \<Rightarrow> bool" where
  "data_stops g data \<longleftrightarrow> (case frames (queued (gpsNmeaBuffer g) data) of
     None \<Rightarrow> True
   | Some (fs, _) \<Rightarrow> position_undefined (Gps_GetInfo (fold parse_frame fs (gps_parse g))))"

lemma gps_event_returns:
  assumes "app_ok a" "length data \<le> 65535"
  shows "gps_event env data a = None \<longleftrightarrow> data_stops (app_gps a) data"
proof -
  let ?s = "upd_net (upd_status GPS_STATUS_ON) a"
  have s: "app_gps ?s = app_gps a" by (simp add: upd_net_def)
  have g: "driver_ok (app_gps a)" "semCmdSending (app_gps a) = None" "buffer_wf (gpsNmeaBuffer (app_gps a))"
    using assms(1) by (simp_all add: app_ok_def driver_ok_def)
  show ?thesis
  proof (cases "frames (queued (gpsNmeaBuffer (app_gps a)) data)")
    case None
    then show ?thesis using GPS_Update_returns [OF g(1,2) assms(2), of "gps_env_of env ?s"]
      by (simp add: gps_event_def Let_def s data_stops_def)
  next
    case (Some p)
    obtain fs r where p: "p = (fs, r)" by (cases p)
    obtain b' out where "GPS_Update (gps_env_of env ?s) data (of_nat (length data)) (app_gps a) =
        Some ((app_gps a)\<lparr>gpsNmeaBuffer := b', gps_parse := fold parse_frame fs (gps_parse (app_gps a))\<rparr>, out)"
      using GPS_Update_frames_state [OF g(3,2) assms(2) Some [unfolded p], of "gps_env_of env ?s"] by blast
    then show ?thesis using gps_Process_returns Some p
      by (simp add: gps_event_def Let_def s data_stops_def)
  qed
qed

section \<open>Commands\<close>

lemma find_cmd_longest: "find_cmd InitUartCmdTableSortedIdx text = Some e \<longleftrightarrow> longest_match text e"
proof
  assume f: "find_cmd InitUartCmdTableSortedIdx text = Some e"
  have "\<forall>e' \<in> (\<lambda>i. uart_cmd_table ! i) ` set InitUartCmdTableSortedIdx. cmd_matches text e' \<longrightarrow> cmd_len e' \<le> cmd_len e"
    using find_cmd_Some [OF f sorted_idx(2)] by blast
  then show "longest_match text e" using find_cmd_Some [OF f sorted_idx(2)] unfolding set_idx by (simp add: longest_match_def)
qed (rule find_longest)

text \<open>\<open>ls\<close> on a directory with a file whose path does not fit its buffer.\<close>

definition ls_overflows :: "cmd_env \<Rightarrow> cstr \<Rightarrow> bool" where
  "ls_overflows env path \<longleftrightarrow>
     (let dir = (if trim path = [] then ''/'' else trim path)
      in case ce_dir env dir of None \<Rightarrow> False
         | Some entries \<Rightarrow> \<exists>e \<in> set entries. d_type e = 8 \<and> 256 \<le> length (ls_base dir) + length (d_name e))"

lemma HandleLs_returns: "HandleLsCommand env path = None \<longleftrightarrow> ls_overflows env path"
  unfolding ls_overflows_def Let_def HandleLsCommand_overflow by (auto split: option.splits)

definition ls_stops :: "cmd_env \<Rightarrow> cstr \<Rightarrow> bool" where
  "ls_stops env text \<longleftrightarrow> (\<exists>e. longest_match text e \<and> handler e = H_Ls \<and> ls_overflows env (drop (cmd_len e) text))"

lemma HandleUart_returns:
  assumes "idx_ok a"
  shows "HandleUartCommand env text a = None \<longleftrightarrow> ls_stops env (trim text)"
proof (cases "find_cmd InitUartCmdTableSortedIdx (trim text)")
  case None
  then have "\<not> longest_match (trim text) e" for e unfolding find_cmd_longest [symmetric] by simp
  then show ?thesis unfolding HandleUartCommand_eq [OF assms] None by (simp add: ls_stops_def)
next
  case (Some e)
  have "longest_match (trim text) e' \<longleftrightarrow> e' = e" for e' unfolding find_cmd_longest [symmetric] Some by auto
  then have r: "ls_stops env (trim text) \<longleftrightarrow> handler e = H_Ls \<and> ls_overflows env (drop (cmd_len e) (trim text))"
    by (auto simp: ls_stops_def)
  show ?thesis unfolding HandleUartCommand_eq [OF assms] Some option.case r
    by (cases "handler e") (simp_all add: run_handler_def HandleLs_returns case_prod_beta)
qed

section \<open>The handler\<close>

text \<open>The events that stop the event task in a state.\<close>

fun stuck :: "cmd_env \<Rightarrow> API_Event_t \<Rightarrow> app_state \<Rightarrow> bool" where
  "stuck env (API_EVENT_ID_GPS_UART_RECEIVED data) a \<longleftrightarrow> data_stops (app_gps a) data"
| "stuck env (API_EVENT_ID_UART_RECEIVED uart data) a \<longleftrightarrow> uart = UART1 \<and> ls_stops env (trim (cstr_of data))"
| "stuck env _ a \<longleftrightarrow> False"

text \<open>
  C2. In every state the system can reach the event handler returns, for every event and
  every answer of the SDK, with exactly three exceptions: position data that leaves a VTG
  sentence in the queue whose line end has not arrived, on which the receiving loop spins;
  position data after which the scale of a coordinate, which wraps, makes the conversion to
  degrees divide by zero; and the command \<open>ls\<close> on a directory with a file whose path needs 256 bytes or more, which
  writes outside the path buffer.
\<close>

theorem EventHandler_returns:
  assumes "app_ok a" "event_ok ev" "sms_ok ev"
  shows "EventHandler env ev a = None \<longleftrightarrow> stuck (se_cmd env) ev a"
proof (cases ev)
  case (API_EVENT_ID_SMS_RECEIVED e h c n)
  then show ?thesis using assms(3) sms_returns [of c n] by (simp add: EventHandler_def)
next
  case (API_EVENT_ID_GPS_UART_RECEIVED data)
  then show ?thesis using assms(1,2) by (simp add: EventHandler_def gps_event_returns)
next
  case (API_EVENT_ID_UART_RECEIVED uart data)
  have "idx_ok a" using assms(1) by (simp add: app_ok_def)
  from HandleUart_returns [OF this] show ?thesis using API_EVENT_ID_UART_RECEIVED by (simp add: EventHandler_def)
qed (simp_all add: EventHandler_def case_prod_beta)

text \<open>
  A coordinate whose fraction has thirty digits, all of them zero, is accepted by the scanner
  with a scale of \<open>2 ^ 30\<close>; the product with 100 wraps to zero.
\<close>

lemma thirty_zeros:
  "scan_frac (Some ''0.000000000000000000000000000000,N'') = Some \<lparr>fl_value = 0, fl_scale = 2 ^ 30\<rparr>"
  by code_simp

lemma thirty_zeros_undefined: "minmea_tocoord \<lparr>fl_value = v, fl_scale = 2 ^ 30\<rparr> = None"
  by (simp add: minmea_tocoord_def i32_def)

text \<open>
  The witness: a VTG sentence that has not ended, a text without a sentence, and the same
  text when the last latitude was such a coordinate.
\<close>

definition app_example :: app_state where
  "app_example = \<lparr>app_cfg = cfg_example, app_net = net_example, app_gps = gps_boot, app_data = tracker_zero, uart_cmd_sorted_idx = []\<rparr>"

lemma app_ok_example: "app_ok app_example"
  using default_wf net_wf_example boot_buffer parse_init_fresh(1)
  by (simp add: app_ok_def app_example_def cfg_example_def driver_ok_def idx_ok_def)

lemma parse_init_coords:
  "rmc_latitude (gi_rmc (g_gps_info parse_init)) = zero_float" "rmc_longitude (gi_rmc (g_gps_info parse_init)) = zero_float"
  by (simp_all add: parse_init_def zero_info_def)

definition app_zeros :: app_state where
  "app_zeros = app_example\<lparr>app_gps := gps_boot\<lparr>gps_parse := set_info
     (gi_rmc_update (rmc_latitude_update (\<lambda>_. \<lparr>fl_value = 0, fl_scale = 2 ^ 30\<rparr>))) (gps_parse gps_boot)\<rparr>\<rparr>"

lemma EventHandler_returns_witness:
  "\<forall>env. EventHandler env (API_EVENT_ID_GPS_UART_RECEIVED ''$GPVTG,'') app_example = None \<and>
    EventHandler env (API_EVENT_ID_GPS_UART_RECEIVED ''$'') app_example \<noteq> None \<and>
    EventHandler env (API_EVENT_ID_GPS_UART_RECEIVED ''$'') app_zeros = None"
proof
  fix env
  have g: "gpsNmeaBuffer (app_gps app_example) = gpsNmeaBuffer gps_boot" "gpsNmeaBuffer (app_gps app_zeros) = gpsNmeaBuffer gps_boot"
    by (simp_all add: app_example_def app_zeros_def)
  have z: "app_ok app_zeros"
    using app_ok_example by (simp add: app_ok_def app_zeros_def app_example_def driver_ok_def parse_wf_def set_info_def idx_ok_def gps_boot_def)
  have f: "frames ''$GPVTG,'' = None" "frames ''$'' = Some ([], ''$'')" by (simp_all add: frames.simps)
  have q: "queued (gpsNmeaBuffer gps_boot) ''$GPVTG,'' = ''$GPVTG,''" "queued (gpsNmeaBuffer gps_boot) ''$'' = ''$''"
    by (rule queued_boot, simp)+
  have p: "\<not> position_undefined (Gps_GetInfo (gps_parse (app_gps app_example)))"
    "position_undefined (Gps_GetInfo (gps_parse (app_gps app_zeros)))"
    using thirty_zeros_undefined [of 0] by (simp_all add: position_undefined_def Gps_GetInfo_def app_example_def app_zeros_def
        boot_buffer(6) parse_init_coords set_info_def) (simp add: zero_float_def minmea_tocoord_def)
  show "EventHandler env (API_EVENT_ID_GPS_UART_RECEIVED ''$GPVTG,'') app_example = None \<and>
    EventHandler env (API_EVENT_ID_GPS_UART_RECEIVED ''$'') app_example \<noteq> None \<and>
    EventHandler env (API_EVENT_ID_GPS_UART_RECEIVED ''$'') app_zeros = None"
    using EventHandler_returns [OF app_ok_example, of "API_EVENT_ID_GPS_UART_RECEIVED ''$GPVTG,''" env]
      EventHandler_returns [OF app_ok_example, of "API_EVENT_ID_GPS_UART_RECEIVED ''$''" env]
      EventHandler_returns [OF z, of "API_EVENT_ID_GPS_UART_RECEIVED ''$''" env] p
    unfolding stuck.simps data_stops_def g q f by simp
qed

end
