(* ===== verification/End_To_End.thy ===== *)
theory End_To_End
  imports Event_Returns
begin

text \<open>
  The path of a position through the whole program: bytes from the receiver, the ring buffer,
  the frame cutter, the sentence parsers, the position record, and from there the answer to a
  short message and the report posted to the server, each step by the code of its own component.
\<close>

section \<open>A sentence with its checksum\<close>

text \<open>The text up to the asterisk, sealed with the checksum digits and the line end.\<close>

definition sealed :: "cstr \<Rightarrow> cstr" where
  "sealed s = (let payload = butlast (tl s) in nmea_frame payload (xor_until_star 0 payload))"

lemma fields_text_append: "fields_text ws t = fields_text ws [] @ t"
  by (induction ws t rule: fields_text.induct) auto

text \<open>The characters of an RMC sentence.\<close>

definition rmc_char :: "char \<Rightarrow> bool" where
  "rmc_char c \<longleftrightarrow> isdigit c \<or> c \<in> set ''GPRMC.,ANSEW''"

lemma rmc_char_simps [simp]:
  "isdigit c \<Longrightarrow> rmc_char c" "rmc_char (CHR ''.'')" "rmc_char (CHR '','')" "rmc_char (CHR ''A'')"
  "c \<in> set ''NS'' \<Longrightarrow> rmc_char c" "c \<in> set ''EW'' \<Longrightarrow> rmc_char c"
  by (auto simp: rmc_char_def)

definition rmc_chars :: "cstr \<Rightarrow> bool" where
  "rmc_chars s \<longleftrightarrow> list_all rmc_char s"

lemma rmc_chars_simps [simp]:
  "rmc_chars []" "rmc_chars (c # s) \<longleftrightarrow> rmc_char c \<and> rmc_chars s" "rmc_chars (a @ b) \<longleftrightarrow> rmc_chars a \<and> rmc_chars b"
  by (simp_all add: rmc_chars_def)

lemma rmc_chars_digits: "\<forall>c \<in> set s. isdigit c \<Longrightarrow> rmc_chars s"
  by (simp add: rmc_chars_def list_all_iff)

lemma rmc_chars_nat [simp]: "rmc_chars (nat_str n)" "rmc_chars (zpad k (nat_str n))"
proof -
  show "rmc_chars (nat_str n)" by (rule rmc_chars_digits) (use nat_str_digits in blast)
  show "rmc_chars (zpad k (nat_str n))" by (rule rmc_chars_digits) (use zpad_digits nat_str_digits in blast)
qed

lemma rmc_chars_fields [simp]:
  "rmc_chars (dec_text k v)" "n < 100 \<Longrightarrow> rmc_chars (two_text n)"
  by (simp_all add: dec_text_def two_text_def)

lemma rmc_chars_time:
  "time_ok t \<Longrightarrow> rmc_chars (time_text (nat (hours t)) (nat (minutes t)) (nat (seconds t)) k)"
  "date_ok d \<Longrightarrow> rmc_chars (date_text (nat (day d)) (nat (month d)) (nat (year d)))"
  by (auto simp: time_ok_def date_ok_def time_text_def date_text_def)

lemma rmc_chars_fields_text: "list_all rmc_chars ws \<Longrightarrow> rmc_chars t \<Longrightarrow> rmc_chars (fields_text ws t)"
  by (induction ws t rule: fields_text.induct) simp_all

lemma rmc_text_shape:
  assumes "time_ok t" "date_ok d" "ns \<in> set ''NS''" "ew \<in> set ''EW''" "vew \<in> set ''EW''"
  shows "\<exists>p. (\<forall>cks. rmc_text t (CHR ''A'') lat ns lon ew spd crs d var vew cks = CHR ''$'' # ''GPRMC'' @ p @ CHR ''*'' # cks) \<and>
    rmc_chars p"
proof -
  let ?ws = "[time_text (nat (hours t)) (nat (minutes t)) (nat (seconds t)) (nat (microseconds t) div 1000),
       char_text (CHR ''A''), dec_text 4 lat, char_text ns, dec_text 4 lon, char_text ew,
       dec_text 2 spd, dec_text 2 crs, date_text (nat (day d)) (nat (month d)) (nat (year d)),
       dec_text 1 var, char_text vew]"
  have "rmc_chars (char_text ns)" "rmc_chars (char_text ew)" "rmc_chars (char_text vew)"
    using assms(3-5) by (simp_all add: char_text_def del: list.set)
  then have "list_all rmc_chars ?ws"
    using rmc_chars_time(1) [OF assms(1)] rmc_chars_time(2) [OF assms(2)] by (simp add: char_text_def)
  then have "rmc_chars (CHR '','' # fields_text ?ws [])"
    using rmc_chars_fields_text [of ?ws "[]"] by simp
  moreover have "rmc_text t (CHR ''A'') lat ns lon ew spd crs d var vew cks =
      CHR ''$'' # ''GPRMC'' @ (CHR '','' # fields_text ?ws []) @ CHR ''*'' # cks" for cks
    unfolding rmc_text_def fields_text.simps(3) [of _ "hd ?ws" "tl ?ws", unfolded list.sel]
    using fields_text_append [of ?ws "CHR ''*'' # cks"] by (simp only: type_text_def append.simps append_Cons append_assoc)
  ultimately show ?thesis by blast
qed

lemma rmc_char_plain: "rmc_char c \<Longrightarrow> isprint c \<and> c \<noteq> CHR ''*'' \<and> c \<noteq> CHR ''T'' \<and> c \<noteq> CR \<and> c \<noteq> NUL"
  by (auto simp: rmc_char_def isprint_def isdigit_def)

lemma nmea_frame_shape: "nmea_frame p k = CHR ''$'' # p @ CHR ''*'' # [hex_char (unat k div 16), hex_char (unat k mod 16)] @ CRLF"
  by (simp add: nmea_frame_def)

lemma hex_char_plain: "d < 16 \<Longrightarrow> hex_char d \<noteq> CR \<and> hex_char d \<noteq> NUL \<and> hex_char d \<noteq> CHR ''T''"
proof -
  assume d: "d < 16"
  have "list_all (\<lambda>d. hex_char d \<noteq> CR \<and> hex_char d \<noteq> NUL \<and> hex_char d \<noteq> CHR ''T'') [0..<16]" by code_simp
  then show ?thesis using d by (simp only: list_all_iff set_upt atLeastLessThan_iff) simp
qed

lemma rmc_chars_plain: "rmc_chars p \<Longrightarrow> c \<in> set p \<Longrightarrow> isprint c \<and> c \<noteq> CHR ''*'' \<and> c \<noteq> CHR ''T'' \<and> c \<noteq> CR \<and> c \<noteq> NUL"
  using rmc_char_plain by (auto simp: rmc_chars_def list_all_iff)

lemma rmc_head: "rmc_chars ''GPRMC''"
  by (simp add: rmc_char_def)

text \<open>A sealed RMC sentence holds no terminator, no line end inside and no letter T.\<close>

lemma sealed_chars:
  assumes "rmc_chars p"
  shows "\<exists>body. nmea_frame p k = CHR ''$'' # body @ CRLF \<and> CR \<notin> set body \<and> NUL \<notin> set body \<and> CHR ''T'' \<notin> set body"
proof -
  have k: "unat k < 256" using unsigned_less [of k] by simp
  have h: "hex_char (unat k div 16) \<noteq> CR \<and> hex_char (unat k div 16) \<noteq> NUL \<and> hex_char (unat k div 16) \<noteq> CHR ''T''"
    "hex_char (unat k mod 16) \<noteq> CR \<and> hex_char (unat k mod 16) \<noteq> NUL \<and> hex_char (unat k mod 16) \<noteq> CHR ''T''"
    using k by (intro hex_char_plain; simp)+
  have p: "CR \<notin> set p" "NUL \<notin> set p" "CHR ''T'' \<notin> set p" using rmc_chars_plain [OF assms] by blast+
  show ?thesis
    by (intro exI [of _ "p @ CHR ''*'' # [hex_char (unat k div 16), hex_char (unat k mod 16)]"])
      (use h p in \<open>simp add: nmea_frame_def eq_commute [of CR] eq_commute [of NUL] eq_commute [of "CHR ''T''"]\<close>)
qed

lemma scan_type_arg:
  assumes "length n = 5" "list_all minmea_isfield n"
  shows "minmea_scan (CHR ''$'' # n @ r) ''t'' = (True, [SvType n])"
  using scan_type_text [of n r] assms by (simp add: minmea_scan_def scan_one_def type_text_def list_all_iff case_prod_beta Let_def)

lemma rmc_kind:
  assumes "rmc_chars q" "length q \<le> 72" "k = xor_until_star 0 (''GPRMC'' @ q)"
  shows "minmea_sentence_id (nmea_frame (''GPRMC'' @ q) k) False = MINMEA_SENTENCE_RMC"
proof -
  have p: "rmc_chars (''GPRMC'' @ q)" using rmc_head assms(1) by (simp only: rmc_chars_simps(3))
  have "payload_ok (''GPRMC'' @ q)" using rmc_chars_plain [OF p] by blast
  moreover have "length (''GPRMC'' @ q) \<le> 77" using assms(2) by simp
  ultimately have c: "minmea_check (nmea_frame (''GPRMC'' @ q) k) False"
    using minmea_check_frame [of "''GPRMC'' @ q" k False] assms(3) by blast
  have "minmea_scan (CHR ''$'' # ''GPRMC'' @ r) ''t'' = (True, [SvType ''GPRMC''])" for r
    by (rule scan_type_arg) (simp_all add: minmea_isfield_def isprint_def)
  then have "minmea_scan (nmea_frame (''GPRMC'' @ q) k) ''t'' = (True, [SvType ''GPRMC''])"
    unfolding nmea_frame_def append_assoc .
  then show ?thesis using c by (simp add: minmea_sentence_id_def strcmp_eq_def)
qed

lemma vtg_kind: "minmea_sentence_id (CHR ''$'' # ''GPVTG'' @ r) False \<noteq> MINMEA_SENTENCE_RMC"
proof -
  have "minmea_scan (CHR ''$'' # ''GPVTG'' @ r) ''t'' = (True, [SvType ''GPVTG''])"
    by (rule scan_type_arg) (simp_all add: minmea_isfield_def isprint_def)
  then show ?thesis by (simp add: minmea_sentence_id_def strcmp_eq_def)
qed

section \<open>One frame through the driver\<close>

lemma strstr_vtg: "CHR ''T'' \<notin> set x \<Longrightarrow> strstr (x @ ''VTG'' @ r) ''VTG'' = Some (x, ''VTG'' @ r)"
proof (induction x)
  case (Cons c x)
  then have "\<not> is_prefix ''VTG'' (c # x @ ''VTG'' @ r)" by (cases x; cases "tl x") (auto simp: is_prefix_append)
  then show ?case using Cons by simp
qed simp

lemma one_frame:
  assumes "CHR ''T'' \<notin> set x" "CR \<notin> set b" "length (x @ ''VTG'' @ b @ CRLF) \<le> 1024"
  shows "frames (x @ ''VTG'' @ b @ CRLF) = Some ([x @ ''VTG'' @ b @ CRLF], [])"
proof -
  have e: "frames [] = Some ([], [])" by (simp add: frames.simps)
  have v: "strstr (x @ ''VTG'' @ b @ CRLF) ''VTG'' = Some (x, ''VTG'' @ b @ CRLF)" by (rule strstr_vtg [OF assms(1)])
  have "strstr ((''VTG'' @ b) @ CRLF @ []) CRLF = Some (''VTG'' @ b, CRLF @ [])" by (rule strstr_crlf) (use assms(2) in simp)
  then have c: "strstr (''VTG'' @ b @ CRLF) CRLF = Some (''VTG'' @ b, CRLF)" by simp
  have n: "frame_len (length x + length (''VTG'' @ b) + 2) = length (x @ ''VTG'' @ b @ CRLF)"
    using assms(3) by (simp add: frame_len_def)
  show ?thesis
    by (subst frames.simps) (simp only: v c option.case prod.case Let_def n take_all drop_all order_refl e option.map)
qed

text \<open>What one frame of an RMC and a VTG sentence leaves in the parser.\<close>

definition rmc_record :: "minmea_time \<Rightarrow> nat \<Rightarrow> char \<Rightarrow> nat \<Rightarrow> char \<Rightarrow> nat \<Rightarrow> nat \<Rightarrow> minmea_date \<Rightarrow> nat \<Rightarrow> char \<Rightarrow> minmea_sentence_rmc" where
  "rmc_record t lat ns lon ew spd crs d var vew =
     \<lparr>rmc_time = t, rmc_valid = True,
       rmc_latitude = \<lparr>fl_value = int lat * dir_sign ns, fl_scale = 10000\<rparr>,
       rmc_longitude = \<lparr>fl_value = int lon * dir_sign ew, fl_scale = 10000\<rparr>,
       rmc_speed = \<lparr>fl_value = int spd, fl_scale = 100\<rparr>, rmc_course = \<lparr>fl_value = int crs, fl_scale = 100\<rparr>,
       rmc_date = d, rmc_variation = \<lparr>fl_value = int var * dir_sign vew, fl_scale = 10\<rparr>\<rparr>"

definition fields_ok :: "minmea_time \<Rightarrow> nat \<Rightarrow> char \<Rightarrow> nat \<Rightarrow> char \<Rightarrow> nat \<Rightarrow> nat \<Rightarrow> minmea_date \<Rightarrow> nat \<Rightarrow> char \<Rightarrow> bool" where
  "fields_ok t lat ns lon ew spd crs d var vew \<longleftrightarrow> time_ok t \<and> date_ok d \<and>
     (\<forall>v \<in> {lat, lon, spd, crs, var}. int v \<le> INT_MAX) \<and> ns \<in> set ''NS'' \<and> ew \<in> set ''EW'' \<and> vew \<in> set ''EW''"

definition rmc_sentence :: "minmea_time \<Rightarrow> nat \<Rightarrow> char \<Rightarrow> nat \<Rightarrow> char \<Rightarrow> nat \<Rightarrow> nat \<Rightarrow> minmea_date \<Rightarrow> nat \<Rightarrow> char \<Rightarrow> cstr" where
  "rmc_sentence t lat ns lon ew spd crs d var vew = sealed (rmc_text t (CHR ''A'') lat ns lon ew spd crs d var vew [])"

definition vtg_sentence :: "cstr \<Rightarrow> cstr" where
  "vtg_sentence b = CHR ''$'' # ''GPVTG'' @ b @ CRLF"

lemma rmc_sentence_facts:
  assumes "fields_ok t lat ns lon ew spd crs d var vew" "length (rmc_sentence t lat ns lon ew spd crs d var vew) \<le> 83"
  shows "\<exists>body. rmc_sentence t lat ns lon ew spd crs d var vew = CHR ''$'' # body @ CRLF \<and>
      CR \<notin> set body \<and> NUL \<notin> set body \<and> CHR ''T'' \<notin> set body"
    "minmea_sentence_id (rmc_sentence t lat ns lon ew spd crs d var vew) False = MINMEA_SENTENCE_RMC"
    "minmea_parse_rmc f (rmc_sentence t lat ns lon ew spd crs d var vew) = (True, rmc_record t lat ns lon ew spd crs d var vew)"
proof -
  let ?s = "rmc_sentence t lat ns lon ew spd crs d var vew"
  have a: "time_ok t" "date_ok d" "ns \<in> set ''NS''" "ew \<in> set ''EW''" "vew \<in> set ''EW''"
    "int lat \<le> INT_MAX" "int lon \<le> INT_MAX" "int spd \<le> INT_MAX" "int crs \<le> INT_MAX" "int var \<le> INT_MAX"
    using assms(1) by (simp_all add: fields_ok_def)
  obtain q where q: "\<And>cks. rmc_text t (CHR ''A'') lat ns lon ew spd crs d var vew cks = CHR ''$'' # ''GPRMC'' @ q @ CHR ''*'' # cks"
    "rmc_chars q" using rmc_text_shape [OF a(1-5), of lat lon spd crs var] by blast
  define k where "k = xor_until_star 0 (''GPRMC'' @ q)"
  have "butlast (tl (CHR ''$'' # ''GPRMC'' @ q @ CHR ''*'' # [])) = ''GPRMC'' @ q" by (simp add: butlast_append)
  then have s: "?s = nmea_frame (''GPRMC'' @ q) k"
    unfolding rmc_sentence_def sealed_def q(1) Let_def by (simp only: k_def)
  have p: "rmc_chars (''GPRMC'' @ q)" using rmc_head q(2) by (simp only: rmc_chars_simps(3))
  have l: "length q \<le> 72" using assms(2) unfolding s by (simp add: nmea_frame_def)
  show "\<exists>body. ?s = CHR ''$'' # body @ CRLF \<and> CR \<notin> set body \<and> NUL \<notin> set body \<and> CHR ''T'' \<notin> set body"
    unfolding s by (rule sealed_chars [OF p])
  show "minmea_sentence_id ?s False = MINMEA_SENTENCE_RMC" unfolding s by (rule rmc_kind [OF q(2) l k_def])
  have t: "?s = rmc_text t (CHR ''A'') lat ns lon ew spd crs d var vew
      ([hex_char (unat k div 16), hex_char (unat k mod 16)] @ CRLF)"
    unfolding s q(1) by (simp add: nmea_frame_shape)
  have i: "minmea_isfield (CHR ''A'')" by (simp add: minmea_isfield_def isprint_def)
  show "minmea_parse_rmc f ?s = (True, rmc_record t lat ns lon ew spd crs d var vew)"
    unfolding t rmc_record_def using parse_rmc_text [OF a(1,2) i a(6-10) a(3-5)] by simp
qed

lemma frame_parsed:
  assumes "fields_ok t lat ns lon ew spd crs d var vew" "length (rmc_sentence t lat ns lon ew spd crs d var vew) \<le> 83"
    "CR \<notin> set b" "NUL \<notin> set b" "parse_wf ps" "parse_flag ps \<noteq> flag_old ps"
  shows "gi_rmc (Gps_GetInfo (parse_frame (rmc_sentence t lat ns lon ew spd crs d var vew @ vtg_sentence b) ps)) =
    rmc_record t lat ns lon ew spd crs d var vew"
proof -
  let ?r = "rmc_sentence t lat ns lon ew spd crs d var vew" and ?v = "vtg_sentence b"
  note R = rmc_sentence_facts [OF assms(1,2)]
  have "sentence_ok ?r" using R(1) by (auto simp: sentence_ok_def)
  moreover have v: "?v = CHR ''$'' # (''GPVTG'' @ b) @ CRLF" by (simp add: vtg_sentence_def)
  then have "sentence_ok ?v" unfolding sentence_ok_def using assms(3) by (intro exI [of _ "''GPVTG'' @ b"]) simp
  ultimately have s: "\<forall>l \<in> set [?r, ?v]. sentence_ok l" by simp
  have "NUL \<notin> set ?r" using R(1) by auto
  moreover have "NUL \<notin> set ?v" using assms(4) by (simp add: v)
  ultimately have c: "cstr_of (?r @ ?v) = concat [?r, ?v] @ []" by (simp add: cstr_of_id)
  have vk: "minmea_sentence_id ?v False \<noteq> MINMEA_SENTENCE_RMC" using vtg_kind [of "b @ CRLF"] by (simp add: vtg_sentence_def)
  have "of_kind MINMEA_SENTENCE_RMC [?r, ?v] = [?r]" using R(2) vk by (simp add: of_kind_def)
  then have "gi_rmc (frame_info i [?r, ?v]) = rmc_record t lat ns lon ew spd crs d var vew" for i
    using R(3) by (simp add: frame_info_def stored_def)
  moreover have "g_gps_info (snd (GPS_Parse (concat [?r, ?v] @ []) ps)) = frame_info (g_gps_info ps) [?r, ?v]"
    unfolding GPS_Parse_def using parse_frames_lines [OF s, of "[]" False ps] parse_lines_frame [OF assms(5,6), of "[?r, ?v]" False]
    by (simp add: frame_state_def)
  ultimately show ?thesis by (simp only: parse_frame_def c Gps_GetInfo_def)
qed

lemma gps_event_frame:
  assumes "app_ok a" "length data \<le> 65535" "queued (gpsNmeaBuffer (app_gps a)) data = data" "frames data = Some ([data], [])"
    "\<not> position_undefined (Gps_GetInfo (parse_frame data (gps_parse (app_gps a))))"
  shows "\<exists>a' out. gps_event env data a = Some (a', out) \<and>
    gps_Process (g_ConfigStore (app_cfg a)) (se_now env) (Gps_GetInfo (parse_frame data (gps_parse (app_gps a)))) = Some (app_data a') \<and>
    gps_parse (app_gps a') = parse_frame data (gps_parse (app_gps a)) \<and> app_cfg a' = app_cfg a \<and>
    app_net a' = upd_status GPS_STATUS_ON (app_net a)"
proof -
  let ?g = "app_gps a" and ?s = "upd_net (upd_status GPS_STATUS_ON) a"
  have g: "buffer_wf (gpsNmeaBuffer ?g)" "semCmdSending ?g = None" using assms(1) by (simp_all add: app_ok_def driver_ok_def)
  have s: "app_gps ?s = ?g" "app_cfg ?s = app_cfg a" "app_net ?s = upd_status GPS_STATUS_ON (app_net a)"
    by (simp_all add: upd_net_def)
  obtain ok b where b: "Buffer_Puts (gpsNmeaBuffer ?g) data (ucast (of_nat (length data) :: u32)) = (ok, b)"
    "buffer_wf b" "contents b = data"
    using Puts_queued [OF g(1) assms(2)] assms(3) by auto
  obtain b' out where u: "update_loop (gps_env_of env ?s) (?g\<lparr>gpsNmeaBuffer := b\<rparr>) [] =
      Some (?g\<lparr>gpsNmeaBuffer := b', gps_parse := parse_frame data (gps_parse ?g)\<rparr>, out)"
    using update_loop_frames [of "?g\<lparr>gpsNmeaBuffer := b\<rparr>" "[data]" "[]" "gps_env_of env ?s" "[]"] b(2,3) assms(4) by auto
  obtain r where r: "gps_Process (g_ConfigStore (app_cfg a)) (se_now env) (Gps_GetInfo (parse_frame data (gps_parse ?g))) = Some r"
    using gps_Process_returns assms(5) by blast
  have "GPS_Update (gps_env_of env ?s) data (of_nat (length data)) ?g =
      Some (?g\<lparr>gpsNmeaBuffer := b', gps_parse := parse_frame data (gps_parse ?g)\<rparr>, out)"
    using u(1) b(1) g(2) by (simp add: GPS_Update_def)
  then show ?thesis unfolding gps_event_def Let_def s using r by (auto simp: upd_net_def)
qed

lemma sms_answer:
  assumes "encode \<in> {SMS_ENCODE_TYPE_ASCII, SMS_ENCODE_TYPE_UNICODE}" "length content = unat len" "unat len < 65535"
    "is_get_location (content_text encode content)" "phone_of header = Some number"
  shows "\<exists>out. SmsReceivedCallback latitude longitude encode header content len = Some out \<and>
    sms_sent out = [(number, location_text latitude longitude)]"
  using phone_loop_correct [of header] assms(4,5)
  unfolding SmsReceivedCallback_def decode_content_correct [OF assms(1-3)]
  by (auto simp: Let_def phone_of_def SendLocationSms_sent is_get_location_def split: sum.splits if_splits)

section \<open>From the receiver to the record\<close>

text \<open>A receiver that delivers an RMC sentence and a VTG sentence in one piece.\<close>

definition delivers :: "app_state \<Rightarrow> cstr \<Rightarrow> cstr \<Rightarrow> bool" where
  "delivers a rmc b \<longleftrightarrow> (let data = rmc @ vtg_sentence b in
     parse_flag (gps_parse (app_gps a)) \<noteq> flag_old (gps_parse (app_gps a)) \<and>
     length rmc \<le> 83 \<and> length data \<le> 1024 \<and> CR \<notin> set b \<and> NUL \<notin> set b \<and>
     queued (gpsNmeaBuffer (app_gps a)) data = data)"

lemma fix_recorded:
  assumes "app_ok a" "fields_ok t lat ns lon ew spd crs d var vew"
    "rmc = rmc_sentence t lat ns lon ew spd crs d var vew" "delivers a rmc b"
  shows "\<exists>a' out. EventHandler env (API_EVENT_ID_GPS_UART_RECEIVED (rmc @ vtg_sentence b)) a = Some (a', out) \<and>
    rmc_valid (gi_rmc (Gps_GetInfo (gps_parse (app_gps a')))) \<and>
    minmea_tocoord \<lparr>fl_value = int lat * dir_sign ns, fl_scale = 10000\<rparr> = Some (td_latitude (app_data a')) \<and>
    minmea_tocoord \<lparr>fl_value = int lon * dir_sign ew, fl_scale = 10000\<rparr> = Some (td_longitude (app_data a')) \<and>
    td_speed (app_data a') = minmea_tofloat \<lparr>fl_value = int spd, fl_scale = 100\<rparr> \<and>
    td_bearing (app_data a') = minmea_tofloat \<lparr>fl_value = int crs, fl_scale = 100\<rparr> \<and>
    mk_time d t = Some (td_timestamp (app_data a')) \<and>
    app_cfg a' = app_cfg a \<and> app_net a' = upd_status GPS_STATUS_ON (app_net a)"
proof -
  let ?data = "rmc @ vtg_sentence b"
  let ?gi = "Gps_GetInfo (parse_frame ?data (gps_parse (app_gps a)))"
  have D: "parse_flag (gps_parse (app_gps a)) \<noteq> flag_old (gps_parse (app_gps a))" "length rmc \<le> 83"
    "length ?data \<le> 1024" "CR \<notin> set b" "NUL \<notin> set b" "queued (gpsNmeaBuffer (app_gps a)) ?data = ?data"
    using assms(4) by (simp_all add: delivers_def Let_def)
  obtain body where body: "rmc = CHR ''$'' # body @ CRLF" "CHR ''T'' \<notin> set body"
    using rmc_sentence_facts(1) [OF assms(2)] D(2) unfolding assms(3) by blast
  have x: "?data = (rmc @ ''$GP'') @ ''VTG'' @ b @ CRLF" by (simp add: vtg_sentence_def)
  have "frames ?data = Some ([?data], [])"
    unfolding x by (rule one_frame) (use D(3,4) body x in auto)
  moreover have "parse_wf (gps_parse (app_gps a))" using assms(1) by (simp add: app_ok_def driver_ok_def)
  then have rmc: "gi_rmc ?gi = rmc_record t lat ns lon ew spd crs d var vew"
    using frame_parsed [OF assms(2) _ D(4,5)] D(1,2) unfolding assms(3) by blast
  obtain la lo where c: "minmea_tocoord \<lparr>fl_value = int lat * dir_sign ns, fl_scale = 10000\<rparr> = Some la"
    "minmea_tocoord \<lparr>fl_value = int lon * dir_sign ew, fl_scale = 10000\<rparr> = Some lo"
    using tocoord_defined [of "\<lparr>fl_value = int lat * dir_sign ns, fl_scale = 10000\<rparr>"] tocoord_defined [of "\<lparr>fl_value = int lon * dir_sign ew, fl_scale = 10000\<rparr>"] by auto
  have "\<not> position_undefined ?gi" by (simp add: position_undefined_def rmc rmc_record_def c)
  ultimately obtain a' out where a': "gps_event env ?data a = Some (a', out)"
    "gps_Process (g_ConfigStore (app_cfg a)) (se_now env) ?gi = Some (app_data a')"
    "gps_parse (app_gps a') = parse_frame ?data (gps_parse (app_gps a))" "app_cfg a' = app_cfg a"
    "app_net a' = upd_status GPS_STATUS_ON (app_net a)"
    using gps_event_frame [OF assms(1) _ D(6)] D(3) by fastforce
  obtain z where z: "mk_time d t = Some z" using mk_time_total by blast
  have v: "app_data a' = the (gps_Process (g_ConfigStore (app_cfg a)) (se_now env) ?gi)" using a'(2) by simp
  have "td_latitude (app_data a') = la" "td_longitude (app_data a') = lo"
    "td_speed (app_data a') = minmea_tofloat \<lparr>fl_value = int spd, fl_scale = 100\<rparr>"
    "td_bearing (app_data a') = minmea_tofloat \<lparr>fl_value = int crs, fl_scale = 100\<rparr>"
    "mk_time d t = Some (td_timestamp (app_data a'))"
    unfolding v by (simp_all add: gps_Process_def rmc rmc_record_def z c Let_def)
  moreover have "rmc_valid (gi_rmc ?gi)" by (simp add: rmc rmc_record_def)
  ultimately show ?thesis using a' c by (auto simp: EventHandler_def)
qed

section \<open>From the receiver to the answer\<close>

text \<open>
  C3. A position travels unchanged through the program. When the receiver delivers a valid RMC
  sentence followed by a VTG sentence in one piece, the event handler returns and the
  position record holds the sentence's coordinates, converted to degrees, its speed, course
  and time; a ``get location'' message that arrives next is answered, once and to the number
  in its header, with the link to exactly these coordinates.
\<close>

theorem fix_reaches_sms:
  assumes "app_ok a" "fields_ok t lat ns lon ew spd crs d var vew"
    "rmc = rmc_sentence t lat ns lon ew spd crs d var vew" "delivers a rmc b"
    "encode \<in> {SMS_ENCODE_TYPE_ASCII, SMS_ENCODE_TYPE_UNICODE}" "length content = unat len" "unat len < 65535"
    "is_get_location (content_text encode content)" "phone_of header = Some number"
    "minmea_tocoord \<lparr>fl_value = int lat * dir_sign ns, fl_scale = 10000\<rparr> = Some latitude"
    "minmea_tocoord \<lparr>fl_value = int lon * dir_sign ew, fl_scale = 10000\<rparr> = Some longitude"
  shows "\<exists>a' out out'. EventHandler env (API_EVENT_ID_GPS_UART_RECEIVED (rmc @ vtg_sentence b)) a = Some (a', out) \<and>
    td_latitude (app_data a') = latitude \<and> td_longitude (app_data a') = longitude \<and>
    td_speed (app_data a') = minmea_tofloat \<lparr>fl_value = int spd, fl_scale = 100\<rparr> \<and>
    td_bearing (app_data a') = minmea_tofloat \<lparr>fl_value = int crs, fl_scale = 100\<rparr> \<and>
    mk_time d t = Some (td_timestamp (app_data a')) \<and>
    EventHandler env' (API_EVENT_ID_SMS_RECEIVED encode header content len) a' = Some (a', out') \<and>
    sms_sent out' = [(number, location_text latitude longitude)]"
proof -
  obtain out' where "SmsReceivedCallback latitude longitude encode header content len = Some out'"
    "sms_sent out' = [(number, location_text latitude longitude)]"
    using sms_answer [OF assms(5-9)] by blast
  then show ?thesis
    using fix_recorded [OF assms(1-4), of env] unfolding assms(10,11) option.inject
    by (auto simp: EventHandler_def gps_GetLastLatitude_def gps_GetLastLongitude_def)
qed

text \<open>The witness: 48 degrees 7.038 minutes north and 11 degrees 31 minutes west, then a message.\<close>

definition fix_time :: minmea_time where "fix_time = \<lparr>hours = 12, minutes = 35, seconds = 19, microseconds = 0\<rparr>"
definition fix_date :: minmea_date where "fix_date = \<lparr>day = 23, month = 3, year = 24\<rparr>"

abbreviation fix_sentence :: cstr where
  "fix_sentence \<equiv> rmc_sentence fix_time 48070380 (CHR ''N'') 11310000 (CHR ''W'') 2240 8440 fix_date 31 (CHR ''W'')"

lemma length_dec_text:
  assumes "v < 10 ^ (k + j)" "0 < j" "0 < k" shows "length (dec_text k v) \<le> j + 1 + k"
proof -
  have "v div 10 ^ k < 10 ^ j" using assms(1) by (simp add: less_mult_imp_div_less power_add mult.commute)
  then have "length (nat_str (v div 10 ^ k)) \<le> j" by (rule length_nat_str [OF _ assms(2)])
  moreover have "length (nat_str (v mod 10 ^ k)) \<le> k" by (rule length_nat_str [OF _ assms(3)]) simp
  ultimately show ?thesis using assms(3) by (simp add: dec_text_def length_zpad)
qed

lemma length_fix: "length fix_sentence \<le> 73"
proof -
  have d: "length (dec_text 4 48070380) \<le> 9" "length (dec_text 4 11310000) \<le> 9" "length (dec_text 2 2240) \<le> 5"
    "length (dec_text 2 8440) \<le> 5" "length (dec_text (Suc 0) 31) \<le> 3"
    using length_dec_text [of 48070380 4 4] length_dec_text [of 11310000 4 4] length_dec_text [of 2240 2 2]
      length_dec_text [of 8440 2 2] length_dec_text [of 31 1 1] by simp_all
  have z: "length (zpad 3 (nat_str 0)) = 3" by (rule length_zpad) (use length_nat_str [of 0 1] in simp)
  have "length (sealed s) = length s + 4" if "2 \<le> length s" for s
    using that by (simp add: sealed_def nmea_frame_def Let_def)
  then show ?thesis using d z
    by (simp add: rmc_sentence_def rmc_text_def type_text_def time_text_def date_text_def two_text_def char_text_def
        fix_time_def fix_date_def)
qed

lemma delivers_fix:
  assumes "app_gps a = gps_boot" shows "delivers a fix_sentence '',K*00''"
proof -
  have l: "length fix_sentence \<le> 73" by (rule length_fix)
  have "parse_flag (gps_parse gps_boot) \<noteq> flag_old (gps_parse gps_boot)"
    using parse_init_fresh(2) boot_buffer(6) by simp
  moreover have "queued (gpsNmeaBuffer gps_boot) (fix_sentence @ vtg_sentence '',K*00'') = fix_sentence @ vtg_sentence '',K*00''"
    by (rule queued_boot) (use l in \<open>simp add: vtg_sentence_def\<close>)
  ultimately show ?thesis using l by (simp add: delivers_def Let_def assms vtg_sentence_def)
qed

lemma fields_fix: "fields_ok fix_time 48070380 (CHR ''N'') 11310000 (CHR ''W'') 2240 8440 fix_date 31 (CHR ''W'')"
  by (simp add: fields_ok_def fix_time_def fix_date_def time_ok_def date_ok_def)

lemma tocoord_fix: "\<exists>la. minmea_tocoord \<lparr>fl_value = 48070380, fl_scale = 10000\<rparr> = Some la" "\<exists>lo. minmea_tocoord \<lparr>fl_value = - 11310000, fl_scale = 10000\<rparr> = Some lo"
  using tocoord_defined [of "\<lparr>fl_value = 48070380, fl_scale = 10000\<rparr>"] tocoord_defined [of "\<lparr>fl_value = - 11310000, fl_scale = 10000\<rparr>"] by auto

lemma fix_reaches_sms_witness:
  "\<forall>env env'. \<exists>a' out out' la lo. minmea_tocoord \<lparr>fl_value = 48070380, fl_scale = 10000\<rparr> = Some la \<and>
    minmea_tocoord \<lparr>fl_value = - 11310000, fl_scale = 10000\<rparr> = Some lo \<and>
    EventHandler env (API_EVENT_ID_GPS_UART_RECEIVED (fix_sentence @ vtg_sentence '',K*00'')) app_example = Some (a', out) \<and>
    EventHandler env' (API_EVENT_ID_SMS_RECEIVED SMS_ENCODE_TYPE_UNICODE header_example (ucs2 ''Get Location '') 26) a' = Some (a', out') \<and>
    sms_sent out' = [(''+48123456789'', location_text la lo)]"
proof (intro allI)
  fix env env'
  have g: "delivers app_example fix_sentence '',K*00''" by (rule delivers_fix) (simp add: app_example_def)
  have p: "phone_of header_example = Some ''+48123456789''" by code_simp
  have c: "is_get_location (content_text SMS_ENCODE_TYPE_UNICODE (ucs2 ''Get Location ''))" by code_simp
  have n: "length (ucs2 ''Get Location '') = unat (26::u32)" "unat (26::u32) < 65535" by (simp_all add: length_ucs2)
  have e: "SMS_ENCODE_TYPE_UNICODE \<in> {SMS_ENCODE_TYPE_ASCII, SMS_ENCODE_TYPE_UNICODE}" by simp
  obtain la lo where l: "minmea_tocoord \<lparr>fl_value = 48070380, fl_scale = 10000\<rparr> = Some la" "minmea_tocoord \<lparr>fl_value = - 11310000, fl_scale = 10000\<rparr> = Some lo"
    using tocoord_fix by blast
  have d: "int 48070380 * dir_sign (CHR ''N'') = 48070380" "int 11310000 * dir_sign (CHR ''W'') = - 11310000"
    by (simp_all add: dir_sign_def)
  note lat = l(1) [folded d(1)] and lon = l(2) [folded d(2)]
  from fix_reaches_sms [OF app_ok_example fields_fix refl g e n c p lat lon, of env env']
  show "\<exists>a' out out' la lo. minmea_tocoord \<lparr>fl_value = 48070380, fl_scale = 10000\<rparr> = Some la \<and>
    minmea_tocoord \<lparr>fl_value = - 11310000, fl_scale = 10000\<rparr> = Some lo \<and>
    EventHandler env (API_EVENT_ID_GPS_UART_RECEIVED (fix_sentence @ vtg_sentence '',K*00'')) app_example = Some (a', out) \<and>
    EventHandler env' (API_EVENT_ID_SMS_RECEIVED SMS_ENCODE_TYPE_UNICODE header_example (ucs2 ''Get Location '') 26) a' = Some (a', out') \<and>
    sms_sent out' = [(''+48123456789'', location_text la lo)]"
    using l by blast
qed

section \<open>From the receiver to the server\<close>

text \<open>
  A network that accepts a connection and all bytes of a request, over a plain socket some at a
  time, over SSL in the one call the code makes; a request has at most 1000 bytes.
\<close>

definition connected :: "http_net \<Rightarrow> t_Config \<Rightarrow> bool" where
  "connected net cfg \<longleftrightarrow> http_malloc net \<and>
     (if server_protocol cfg = PROT_HTTPS then SSL_Init net = 0 \<and> SSL_Connect net = 0 \<and> 1000 \<le> SSL_Write net
      else DNS_GetHostByName2 net \<noteq> None \<and> 0 \<le> http_socket net \<and> 0 \<le> http_connect net \<and>
        0 < fst (strtol (server_port cfg) 10) \<and> fst (strtol (server_port cfg) 10) \<le> 65535 \<and>
        1000 \<le> length (http_sends net) \<and> (\<forall>r \<in> set (http_sends net). 0 < r))"

lemma send_loop_all:
  assumes "t \<le> length buf" "length buf \<le> t + length rs" "\<forall>r \<in> set rs. 0 < r"
  shows "fst (send_loop buf t rs)"
  using assms
proof (induction rs arbitrary: t)
  case Nil
  then show ?case by (subst send_loop.simps) simp
next
  case (Cons r rs)
  show ?case
  proof (cases "t < length buf")
    case True
    let ?ret = "min r (int (length buf - t))"
    have ret: "0 < ?ret" "nat ?ret \<le> length buf - t" using True Cons.prems(3) by auto
    have "fst (send_loop buf (t + nat ?ret) rs)" by (rule Cons.IH) (use ret Cons.prems in auto)
    then show ?thesis using True ret(1) by (subst send_loop.simps) (simp add: Let_def case_prod_beta)
  qed (subst send_loop.simps, simp)
qed

lemma plain_sends_all:
  assumes "DNS_GetHostByName2 net \<noteq> None" "0 \<le> http_socket net" "0 \<le> http_connect net"
    "0 < fst (strtol port 10)" "fst (strtol port 10) \<le> 65535" "length msg \<le> length (http_sends net)"
    "\<forall>r \<in> set (http_sends net). 0 < r" "msg \<noteq> []" "0 < n" "n \<le> 65535" "length ret = nat n"
    "http_send_receive net host port msg ret n = (r, buf, out)"
  shows "sent out = msg"
proof -
  obtain ok o3 where s: "send_loop msg 0 (http_sends net) = (ok, o3)" by fastforce
  have "ok" using send_loop_all [of 0 msg "http_sends net"] assms(6,7) s by simp
  moreover have "sent o3 = msg" if ok using send_loop_correct [OF _ s] that by simp
  moreover obtain r4 buf4 o4 where v: "http_recv_loop n 0 ret (http_events net) = (r4, buf4, o4)" by (metis prod_cases3)
  moreover have "sent o4 = []" using http_recv_loop_correct [OF assms(10,11) _ v] by simp
  ultimately show ?thesis using assms(1-5,8,9,12) s by (auto simp: http_send_receive_def Let_def)
qed

lemma ssl_sends_all:
  assumes "SSL_Init net = 0" "SSL_Connect net = 0" "int (length msg) \<le> SSL_Write net"
    "https_send_receive net host port msg ret n = (r, buf, out)"
  shows "sent out = msg"
  using https_sent_taken [OF assms(4)] assms(1-3) by (simp add: ssl_taken_def nat_le_iff take_all_iff)

lemma length_request:
  assumes "length host < 64" "length body < 400" shows "length (request_bytes ''/'' host body) \<le> 1000"
proof -
  have "length (nat_str (length body)) \<le> 3" using assms(2) by (intro length_nat_str) simp_all
  then show ?thesis using assms by (simp add: request_bytes_def request_head_def)
qed

lemma report_sent_all:
  assumes "cells_ok s" "cfg_wf cfg" "connected (te_net env) cfg" "length responseBuffer = 1024"
    "tracker_report env cfg s gi d responseBuffer = (resp, out)"
  shows "sent out = request_bytes ''/'' (server_addr cfg) (take 399 (report_text cfg gi d (g_cellInfoStr s) (te_percent env)))"
proof -
  let ?body = "report_form env cfg s gi d" and ?secure = "server_protocol cfg = PROT_HTTPS"
  let ?msg = "request_bytes ''/'' (server_addr cfg) ?body"
  obtain ret r o1 where p: "length ret = 1024"
    "Http_Post (te_net env) ?secure (server_addr cfg) (server_port cfg) ''/'' ?body (of_nat (length ?body)) ret 1024 = (r, resp, o1)"
    "out = Sdk ''PM_Voltage'' [] # (if gps_print_pos cfg then print_location UART_Printf gi d else []) @ o1 @ [report_outcome cfg r]"
    using report_posts [OF assms(1,4,5)] by blast
  have len: "length ?body = unat (of_nat (length ?body) :: u16)" by (simp add: report_form_def unat_of_nat)
  have m: "http_malloc (te_net env)" using assms(3) by (simp add: connected_def)
  have l: "length ?msg \<le> 1000"
    by (rule length_request) (use assms(2) in \<open>simp_all add: cfg_wf_def cstr_ok_def report_form_def\<close>)
  then have plain: "sent o2 = ?msg" if "\<not> ?secure"
    "http_send_receive (te_net env) (server_addr cfg) (server_port cfg) ?msg ret 1024 = (r1, b1, o2)" for r1 b1 o2
    using that assms(3) p(1) by (intro plain_sends_all [OF _ _ _ _ _ _ _ _ _ _ _ that(2)])
      (auto simp: connected_def request_nonempty)
  have ssl: "sent o2 = ?msg" if "?secure"
    "https_send_receive (te_net env) (server_addr cfg) (server_port cfg) ?msg ret 1024 = (r1, b1, o2)" for r1 b1 o2
    using that assms(3) l by (intro ssl_sends_all [OF _ _ _ that(2)]) (simp_all add: connected_def)
  have "sent o1 = ?msg"
    using p(2) plain ssl unfolding Http_Post_eq [OF len m] by (auto split: if_splits prod.splits)
  then show ?thesis unfolding p(3) sent_report by (simp add: report_form_def)
qed

text \<open>The report of a position, up to the fields that do not come from the RMC sentence.\<close>

definition posted :: "t_Config \<Rightarrow> int \<Rightarrow> fpv \<Rightarrow> fpv \<Rightarrow> fpv \<Rightarrow> fpv \<Rightarrow> cstr \<Rightarrow> cstr" where
  "posted cfg ts la lo sp be rest = ''id='' @ device_name cfg @ ''&valid=1&timestamp='' @ int_str ts @
     ''&lat='' @ float_str 6 la @ ''&lon='' @ float_str 6 lo @ ''&speed='' @ float_str 0 sp @
     ''&bearing='' @ float_str 1 be @ ''&altitude='' @ rest"

lemma report_posted:
  "rmc_valid (gi_rmc gi) \<Longrightarrow> \<exists>rest. report_text cfg gi d c p =
     posted cfg (td_timestamp d) (td_latitude d) (td_longitude d) (td_speed d) (td_bearing d) rest"
  by (simp add: report_text_def posted_def)

text \<open>
  C4. The position the receiver delivers is the position the server is sent. After the sentences
  of the last theorem, while a connection is active and the network accepts the connection and all
  bytes of the request, over a plain socket by any number of \<open>send\<close> calls or over SSL by the one
  call of \<open>SSL_Write\<close>, the next turn of the reporting task posts the form whose fields
  are the device's name, a valid fix, the time of the sentence and its latitude, longitude,
  speed and course; the form is cut to 399 characters and goes out as the body of one POST to the
  configured server.
\<close>

theorem fix_reaches_server:
  assumes "app_ok a" "fields_ok t lat ns lon ew spd crs d var vew"
    "rmc = rmc_sentence t lat ns lon ew spd crs d var vew" "delivers a rmc b"
    "cfg = g_ConfigStore (app_cfg a)" "IS_GSM_ACTIVE (systemStatus (app_net a))"
    "connected (te_net tenv) cfg" "length resp = 1024"
    "minmea_tocoord \<lparr>fl_value = int lat * dir_sign ns, fl_scale = 10000\<rparr> = Some latitude"
    "minmea_tocoord \<lparr>fl_value = int lon * dir_sign ew, fl_scale = 10000\<rparr> = Some longitude"
  shows "\<exists>a' out n resp' out' ts rest.
    EventHandler env (API_EVENT_ID_GPS_UART_RECEIVED (rmc @ vtg_sentence b)) a = Some (a', out) \<and>
    tracker_turn tenv (g_ConfigStore (app_cfg a')) (app_net a') (Gps_GetInfo (gps_parse (app_gps a'))) (app_data a') resp =
      (n, resp', out') \<and>
    mk_time d t = Some ts \<and>
    sent out' = request_bytes ''/'' (server_addr cfg)
      (take 399 (posted cfg ts latitude longitude
        (minmea_tofloat \<lparr>fl_value = int spd, fl_scale = 100\<rparr>) (minmea_tofloat \<lparr>fl_value = int crs, fl_scale = 100\<rparr>) rest))"
proof -
  obtain a' out where a': "EventHandler env (API_EVENT_ID_GPS_UART_RECEIVED (rmc @ vtg_sentence b)) a = Some (a', out)"
    "rmc_valid (gi_rmc (Gps_GetInfo (gps_parse (app_gps a'))))"
    "td_latitude (app_data a') = latitude" "td_longitude (app_data a') = longitude"
    "td_speed (app_data a') = minmea_tofloat \<lparr>fl_value = int spd, fl_scale = 100\<rparr>"
    "td_bearing (app_data a') = minmea_tofloat \<lparr>fl_value = int crs, fl_scale = 100\<rparr>"
    "mk_time d t = Some (td_timestamp (app_data a'))"
    "app_cfg a' = app_cfg a" "app_net a' = upd_status GPS_STATUS_ON (app_net a)"
    using fix_recorded [OF assms(1-4), of env] unfolding assms(9,10) option.inject by blast
  let ?gi = "Gps_GetInfo (gps_parse (app_gps a'))" and ?s = "(app_net a')\<lparr>g_trackerloop_tick := te_start tenv\<rparr>"
  have w: "cells_ok ?s" "cfg_wf cfg" using assms(1)
    by (simp_all add: a'(9) upd_status_def app_ok_def net_wf_def state_wf_def assms(5))
  have on: "(IS_GPS_STATUS_ON (systemStatus ?s) \<and> IS_GSM_ACTIVE (systemStatus ?s)) = True"
    using assms(6) by (simp add: a'(9) upd_status_def)
  obtain resp1 out1 where rep: "tracker_report tenv cfg ?s ?gi (app_data a') resp = (resp1, out1)" by fastforce
  obtain ms where t: "tracker_turn tenv cfg (app_net a') ?gi (app_data a') resp = (?s, resp1, out1 @ [Sdk ''OS_Sleep'' [ms]])"
    unfolding tracker_turn_def Let_def on if_True rep prod.case by blast
  have t': "tracker_turn tenv (g_ConfigStore (app_cfg a')) (app_net a') ?gi (app_data a') resp = (?s, resp1, out1 @ [Sdk ''OS_Sleep'' [ms]])"
    using t by (simp only: a'(8) assms(5))
  obtain rest where rest: "report_text cfg ?gi (app_data a') (g_cellInfoStr ?s) (te_percent tenv) =
      posted cfg (td_timestamp (app_data a')) (td_latitude (app_data a')) (td_longitude (app_data a'))
        (td_speed (app_data a')) (td_bearing (app_data a')) rest"
    using report_posted [OF a'(2)] by blast
  have "sent (out1 @ [Sdk ''OS_Sleep'' [ms]]) = request_bytes ''/'' (server_addr cfg)
      (take 399 (posted cfg (td_timestamp (app_data a')) (td_latitude (app_data a')) (td_longitude (app_data a'))
        (td_speed (app_data a')) (td_bearing (app_data a')) rest))"
    using report_sent_all [OF w assms(7,8) rep] unfolding rest by simp
  then show ?thesis using a'(1,7) t' unfolding a'(3-6) by blast
qed

definition app_online :: app_state where
  "app_online = app_example\<lparr>app_net := upd_status GSM_ACTIVE_ON net_example\<rparr>"

definition turn_env :: tracker_env where
  "turn_env = \<lparr>te_start = 100, te_end = 103, te_percent = 80, te_net = net_ok\<rparr>"

lemma fix_reaches_server_witness:
  "\<forall>env. \<exists>a' out n resp' out' ts rest la lo. minmea_tocoord \<lparr>fl_value = 48070380, fl_scale = 10000\<rparr> = Some la \<and>
    minmea_tocoord \<lparr>fl_value = - 11310000, fl_scale = 10000\<rparr> = Some lo \<and>
    EventHandler env (API_EVENT_ID_GPS_UART_RECEIVED (fix_sentence @ vtg_sentence '',K*00'')) app_online = Some (a', out) \<and>
    tracker_turn turn_env (g_ConfigStore (app_cfg a')) (app_net a') (Gps_GetInfo (gps_parse (app_gps a'))) (app_data a')
      (replicate 1024 NUL) = (n, resp', out') \<and>
    sent out' = request_bytes ''/'' ''demo3.traccar.org''
      (take 399 (posted default_config ts la lo
        (minmea_tofloat \<lparr>fl_value = 2240, fl_scale = 100\<rparr>) (minmea_tofloat \<lparr>fl_value = 8440, fl_scale = 100\<rparr>) rest))"
proof
  fix env
  have a: "app_ok app_online"
    using app_ok_example by (simp add: app_online_def app_ok_def app_example_def net_wf_def upd_status_def contexts_ok_def idx_ok_def)
  have g: "delivers app_online fix_sentence '',K*00''" by (rule delivers_fix) (simp add: app_online_def app_example_def)
  have c: "g_ConfigStore (app_cfg app_online) = default_config" by (simp add: app_online_def app_example_def cfg_example_def)
  have s: "IS_GSM_ACTIVE (systemStatus (app_net app_online))" by (simp add: app_online_def upd_status_def)
  have n: "connected (te_net turn_env) default_config" by (simp add: connected_def turn_env_def net_ok_def default_config_def)
  have l: "length (replicate 1024 NUL) = 1024" by simp
  have e: "int 48070380 * dir_sign (CHR ''N'') = 48070380" "int 11310000 * dir_sign (CHR ''W'') = - 11310000"
    "int 2240 = 2240" "int 8440 = 8440" "server_addr default_config = ''demo3.traccar.org''"
    by (simp_all add: dir_sign_def default_config_def)
  obtain la lo where co: "minmea_tocoord \<lparr>fl_value = 48070380, fl_scale = 10000\<rparr> = Some la" "minmea_tocoord \<lparr>fl_value = - 11310000, fl_scale = 10000\<rparr> = Some lo"
    using tocoord_fix by blast
  note lat = co(1) [folded e(1)] and lon = co(2) [folded e(2)]
  from fix_reaches_server [OF a fields_fix refl g c [symmetric] s n l lat lon, of env]
  show "\<exists>a' out n resp' out' ts rest la lo. minmea_tocoord \<lparr>fl_value = 48070380, fl_scale = 10000\<rparr> = Some la \<and>
    minmea_tocoord \<lparr>fl_value = - 11310000, fl_scale = 10000\<rparr> = Some lo \<and>
    EventHandler env (API_EVENT_ID_GPS_UART_RECEIVED (fix_sentence @ vtg_sentence '',K*00'')) app_online = Some (a', out) \<and>
    tracker_turn turn_env (g_ConfigStore (app_cfg a')) (app_net a') (Gps_GetInfo (gps_parse (app_gps a'))) (app_data a')
      (replicate 1024 NUL) = (n, resp', out') \<and>
    sent out' = request_bytes ''/'' ''demo3.traccar.org''
      (take 399 (posted default_config ts la lo
        (minmea_tofloat \<lparr>fl_value = 2240, fl_scale = 100\<rparr>) (minmea_tofloat \<lparr>fl_value = 8440, fl_scale = 100\<rparr>) rest))"
    unfolding e using co by blast
qed

end
