(* ===== verification/Nmea_Typing.thy ===== *)
theory Nmea_Typing
  imports Gps_Parse
begin

text \<open>
  The values of the NMEA parser have the types its callers rely on. \<open>minmea_scan\<close> of
  \<open>libs/gps/minmea/src/minmea.c\<close> takes its destinations as untyped variadic arguments: what it
  stores is shown to fit the conversion characters of the format, in kind and in range, for
  every sentence. The records the parsers fill, and with them the position data of
  \<open>libs/gps/src/gps_parse.c\<close>, then keep their types whatever text the receiver sends, and the
  products with a direction never overflow.
\<close>

section \<open>Types of values\<close>

datatype arg_type = TChar | TDir | TFloat | TInt | TStr | TType | TDate | TTime

fun arg_type_of :: "scan_val \<Rightarrow> arg_type" where
  "arg_type_of (SvChar _) = TChar"
| "arg_type_of (SvDir _) = TDir"
| "arg_type_of (SvFloat _) = TFloat"
| "arg_type_of (SvInt _) = TInt"
| "arg_type_of (SvStr _) = TStr"
| "arg_type_of (SvType _) = TType"
| "arg_type_of (SvDate _) = TDate"
| "arg_type_of (SvTime _) = TTime"

text \<open>The arguments a format asks for.\<close>

fun conversion_type :: "char \<Rightarrow> arg_type option" where
  "conversion_type c =
     (if c = CHR ''c'' then Some TChar else if c = CHR ''d'' then Some TDir
      else if c = CHR ''f'' then Some TFloat else if c = CHR ''i'' then Some TInt
      else if c = CHR ''s'' then Some TStr else if c = CHR ''t'' then Some TType
      else if c = CHR ''D'' then Some TDate else if c = CHR ''T'' then Some TTime else None)"

definition format_types :: "cstr \<Rightarrow> arg_type list" where
  "format_types fmt = List.map_filter conversion_type fmt"

lemma format_types_simps [simp]:
  "format_types [] = []"
  "format_types (c # cs) = (case conversion_type c of None \<Rightarrow> format_types cs | Some t \<Rightarrow> t # format_types cs)"
  by (simp_all add: format_types_def List.map_filter_simps split: option.split)

definition field_char :: "char \<Rightarrow> bool" where
  "field_char c \<longleftrightarrow> c = NUL \<or> minmea_isfield c"

text \<open>A fixed-point value is a 31-bit magnitude; without a scale it is the missing value.\<close>

definition float_typed :: "minmea_float \<Rightarrow> bool" where
  "float_typed x \<longleftrightarrow> - INT_MAX \<le> fl_value x \<and> fl_value x \<le> INT_MAX \<and> in_i32 (fl_scale x) \<and>
     (fl_scale x = 0 \<longrightarrow> fl_value x = 0)"

definition two_digit :: "int \<Rightarrow> bool" where
  "two_digit n \<longleftrightarrow> - 1 \<le> n \<and> n \<le> 99"

definition date_typed :: "minmea_date \<Rightarrow> bool" where
  "date_typed d \<longleftrightarrow> two_digit (day d) \<and> two_digit (month d) \<and> two_digit (year d)"

definition time_typed :: "minmea_time \<Rightarrow> bool" where
  "time_typed t \<longleftrightarrow> two_digit (hours t) \<and> two_digit (minutes t) \<and> two_digit (seconds t) \<and>
     - 1 \<le> microseconds t \<and> microseconds t < 1000000"

fun val_typed :: "scan_val \<Rightarrow> bool" where
  "val_typed (SvChar c) \<longleftrightarrow> field_char c"
| "val_typed (SvDir d) \<longleftrightarrow> d \<in> {- 1, 0, 1}"
| "val_typed (SvFloat x) \<longleftrightarrow> float_typed x"
| "val_typed (SvInt n) \<longleftrightarrow> in_i32 n"
| "val_typed (SvStr s) \<longleftrightarrow> list_all minmea_isfield s"
| "val_typed (SvType s) \<longleftrightarrow> length s = 5 \<and> list_all minmea_isfield s"
| "val_typed (SvDate d) \<longleftrightarrow> date_typed d"
| "val_typed (SvTime t) \<longleftrightarrow> time_typed t"

section \<open>The conversions\<close>

lemma frac_loop_typed:
  assumes "frac_loop sg v sc s = Some (sg', v', sc')" "- 1 \<le> v" "v \<le> INT_MAX" "in_i32 sc" "sg \<in> {- 1, 0, 1}"
  shows "- 1 \<le> v' \<and> v' \<le> INT_MAX \<and> in_i32 sc' \<and> sg' \<in> {- 1, 0, 1}"
  using assms
proof (induction sg v sc s rule: frac_loop.induct)
  case (2 sg v sc c cs)
  define w where "w = (if v = - 1 then 0 else v)"
  have w: "0 \<le> w" "w \<le> INT_MAX" using 2(7,8) by (auto simp: w_def)
  consider "\<not> minmea_isfield c" | "minmea_isfield c" "c = CHR ''+'' \<and> sg = 0 \<and> v = - 1"
    | "minmea_isfield c" "c = CHR ''-'' \<and> sg = 0 \<and> v = - 1"
    | "minmea_isfield c" "isdigit c" | "minmea_isfield c" "c = CHR ''.''" "sc = 0" | "minmea_isfield c" "c = CHR '' ''"
    using 2(6) by (auto split: if_splits)
  then show ?case
  proof cases
    case 1
    then show ?thesis using 2(6-10) by simp
  next
    case 2
    then have e: "frac_loop 1 v sc cs = Some (sg', v', sc')" using "2.prems"(1) by simp
    show ?thesis by (rule "2.IH"(1) [OF _ _ e "2.prems"(2-4)]) (use 2 in simp_all)
  next
    case 3
    then have e: "frac_loop (- 1) v sc cs = Some (sg', v', sc')" using "2.prems"(1) by simp
    show ?thesis by (rule "2.IH"(2) [OF _ _ _ e "2.prems"(2-4)]) (use 3 in simp_all)
  next
    case 5
    have n: "\<not> isdigit (CHR ''.'')" "\<not> isdigit (CHR ''+'')" by (simp_all add: isdigit_def)
    have i: "in_i32 1" by (simp add: in_i32_def)
    have e: "frac_loop sg v 1 cs = Some (sg', v', sc')" using "2.prems"(1) 5 n by simp
    show ?thesis by (rule "2.IH"(4) [OF _ _ _ _ _ e "2.prems"(2,3) i "2.prems"(5)]) (use 5 n in simp_all)
  next
    case 6
    have n: "\<not> isdigit (CHR '' '')" by (simp add: isdigit_def)
    then have e: "frac_loop sg v sc cs = Some (sg', v', sc')" "\<not> (sg \<noteq> 0 \<or> v \<noteq> - 1 \<or> sc \<noteq> 0)"
      using "2.prems"(1) 6 by (simp_all split: if_splits)
    show ?thesis by (rule "2.IH"(5) [OF _ _ _ _ _ _ e(2,1) "2.prems"(2-5)]) (use 6 n in simp_all)
  next
    case 4
    have d: "0 \<le> int (digit_val c)" "int (digit_val c) < 10" using digit_val_less [OF 4(2)] by simp_all
    have n: "c \<noteq> CHR ''+''" "c \<noteq> CHR ''-''" using 4(2) by (auto simp: isdigit_def)
    show ?thesis
    proof (cases "w > (INT_MAX - int (digit_val c)) div 10")
      case True
      then have "sc \<noteq> 0" "sg' = sg" "v' = w" "sc' = sc"
        using 2(6) 4 n by (auto simp: w_def Let_def split: if_splits)
      then show ?thesis using w 2(9,10) by auto
    next
      case False
      then have le: "10 * w + int (digit_val c) \<le> INT_MAX" using d by linarith
      have e: "frac_loop sg (10 * w + int (digit_val c)) (if sc \<noteq> 0 then i32 (sc * 10) else sc) cs = Some (sg', v', sc')"
        using 2(6) 4 n False by (simp add: w_def Let_def)
      have i: "in_i32 (if sc \<noteq> 0 then i32 (sc * 10) else sc)" using 2(9) by (cases "sc = 0") simp_all
      show ?thesis
        by (rule 2(3) [OF _ _ _ _ refl w_def False e _ le i 2(10)]) (use 4 n w d in auto)
    qed
  qed
qed simp

lemma in_i32_small: "in_i32 0" "in_i32 1"
  by (simp_all add: in_i32_def)

lemma scan_frac_typed: "scan_frac field = Some x \<Longrightarrow> float_typed x"
proof -
  assume s: "scan_frac field = Some x"
  obtain sg v sc where l: "(case field of None \<Rightarrow> Some (0, - 1, 0) | Some s \<Rightarrow> frac_loop 0 (- 1) 0 s) = Some (sg, v, sc)"
    and x: "\<not> ((sg \<noteq> 0 \<or> sc \<noteq> 0) \<and> v = - 1)"
    "x = (let (v, sc) = (if v = - 1 then (0, 0) else if sc = 0 then (v, 1) else (v, sc));
        v' = (if sg \<noteq> 0 then i32 (v * sg) else v) in \<lparr>fl_value = v', fl_scale = sc\<rparr>)"
    using s by (auto simp: scan_frac_def bind_eq_Some_conv Let_def split: if_splits)
  have t: "- 1 \<le> v \<and> v \<le> INT_MAX \<and> in_i32 sc \<and> sg \<in> {- 1, 0, 1}"
    using l frac_loop_typed [of 0 "- 1" 0 _ sg v sc] by (auto simp: in_i32_def split: option.splits)
  then have "in_i32 (v * sg)" by (auto simp: in_i32_def)
  then have "i32 (v * sg) = v * sg" by simp
  then show ?thesis using x t by (auto simp: float_typed_def in_i32_small Let_def split: if_splits)
qed

lemma scan_int_typed: "scan_int field = Some n \<Longrightarrow> in_i32 n"
  using strtol_in_i32 [of 10] by (auto simp: scan_int_def in_i32_def Let_def case_prod_beta split: option.splits if_splits)

lemma two_digits_typed:
  assumes "six_digits s" "i < 5" shows "two_digit (two_digits s i)"
proof -
  have d: "isdigit (char_at s k)" if "k < 6" for k using assms(1) that by (simp add: six_digits_def list_all_iff)
  have c: "\<forall>c \<in> set [char_at s i, char_at s (i + 1)]. isdigit c" using d assms(2) by auto
  have "dec_val 0 [char_at s i, char_at s (i + 1)] \<le> 99"
    using digit_val_less [OF d [of i]] digit_val_less [OF d [of "i + 1"]] assms(2) by simp
  then show ?thesis using strtol_dec [OF _ c] by (simp add: two_digits_def two_digit_def)
qed

lemma micro_loop_typed: "0 < scale \<Longrightarrow> micro_loop v scale s = (v', sc') \<Longrightarrow> (v + 1) * scale \<le> m \<Longrightarrow> 0 < m \<Longrightarrow> v' * sc' < m"
proof (induction v scale s rule: micro_loop.induct)
  case (1 v scale)
  then show ?case by (auto simp: algebra_simps)
next
  case (2 v scale c cs)
  show ?case
  proof (cases "isdigit c \<and> scale > 1")
    case True
    have "digit_val c < 10" using True digit_val_less by blast
    have "scale div 10 * 10 \<le> scale" by simp
    then have "(v * 10 + digit_val c + 1) * (scale div 10) \<le> (v + 1) * scale"
    proof -
      have "(v * 10 + digit_val c + 1) * (scale div 10) \<le> (10 * (v + 1)) * (scale div 10)"
        by (rule mult_le_mono1) (use \<open>digit_val c < 10\<close> in simp)
      also have "\<dots> = (v + 1) * (scale div 10 * 10)" by (simp add: algebra_simps)
      also have "\<dots> \<le> (v + 1) * scale" by (rule mult_le_mono2) simp
      finally show ?thesis .
    qed
    then have le: "(v * 10 + digit_val c + 1) * (scale div 10) \<le> m" using 2(4) by linarith
    have r: "micro_loop (v * 10 + digit_val c) (scale div 10) cs = (v', sc')" using 2(3) True by simp
    show ?thesis
    proof (cases "0 < scale div 10")
      case True
      show ?thesis by (rule 2(1) [OF \<open>isdigit c \<and> scale > 1\<close> True r le 2(5)])
    next
      case False
      then have "sc' = 0" using r by (cases cs) (auto split: if_splits)
      then show ?thesis using 2(5) by simp
    qed
  next
    case False
    then have "v' = v" "sc' = scale" using 2(3) by auto
    then show ?thesis using 2(2,4) by (auto simp: algebra_simps)
  qed
qed

lemma scan_date_typed: "scan_date field = Some d \<Longrightarrow> date_typed d"
  by (auto simp: scan_date_def date_typed_def two_digits_typed split: option.splits if_splits) (auto simp: two_digit_def)

lemma scan_time_typed: "scan_time field = Some t \<Longrightarrow> time_typed t"
proof -
  have m: "- 1 \<le> int v * int sc \<and> int v * int sc < 1000000" if "micro_loop 0 1000000 s = (v, sc)" for s v sc
  proof -
    have "v * sc < 1000000" using micro_loop_typed [OF _ that, of 1000000] by simp
    then have "int (v * sc) < 1000000" "0 \<le> int (v * sc)" by linarith+
    then show ?thesis unfolding of_nat_mult by linarith
  qed
  have n: "two_digit (- 1)" by (simp add: two_digit_def)
  assume "scan_time field = Some t"
  then show ?thesis
    by (auto simp: scan_time_def time_typed_def two_digits_typed n Let_def dest!: m
        split: option.splits if_splits prod.splits)
qed

lemma scan_type_typed: "scan_type field = Some n \<Longrightarrow> length n = 5 \<and> list_all minmea_isfield n"
proof -
  assume "scan_type field = Some n"
  then obtain s where s: "field = Some s" "\<forall>f < 5. minmea_isfield (char_at s (1 + f))" "n = take 5 (tl s)"
    by (auto simp: scan_type_def list_all_iff split: option.splits if_splits)
  have nul: "\<not> minmea_isfield NUL" by (simp add: minmea_isfield_def isprint_def)
  have "minmea_isfield (char_at s (1 + 4))" using s(2) [rule_format, of 4] by simp
  then have "char_at s (1 + 4) \<noteq> NUL" using nul by metis
  then have l: "5 < length s" by (simp add: char_at_def split: if_splits)
  have "minmea_isfield (n ! k)" if "k < length n" for k
    using s(2) [rule_format, of k] that l by (simp add: s(3) char_at_def nth_tl)
  then show ?thesis using l by (simp add: s(3) list_all_length)
qed

section \<open>The scanner\<close>

lemma scan_one_typed:
  "scan_one c field = Some vs \<Longrightarrow>
     list_all val_typed vs \<and> map arg_type_of vs = (case conversion_type c of None \<Rightarrow> [] | Some t \<Rightarrow> [t])"
proof -
  have nul: "field_char NUL" by (simp add: field_char_def)
  assume "scan_one c field = Some vs"
  then show ?thesis
    using scan_frac_typed [of field] scan_int_typed [of field] scan_date_typed [of field] scan_time_typed [of field]
      scan_type_typed [of field] nul
    by (auto simp: scan_one_def scan_char_def scan_str_def scan_dir_def field_char_def list_all_iff
        dest: set_takeWhileD split: if_splits option.splits)
qed

lemma scan_go_typed:
  "scan_go fmt optional s field = (ok, vs) \<Longrightarrow>
     list_all val_typed vs \<and> map arg_type_of vs = take (length vs) (format_types fmt) \<and>
     (ok \<longrightarrow> length vs = length (format_types fmt))"
proof (induction fmt optional s field arbitrary: ok vs rule: scan_go.induct)
  case (2 c fmt optional s field)
  show ?case
  proof (cases "c = CHR '';''")
    case True
    then show ?thesis using 2 by simp
  next
    case semi: False
    show ?thesis
    proof (cases "(field = None \<and> \<not> optional) \<or> scan_one c field = None")
      case True
      then have "ok = False" "vs = []" using 2(3) semi by (auto split: if_splits)
      then show ?thesis by simp
    next
      case False
      then obtain ws where w: "scan_one c field = Some ws" by blast
      obtain s' f' where n: "next_field s = (s', f')" by fastforce
      obtain ok' rest where g: "scan_go fmt optional s' f' = (ok', rest)" by fastforce
      have v: "ok = ok'" "vs = ws @ rest" using 2(3) semi False w n g by (auto simp del: conversion_type.simps)
      have ih: "list_all val_typed rest \<and> map arg_type_of rest = take (length rest) (format_types fmt) \<and>
          (ok' \<longrightarrow> length rest = length (format_types fmt))"
        by (rule 2(2) [OF semi _ w refl n [symmetric] g]) (use False in auto)
      note o = scan_one_typed [OF w]
      have "length ws = length (map arg_type_of ws)" by simp
      then have l: "length ws = (case conversion_type c of None \<Rightarrow> 0 | Some t \<Rightarrow> 1)"
        using o by (auto simp del: conversion_type.simps split: option.splits)
      show ?thesis using o ih l unfolding v
        by (auto simp del: conversion_type.simps split: option.splits)
    qed
  qed
qed simp

text \<open>What \<open>minmea_scan\<close> stores fits its format, on success completely.\<close>

lemma minmea_scan_typed:
  assumes "minmea_scan sentence fmt = (ok, vs)"
  shows "list_all val_typed vs" "map arg_type_of vs = take (length vs) (format_types fmt)"
    "ok \<Longrightarrow> map arg_type_of vs = format_types fmt"
  using scan_go_typed [OF assms [unfolded minmea_scan_def]] by auto

section \<open>The records of the sentences\<close>

text \<open>A setter that keeps a record typed when the value is, and the stores of one call.\<close>

definition setter_ok :: "('f \<Rightarrow> bool) \<Rightarrow> (scan_val \<Rightarrow> 'f \<Rightarrow> 'f) \<Rightarrow> bool" where
  "setter_ok P s \<longleftrightarrow> (\<forall>v f. val_typed v \<longrightarrow> P f \<longrightarrow> P (s v f))"

lemma store_args_keeps:
  assumes "minmea_scan sentence fmt = (ok, vs)" "list_all (setter_ok P) ss" "P f"
  shows "P (store_args ss vs f)"
  using minmea_scan_typed(1) [OF assms(1)] assms(2,3)
  by (induction ss vs f rule: store_args.induct) (auto simp: setter_ok_def)

lemma dir_val_typed: "list_all val_typed vs \<Longrightarrow> k < length vs \<Longrightarrow> dir_val vs k \<in> {- 1, 0, 1}"
  by (auto simp: dir_val_def list_all_length split: scan_val.split)

lemma char_val_typed: "list_all val_typed vs \<Longrightarrow> k < length vs \<Longrightarrow> field_char (char_val vs k)"
  by (auto simp: char_val_def list_all_length field_char_def split: scan_val.split)

text \<open>The product with a direction does not overflow.\<close>

lemma scale_by_typed:
  assumes "float_typed x" "d \<in> {- 1, 0, 1}"
  shows "float_typed (scale_by d x)" "fl_value (scale_by d x) = fl_value x * d"
proof -
  have "in_i32 (fl_value x * d)" using assms by (auto simp: float_typed_def in_i32_def)
  then show e: "fl_value (scale_by d x) = fl_value x * d" by (simp add: scale_by_def)
  then show "float_typed (scale_by d x)" using assms by (auto simp: float_typed_def scale_by_def)
qed

definition rmc_typed :: "minmea_sentence_rmc \<Rightarrow> bool" where
  "rmc_typed f \<longleftrightarrow> time_typed (rmc_time f) \<and> float_typed (rmc_latitude f) \<and> float_typed (rmc_longitude f) \<and>
     float_typed (rmc_speed f) \<and> float_typed (rmc_course f) \<and> date_typed (rmc_date f) \<and> float_typed (rmc_variation f)"

definition gga_typed :: "minmea_sentence_gga \<Rightarrow> bool" where
  "gga_typed f \<longleftrightarrow> time_typed (gga_time f) \<and> float_typed (gga_latitude f) \<and> float_typed (gga_longitude f) \<and>
     in_i32 (gga_fix_quality f) \<and> in_i32 (gga_satellites_tracked f) \<and> float_typed (gga_hdop f) \<and>
     float_typed (gga_altitude f) \<and> field_char (gga_altitude_units f) \<and> float_typed (gga_height f) \<and>
     field_char (gga_height_units f) \<and> float_typed (gga_dgps_age f)"

definition gll_typed :: "minmea_sentence_gll \<Rightarrow> bool" where
  "gll_typed f \<longleftrightarrow> float_typed (gll_latitude f) \<and> float_typed (gll_longitude f) \<and> time_typed (gll_time f) \<and>
     field_char (gll_status f) \<and> field_char (gll_mode f)"

definition gst_typed :: "minmea_sentence_gst \<Rightarrow> bool" where
  "gst_typed f \<longleftrightarrow> time_typed (gst_time f) \<and> float_typed (gst_rms_deviation f) \<and>
     float_typed (gst_semi_major_deviation f) \<and> float_typed (gst_semi_minor_deviation f) \<and>
     float_typed (gst_semi_major_orientation f) \<and> float_typed (gst_latitude_error_deviation f) \<and>
     float_typed (gst_longitude_error_deviation f) \<and> float_typed (gst_altitude_error_deviation f)"

definition gsa_typed :: "minmea_sentence_gsa \<Rightarrow> bool" where
  "gsa_typed f \<longleftrightarrow> field_char (gsa_mode f) \<and> in_i32 (gsa_fix_type f) \<and> length (gsa_sats f) = 12 \<and>
     list_all in_i32 (gsa_sats f) \<and> float_typed (gsa_pdop f) \<and> float_typed (gsa_hdop f) \<and> float_typed (gsa_vdop f)"

definition sat_typed :: "minmea_sat_info \<Rightarrow> bool" where
  "sat_typed i \<longleftrightarrow> in_i32 (sat_nr i) \<and> in_i32 (sat_elevation i) \<and> in_i32 (sat_azimuth i) \<and> in_i32 (sat_snr i)"

definition gsv_typed :: "minmea_sentence_gsv \<Rightarrow> bool" where
  "gsv_typed f \<longleftrightarrow> in_i32 (gsv_total_msgs f) \<and> in_i32 (gsv_msg_nr f) \<and> in_i32 (gsv_total_sats f) \<and>
     length (gsv_sats f) = 4 \<and> list_all sat_typed (gsv_sats f)"

definition vtg_typed :: "minmea_sentence_vtg \<Rightarrow> bool" where
  "vtg_typed f \<longleftrightarrow> float_typed (vtg_true_track_degrees f) \<and> float_typed (vtg_magnetic_track_degrees f) \<and>
     float_typed (vtg_speed_knots f) \<and> float_typed (vtg_speed_kph f) \<and> field_char (vtg_faa_mode f)"

definition zda_typed :: "minmea_sentence_zda \<Rightarrow> bool" where
  "zda_typed f \<longleftrightarrow> time_typed (zda_time f) \<and> in_i32 (day (zda_date f)) \<and> in_i32 (month (zda_date f)) \<and>
     in_i32 (year (zda_date f)) \<and> in_i32 (zda_hour_offset f) \<and> in_i32 (zda_minute_offset f)"

lemmas record_typed_defs = rmc_typed_def gga_typed_def gll_typed_def gst_typed_def gsa_typed_def sat_typed_def
  gsv_typed_def vtg_typed_def zda_typed_def

lemma set_local [simp]: "setter_ok P local_arg"
  by (simp add: setter_ok_def local_arg_def)

lemma setter_args:
  "(\<And>x f. time_typed x \<Longrightarrow> P f \<Longrightarrow> P (u1 (\<lambda>_. x) f)) \<Longrightarrow> setter_ok P (time_arg u1)"
  "(\<And>x f. date_typed x \<Longrightarrow> P f \<Longrightarrow> P (u2 (\<lambda>_. x) f)) \<Longrightarrow> setter_ok P (date_arg u2)"
  "(\<And>x f. float_typed x \<Longrightarrow> P f \<Longrightarrow> P (u3 (\<lambda>_. x) f)) \<Longrightarrow> setter_ok P (float_arg u3)"
  "(\<And>x f. in_i32 x \<Longrightarrow> P f \<Longrightarrow> P (u4 (\<lambda>_. x) f)) \<Longrightarrow> setter_ok P (int_arg u4)"
  "(\<And>x f. field_char x \<Longrightarrow> P f \<Longrightarrow> P (u5 (\<lambda>_. x) f)) \<Longrightarrow> setter_ok P (char_arg u5)"
  by (auto simp: setter_ok_def time_arg_def date_arg_def float_arg_def int_arg_def char_arg_def split: scan_val.split)

lemma list_all_update: "list_all Q l \<Longrightarrow> (k < length l \<Longrightarrow> Q x) \<Longrightarrow> list_all Q (l[k := x])"
  by (cases "k < length l") (auto simp: list_all_length nth_list_update)

text \<open>After a successful scan the local variables have values of their types.\<close>

lemma locals_typed:
  assumes "minmea_scan sentence fmt = (ok, vs)" ok "k < length (format_types fmt)"
  shows "dir_val vs k \<in> {- 1, 0, 1}" "field_char (char_val vs k)"
proof -
  note T = minmea_scan_typed [OF assms(1)]
  have "k < length vs" using arg_cong [OF T(3) [OF assms(2)], of length] assms(3) by simp
  then show "dir_val vs k \<in> {- 1, 0, 1}" "field_char (char_val vs k)"
    using dir_val_typed [OF T(1)] char_val_typed [OF T(1)] by simp_all
qed

lemma list_all_modify: "list_all Q l \<Longrightarrow> (\<And>x. Q x \<Longrightarrow> Q (g x)) \<Longrightarrow> list_all Q (l[k := g (l ! k)])"
  by (rule list_all_update) (auto simp: list_all_length)

lemma parse_rmc_typed: "rmc_typed f \<Longrightarrow> rmc_typed (snd (minmea_parse_rmc f s))"
proof -
  assume f: "rmc_typed f"
  obtain ok vs where v: "minmea_scan s ''tTcfdfdffDfd'' = (ok, vs)" by fastforce
  have g: "rmc_typed (store_args
      ([local_arg, time_arg rmc_time_update, local_arg, float_arg rmc_latitude_update, local_arg,
      float_arg rmc_longitude_update, local_arg, float_arg rmc_speed_update, float_arg
      rmc_course_update, date_arg rmc_date_update, float_arg rmc_variation_update, local_arg]) vs f)"
    by (rule store_args_keeps [where P = rmc_typed, OF v _ f]) (auto intro!: setter_args list_all_update simp: rmc_typed_def)
  show ?thesis
  proof (cases ok)
    case True
    note L = locals_typed [OF v True]
    show ?thesis using g scale_by_typed(1) [OF _ L(1)]
      by (auto simp: minmea_parse_rmc_def v rmc_typed_def Let_def)
  qed (use g in \<open>simp add: minmea_parse_rmc_def v\<close>)
qed

lemma parse_gga_typed: "gga_typed f \<Longrightarrow> gga_typed (snd (minmea_parse_gga f s))"
proof -
  assume f: "gga_typed f"
  obtain ok vs where v: "minmea_scan s ''tTfdfdiiffcfcf_'' = (ok, vs)" by fastforce
  have g: "gga_typed (store_args
      ([local_arg, time_arg gga_time_update, float_arg gga_latitude_update, local_arg, float_arg
      gga_longitude_update, local_arg, int_arg gga_fix_quality_update, int_arg
      gga_satellites_tracked_update, float_arg gga_hdop_update, float_arg gga_altitude_update,
      char_arg gga_altitude_units_update, float_arg gga_height_update, char_arg
      gga_height_units_update, float_arg gga_dgps_age_update]) vs f)"
    by (rule store_args_keeps [where P = gga_typed, OF v _ f]) (auto intro!: setter_args list_all_update simp: gga_typed_def)
  show ?thesis
  proof (cases ok)
    case True
    note L = locals_typed [OF v True]
    show ?thesis using g scale_by_typed(1) [OF _ L(1)]
      by (auto simp: minmea_parse_gga_def v gga_typed_def Let_def)
  qed (use g in \<open>simp add: minmea_parse_gga_def v\<close>)
qed

lemma gsa_sats_ok: "list_all (setter_ok gsa_typed) (map gsa_sat_arg ks)"
proof -
  have "setter_ok gsa_typed (gsa_sat_arg k)" for k unfolding gsa_sat_arg_def
    by (rule setter_args) (auto intro!: list_all_update simp: gsa_typed_def)
  then show ?thesis by (simp add: list_all_iff)
qed

lemma parse_gsa_typed: "gsa_typed f \<Longrightarrow> gsa_typed (snd (minmea_parse_gsa f s))"
proof -
  assume f: "gsa_typed f"
  obtain ok vs where v: "minmea_scan s ''tciiiiiiiiiiiiifff'' = (ok, vs)" by fastforce
  have g: "gsa_typed (store_args
      ([local_arg, char_arg gsa_mode_update, int_arg gsa_fix_type_update] @ map gsa_sat_arg [0..<12] @
      [float_arg gsa_pdop_update, float_arg gsa_hdop_update, float_arg gsa_vdop_update]) vs f)"
    by (rule store_args_keeps [where P = gsa_typed, OF v _ f]) (auto intro!: setter_args list_all_update simp: gsa_typed_def gsa_sats_ok)
  show ?thesis using g by (auto simp: minmea_parse_gsa_def v Let_def)
qed

lemma parse_gll_typed: "gll_typed f \<Longrightarrow> gll_typed (snd (minmea_parse_gll f s))"
proof -
  assume f: "gll_typed f"
  obtain ok vs where v: "minmea_scan s ''tfdfdTc;c'' = (ok, vs)" by fastforce
  have g: "gll_typed (store_args
      ([local_arg, float_arg gll_latitude_update, local_arg, float_arg gll_longitude_update, local_arg,
      time_arg gll_time_update, char_arg gll_status_update, char_arg gll_mode_update]) vs f)"
    by (rule store_args_keeps [where P = gll_typed, OF v _ f]) (auto intro!: setter_args list_all_update simp: gll_typed_def)
  show ?thesis
  proof (cases ok)
    case True
    note L = locals_typed [OF v True]
    show ?thesis using g scale_by_typed(1) [OF _ L(1)]
      by (auto simp: minmea_parse_gll_def v gll_typed_def Let_def)
  qed (use g in \<open>simp add: minmea_parse_gll_def v\<close>)
qed

lemma parse_gst_typed: "gst_typed f \<Longrightarrow> gst_typed (snd (minmea_parse_gst f s))"
proof -
  assume f: "gst_typed f"
  obtain ok vs where v: "minmea_scan s ''tTfffffff'' = (ok, vs)" by fastforce
  have g: "gst_typed (store_args
      ([local_arg, time_arg gst_time_update, float_arg gst_rms_deviation_update, float_arg
      gst_semi_major_deviation_update, float_arg gst_semi_minor_deviation_update, float_arg
      gst_semi_major_orientation_update, float_arg gst_latitude_error_deviation_update, float_arg
      gst_longitude_error_deviation_update, float_arg gst_altitude_error_deviation_update]) vs f)"
    by (rule store_args_keeps [where P = gst_typed, OF v _ f]) (auto intro!: setter_args list_all_update simp: gst_typed_def)
  show ?thesis using g by (auto simp: minmea_parse_gst_def v Let_def)
qed

lemma gsv_sats_ok: "list_all (setter_ok gsv_typed) (concat (map gsv_sat_args ks))"
proof -
  have u: "gsv_typed (gsv_sats_update (\<lambda>l. l[k := g (l ! k)]) f)"
    if "\<And>i. sat_typed i \<Longrightarrow> sat_typed (g i)" "gsv_typed f" for k g f
    using that by (simp add: gsv_typed_def list_all_modify)
  have "list_all (setter_ok gsv_typed) (gsv_sat_args k)" for k
    by (auto intro!: setter_args u simp: gsv_sat_args_def gsv_sat_arg_def sat_typed_def)
  then show ?thesis by (simp add: list_all_iff)
qed

lemma parse_gsv_typed: "gsv_typed f \<Longrightarrow> gsv_typed (snd (minmea_parse_gsv f s))"
proof -
  assume f: "gsv_typed f"
  obtain ok vs where v: "minmea_scan s ''tiii;iiiiiiiiiiiiiiii'' = (ok, vs)" by fastforce
  have g: "gsv_typed (store_args
      ([local_arg, int_arg gsv_total_msgs_update, int_arg gsv_msg_nr_update, int_arg
      gsv_total_sats_update] @ concat (map gsv_sat_args [0..<4])) vs f)"
    by (rule store_args_keeps [where P = gsv_typed, OF v _ f]) (auto intro!: setter_args list_all_update simp: gsv_typed_def gsv_sats_ok)
  show ?thesis using g by (auto simp: minmea_parse_gsv_def v Let_def)
qed

lemma parse_vtg_typed: "vtg_typed f \<Longrightarrow> vtg_typed (snd (minmea_parse_vtg f s))"
proof -
  assume f: "vtg_typed f"
  obtain ok vs where v: "minmea_scan s ''tfcfcfcfc;c'' = (ok, vs)" by fastforce
  have g: "vtg_typed (store_args
      ([local_arg, float_arg vtg_true_track_degrees_update, local_arg, float_arg
      vtg_magnetic_track_degrees_update, local_arg, float_arg vtg_speed_knots_update, local_arg,
      float_arg vtg_speed_kph_update, local_arg, local_arg]) vs f)"
    by (rule store_args_keeps [where P = vtg_typed, OF v _ f]) (auto intro!: setter_args list_all_update simp: vtg_typed_def)
  show ?thesis
  proof (cases ok)
    case True
    note L = locals_typed [OF v True]
    show ?thesis using g L(2) [of 9] by (auto simp: minmea_parse_vtg_def v vtg_typed_def Let_def)
  qed (use g in \<open>simp add: minmea_parse_vtg_def v\<close>)
qed

lemma parse_zda_typed: "zda_typed f \<Longrightarrow> zda_typed (snd (minmea_parse_zda f s))"
proof -
  assume f: "zda_typed f"
  obtain ok vs where v: "minmea_scan s ''tTiiiii'' = (ok, vs)" by fastforce
  have g: "zda_typed (store_args
      ([local_arg, time_arg zda_time_update, zda_date_arg day_update, zda_date_arg month_update,
      zda_date_arg year_update, int_arg zda_hour_offset_update, int_arg zda_minute_offset_update]) vs f)"
    by (rule store_args_keeps [where P = zda_typed, OF v _ f]) (auto intro!: setter_args list_all_update simp: zda_typed_def zda_date_arg_def)
  show ?thesis using g by (auto simp: minmea_parse_zda_def v Let_def)
qed

section \<open>The position data\<close>

definition info_typed :: "GPS_Info_t \<Rightarrow> bool" where
  "info_typed i \<longleftrightarrow> rmc_typed (gi_rmc i) \<and> list_all gsa_typed (gi_gsa i) \<and> gga_typed (gi_gga i) \<and>
     gll_typed (gi_gll i) \<and> gst_typed (gi_gst i) \<and> list_all gsv_typed (gi_gsv i) \<and> vtg_typed (gi_vtg i) \<and>
     zda_typed (gi_zda i)"

lemma zero_info_typed: "info_typed zero_info"
  by (simp add: info_typed_def zero_info_def record_typed_defs zero_float_def zero_time_def zero_date_def
      zero_sat_def float_typed_def time_typed_def date_typed_def two_digit_def field_char_def in_i32_def list_all_length)

lemmas parse_typed = parse_rmc_typed parse_gga_typed parse_gsa_typed parse_gll_typed parse_gst_typed
  parse_gsv_typed parse_vtg_typed parse_zda_typed

lemma ParseOneNmea_typed:
  assumes "info_typed (g_gps_info st)"
  shows "info_typed (g_gps_info (snd (ParseOneNmea line f st)))"
proof -
  have "info_typed (g_gps_info (new_frame f st))" using assms by (simp add: new_frame_def)
  then show ?thesis
    by (auto intro: list_all_modify [where Q = gsa_typed] list_all_modify [where Q = gsv_typed] parse_typed
        simp: ParseOneNmea_def info_typed_def set_info_def Let_def split: minmea_sentence_id.split)
qed

lemma GPS_Parse_typed:
  assumes "info_typed (g_gps_info st)"
  shows "info_typed (g_gps_info (snd (GPS_Parse text st)))"
proof -
  have "info_typed (g_gps_info (snd (parse_frames False text st)))"
    by (rule parse_frames_keeps [where P = "\<lambda>st. info_typed (g_gps_info st)", OF ParseOneNmea_typed assms])
  then show ?thesis by (simp add: GPS_Parse_def case_prod_beta Let_def)
qed

definition received :: "cstr list \<Rightarrow> parse_state" where
  "received texts = fold (\<lambda>t st. snd (GPS_Parse t st)) texts parse_init"

lemma received_info_typed: "info_typed (g_gps_info (received texts))"
proof -
  have "info_typed (g_gps_info st) \<Longrightarrow> info_typed (g_gps_info (fold (\<lambda>t st. snd (GPS_Parse t st)) texts st))" for st
    by (induction texts arbitrary: st) (simp_all add: GPS_Parse_typed)
  then show ?thesis by (simp add: received_def parse_init_def zero_info_typed)
qed

text \<open>C13. The untyped variadic arguments of \<open>minmea_scan\<close> are filled as its format says, for every
  sentence and every format: what is stored is one value per conversion character, in order, of
  the kind of that character and in its range (a number fits 32 bits, a fixed-point value has a
  31-bit magnitude and no value without a scale, a date and a time have two-digit fields or \<open>- 1\<close>,
  and less than a million microseconds, a direction is \<open>- 1\<close>, \<open>0\<close> or \<open>1\<close>, the kind of a sentence has five
  field characters). So whatever texts the receiver sends, garbage and truncated sentences
  included, every record of the position data keeps the types and ranges its readers rely on.\<close>

theorem received_typed:
  "list_all val_typed (snd (minmea_scan sentence fmt)) \<and>
   map arg_type_of (snd (minmea_scan sentence fmt)) = take (length (snd (minmea_scan sentence fmt))) (format_types fmt) \<and>
   info_typed (Gps_GetInfo (received texts))"
  using minmea_scan_typed [of sentence fmt] received_info_typed by (cases "minmea_scan sentence fmt") (auto simp: Gps_GetInfo_def)

end
