(* ===== verification/Shared_Record.thy ===== *)
theory Shared_Record
  imports Tracker
begin

text \<open>
  The position record between two tasks. \<open>gps_Process\<close> of \<open>app/src/gps_tracker.c\<close> runs in the
  event task and fills the global \<open>GpsTrackerData\<close> by one assignment per field;
  \<open>gps_trackerTask\<close> reads the fields as the arguments of its \<open>snprintf\<close>, in an order C leaves
  open. No lock orders the two. The assignments and the reads are the steps here, each one
  atomic, in any interleaving; the other theories take \<open>gps_Process\<close> as one step, which the
  assignments are shown to refine.
\<close>

section \<open>Steps of the two tasks\<close>

type_synonym assignment = "GpsTrackerData_t \<Rightarrow> GpsTrackerData_t"

text \<open>The assignments of \<open>gps_Process\<close> in their order.\<close>

definition process_writes :: "t_Config \<Rightarrow> int \<Rightarrow> GPS_Info_t \<Rightarrow> assignment list option" where
  "process_writes cfg now gpsInfo =
     Option.bind (mk_time (rmc_date (gi_rmc gpsInfo)) (rmc_time (gi_rmc gpsInfo))) (\<lambda>timestamp.
     Option.bind (minmea_tocoord (rmc_latitude (gi_rmc gpsInfo))) (\<lambda>latitude.
     Option.bind (minmea_tocoord (rmc_longitude (gi_rmc gpsInfo))) (\<lambda>longitude.
       Some ([td_timestamp_update (\<lambda>_. timestamp),
              td_latitude_update (\<lambda>_. latitude),
              td_longitude_update (\<lambda>_. longitude),
              td_speed_update (\<lambda>_. minmea_tofloat (rmc_speed (gi_rmc gpsInfo))),
              td_bearing_update (\<lambda>_. minmea_tofloat (rmc_course (gi_rmc gpsInfo))),
              td_altitude_update (\<lambda>_. minmea_tofloat (gga_altitude (gi_gga gpsInfo))),
              td_accuracy_update (\<lambda>_. f32_mul (minmea_tofloat (gsa_hdop (gi_gsa gpsInfo ! 0))) (gps_uere cfg))] @
             (if \<not> rmc_valid (gi_rmc gpsInfo) then [td_timestamp_update (\<lambda>_. now)] else [])))))"

datatype data_field = FTimestamp | FLatitude | FLongitude | FSpeed | FBearing | FAltitude | FAccuracy

text \<open>Reading an argument: the value of one field of the shared record goes into the report.\<close>

fun read_field :: "data_field \<Rightarrow> GpsTrackerData_t \<Rightarrow> GpsTrackerData_t \<Rightarrow> GpsTrackerData_t" where
  "read_field FTimestamp d c = c\<lparr>td_timestamp := td_timestamp d\<rparr>"
| "read_field FLatitude d c = c\<lparr>td_latitude := td_latitude d\<rparr>"
| "read_field FLongitude d c = c\<lparr>td_longitude := td_longitude d\<rparr>"
| "read_field FSpeed d c = c\<lparr>td_speed := td_speed d\<rparr>"
| "read_field FBearing d c = c\<lparr>td_bearing := td_bearing d\<rparr>"
| "read_field FAltitude d c = c\<lparr>td_altitude := td_altitude d\<rparr>"
| "read_field FAccuracy d c = c\<lparr>td_accuracy := td_accuracy d\<rparr>"

text \<open>The shared record, what the writer has left to assign, what the reader has left to read,
  and the arguments read so far.\<close>

record shared =
  sh_data :: GpsTrackerData_t
  sh_writes :: "assignment list"
  sh_reads :: "data_field list"
  sh_args :: GpsTrackerData_t

inductive sh_step :: "shared \<Rightarrow> shared \<Rightarrow> bool" where
  event_task: "sh_writes s = w # ws \<Longrightarrow> sh_step s (s\<lparr>sh_data := w (sh_data s), sh_writes := ws\<rparr>)"
| tracker_task: "sh_reads s = f # fs \<Longrightarrow>
    sh_step s (s\<lparr>sh_args := read_field f (sh_data s) (sh_args s), sh_reads := fs\<rparr>)"

abbreviation sh_run :: "shared \<Rightarrow> shared \<Rightarrow> bool" where
  "sh_run \<equiv> sh_step\<^sup>*\<^sup>*"

text \<open>The reports that a run of both tasks can end with; the arguments start undefined.\<close>

definition report_of :: "GpsTrackerData_t \<Rightarrow> assignment list \<Rightarrow> data_field list \<Rightarrow> GpsTrackerData_t \<Rightarrow>
    GpsTrackerData_t \<Rightarrow> bool" where
  "report_of old ws fs undef c \<longleftrightarrow>
     (\<exists>s. sh_run \<lparr>sh_data = old, sh_writes = ws, sh_reads = fs, sh_args = undef\<rparr> s \<and>
        sh_reads s = [] \<and> sh_args s = c)"

section \<open>The assignments refine the handler\<close>

definition assign_all :: "assignment list \<Rightarrow> GpsTrackerData_t \<Rightarrow> GpsTrackerData_t" where
  "assign_all ws d = fold (\<lambda>w. w) ws d"

lemma assign_all_simps [simp]: "assign_all [] d = d" "assign_all (w # ws) d = assign_all ws (w d)"
  by (simp_all add: assign_all_def)

lemma gps_Process_assignments:
  "gps_Process cfg now gi = map_option (\<lambda>ws. assign_all ws old) (process_writes cfg now gi)"
  by (auto simp: gps_Process_def process_writes_def Let_def split: bind_splits)

section \<open>Which reports there are\<close>

text \<open>The record after the first \<open>k\<close> assignments, and the arguments when the fields are read at
  the stages \<open>ks\<close>.\<close>

definition stage :: "GpsTrackerData_t \<Rightarrow> assignment list \<Rightarrow> nat \<Rightarrow> GpsTrackerData_t" where
  "stage old ws k = assign_all (take k ws) old"

definition read_at :: "GpsTrackerData_t \<Rightarrow> assignment list \<Rightarrow> data_field list \<Rightarrow> nat list \<Rightarrow>
    GpsTrackerData_t \<Rightarrow> GpsTrackerData_t" where
  "read_at old ws fs ks c = fold (\<lambda>(f, k). read_field f (stage old ws k)) (zip fs ks) c"

lemma stage_0 [simp]: "stage old ws 0 = old"
  by (simp add: stage_def)

lemma stage_Suc: "k < length ws \<Longrightarrow> stage old ws (Suc k) = (ws ! k) (stage old ws k)"
  by (simp add: stage_def take_Suc_conv_app_nth assign_all_def)

lemma stage_add: "stage old ws (j + k) = stage (stage old ws j) (drop j ws) k"
  by (simp add: stage_def assign_all_def take_add)

lemma read_at_snoc:
  "length ks < length fs \<Longrightarrow> read_at old ws fs (ks @ [k]) c =
     read_field (fs ! length ks) (stage old ws k) (read_at old ws fs ks c)"
  using take_zip [of "length ks" fs ks]
  by (simp add: read_at_def zip_append2 Cons_nth_drop_Suc [symmetric])

text \<open>The invariant of a run: the record is at a stage \<open>k\<close> of the assignments, and what was read was
  read at earlier stages, in increasing order.\<close>

lemma run_stages:
  assumes "sh_run \<lparr>sh_data = old, sh_writes = ws, sh_reads = fs, sh_args = c\<rparr> s"
  shows "\<exists>k ks. k \<le> length ws \<and> sh_data s = stage old ws k \<and> sh_writes s = drop k ws \<and>
    length ks \<le> length fs \<and> sh_reads s = drop (length ks) fs \<and> sorted (ks @ [k]) \<and>
    sh_args s = read_at old ws fs ks c"
  using assms
proof (induction rule: rtranclp_induct)
  case base
  show ?case by (rule exI [of _ 0], rule exI [of _ "[]"]) (simp add: read_at_def)
next
  case (step s s')
  obtain k ks where i: "k \<le> length ws" "sh_data s = stage old ws k" "sh_writes s = drop k ws"
    "length ks \<le> length fs" "sh_reads s = drop (length ks) fs" "sorted (ks @ [k])" "sh_args s = read_at old ws fs ks c"
    using step.IH by blast
  from step.hyps(2) show ?case
  proof cases
    case (event_task w us)
    then have d: "drop k ws = w # us" using i(3) by simp
    have k: "k < length ws" using d by (cases "k < length ws") auto
    have w: "ws ! k = w" "drop (Suc k) ws = us" using d k by (metis Cons_nth_drop_Suc list.inject)+
    show ?thesis
      by (rule exI [of _ "Suc k"], rule exI [of _ ks])
        (use i k w in \<open>auto simp: event_task(1) stage_Suc sorted_append intro: le_SucI\<close>)
  next
    case (tracker_task f us)
    then have d: "drop (length ks) fs = f # us" using i(5) by simp
    have l: "length ks < length fs" using d by (cases "length ks < length fs") auto
    have f: "fs ! length ks = f" "drop (Suc (length ks)) fs = us" using d l by (metis Cons_nth_drop_Suc list.inject)+
    show ?thesis
      by (rule exI [of _ k], rule exI [of _ "ks @ [k]"])
        (use i l f in \<open>auto simp: tracker_task(1) read_at_snoc sorted_append\<close>)
  qed
qed

lemma run_writes: "sh_writes s = us @ vs \<Longrightarrow> sh_run s (s\<lparr>sh_data := assign_all us (sh_data s), sh_writes := vs\<rparr>)"
proof (induction us arbitrary: s)
  case Nil
  then show ?case by (cases s) simp
next
  case (Cons w us)
  let ?t = "s\<lparr>sh_data := w (sh_data s), sh_writes := us @ vs\<rparr>"
  have "sh_step s ?t" by (rule event_task) (use Cons.prems in simp)
  moreover have "sh_run ?t (?t\<lparr>sh_data := assign_all us (sh_data ?t), sh_writes := vs\<rparr>)" by (rule Cons.IH) simp
  ultimately show ?case by (simp add: converse_rtranclp_into_rtranclp)
qed

text \<open>Each increasing sequence of stages is taken by a run.\<close>

lemma stages_run:
  assumes "sorted (j # ks)" "\<forall>k \<in> set ks. k \<le> length ws" "length ks = length fs" "j \<le> length ws"
  shows "\<exists>s. sh_run \<lparr>sh_data = stage old ws j, sh_writes = drop j ws, sh_reads = fs, sh_args = c\<rparr> s \<and>
    sh_reads s = [] \<and> sh_args s = read_at old ws fs ks c"
  using assms
proof (induction ks arbitrary: j fs c)
  case Nil
  then show ?case by (auto simp: read_at_def)
next
  case (Cons k ks)
  obtain f gs where fs: "fs = f # gs" using Cons.prems(3) by (cases fs) auto
  have jk: "j \<le> k" "k \<le> length ws" "sorted (k # ks)" using Cons.prems(1,2) by auto
  let ?c = "read_field f (stage old ws k) c"
  let ?s = "\<lparr>sh_data = stage old ws j, sh_writes = drop j ws, sh_reads = fs, sh_args = c\<rparr>"
  let ?t = "\<lparr>sh_data = stage old ws k, sh_writes = drop k ws, sh_reads = fs, sh_args = c\<rparr>"
  have "drop j ws = take (k - j) (drop j ws) @ drop k ws" using jk
    by (metis append_take_drop_id drop_drop le_add_diff_inverse2)
  moreover have "assign_all (take (k - j) (drop j ws)) (stage old ws j) = stage old ws k"
    using stage_add [of old ws j "k - j"] jk by (simp add: stage_def)
  ultimately have "sh_run ?s ?t" using run_writes [of ?s "take (k - j) (drop j ws)" "drop k ws"] by simp
  moreover have "sh_step ?t (?t\<lparr>sh_args := ?c, sh_reads := gs\<rparr>)" using tracker_task [of ?t f gs] fs by simp
  moreover obtain s where "sh_run (?t\<lparr>sh_args := ?c, sh_reads := gs\<rparr>) s" "sh_reads s = []"
    "sh_args s = read_at old ws gs ks ?c"
    using Cons.IH [of k gs ?c] Cons.prems(2,3) jk fs by auto
  ultimately have "sh_run ?s s \<and> sh_reads s = [] \<and> sh_args s = read_at old ws fs (k # ks) c"
    by (simp add: fs read_at_def)
  then show ?case by blast
qed

text \<open>The reports are exactly the reads at increasing stages.\<close>

lemma report_of_iff:
  "report_of old ws fs undef c \<longleftrightarrow>
     (\<exists>ks. length ks = length fs \<and> sorted ks \<and> (\<forall>k \<in> set ks. k \<le> length ws) \<and> c = read_at old ws fs ks undef)"
proof
  assume "report_of old ws fs undef c"
  then obtain s where s: "sh_run \<lparr>sh_data = old, sh_writes = ws, sh_reads = fs, sh_args = undef\<rparr> s"
    "sh_reads s = []" "sh_args s = c" by (auto simp: report_of_def)
  show "\<exists>ks. length ks = length fs \<and> sorted ks \<and> (\<forall>k \<in> set ks. k \<le> length ws) \<and> c = read_at old ws fs ks undef"
    using run_stages [OF s(1)] s(2,3) by (fastforce simp: sorted_append)
next
  assume "\<exists>ks. length ks = length fs \<and> sorted ks \<and> (\<forall>k \<in> set ks. k \<le> length ws) \<and> c = read_at old ws fs ks undef"
  then obtain ks where ks: "length ks = length fs" "sorted ks" "\<forall>k \<in> set ks. k \<le> length ws"
    "c = read_at old ws fs ks undef" by blast
  show "report_of old ws fs undef c"
    using stages_run [of 0 ks ws fs old undef] ks by (auto simp: report_of_def)
qed

section \<open>What a report can hold\<close>

fun field_of :: "data_field \<Rightarrow> GpsTrackerData_t \<Rightarrow> int + fpv" where
  "field_of FTimestamp d = Inl (td_timestamp d)"
| "field_of FLatitude d = Inr (td_latitude d)"
| "field_of FLongitude d = Inr (td_longitude d)"
| "field_of FSpeed d = Inr (td_speed d)"
| "field_of FBearing d = Inr (td_bearing d)"
| "field_of FAltitude d = Inr (td_altitude d)"
| "field_of FAccuracy d = Inr (td_accuracy d)"

lemma field_of_read: "field_of f (read_field g d c) = (if f = g then field_of f d else field_of f c)"
  by (cases f; cases g) simp_all

lemma field_of_eqI: "(\<And>f. field_of f c = field_of f d) \<Longrightarrow> c = d"
  using field_of.simps by (metis GpsTrackerData_t.equality old.unit.exhaust sum.inject)

text \<open>Each field of the arguments is the field at one of the stages read.\<close>

lemma field_of_read_at:
  assumes "length ks = length fs"
  shows "(f \<notin> set fs \<and> field_of f (read_at old ws fs ks c) = field_of f c) \<or>
     (\<exists>k \<in> set ks. field_of f (read_at old ws fs ks c) = field_of f (stage old ws k))"
  using assms
proof (induction fs arbitrary: ks c)
  case Nil
  then show ?case by (simp add: read_at_def)
next
  case (Cons g fs)
  obtain k ks' where ks: "ks = k # ks'" "length ks' = length fs" using Cons.prems by (cases ks) auto
  have r: "read_at old ws (g # fs) ks c = read_at old ws fs ks' (read_field g (stage old ws k) c)"
    by (simp add: read_at_def ks)
  show ?case
    using Cons.IH [OF ks(2), of "read_field g (stage old ws k) c"] unfolding r
    by (auto simp: field_of_read ks(1) split: if_splits)
qed

lemma report_fields:
  assumes "report_of old ws fs undef c" "f \<in> set fs"
  shows "\<exists>k \<le> length ws. field_of f c = field_of f (stage old ws k)"
  using assms field_of_read_at [of _ fs f old ws undef] unfolding report_of_iff by blast

text \<open>When the writer rests while the reader reads, the report is one stage, in any order of the reads.\<close>

lemma report_stage:
  assumes "k \<le> length ws" "set fs = UNIV"
  shows "report_of old ws fs undef (stage old ws k)"
proof -
  let ?ks = "replicate (length fs) k"
  have "field_of f (read_at old ws fs ?ks undef) = field_of f (stage old ws k)" for f
    using field_of_read_at [of ?ks fs f old ws undef] assms(2) by auto
  then have "read_at old ws fs ?ks undef = stage old ws k" by (rule field_of_eqI)
  then show ?thesis unfolding report_of_iff
    by (intro exI [of _ ?ks]) (use assms(1) in \<open>auto simp: sorted_replicate\<close>)
qed

lemma nat_le8: "k \<le> (8 :: nat) \<longleftrightarrow> k \<in> {0, 1, 2, 3, 4, 5, 6, 7, 8}"
  by auto

text \<open>The values the fields have while \<open>gps_Process\<close> runs.\<close>

lemma stage_fields:
  assumes "process_writes cfg now gi = Some ws" "assign_all ws old = new" "k \<le> length ws"
    "mk_time (rmc_date (gi_rmc gi)) (rmc_time (gi_rmc gi)) = Some t"
  shows "field_of f (stage old ws k) \<in> {field_of f old, field_of f new} \<or>
     f = FTimestamp \<and> field_of f (stage old ws k) = Inl t"
proof -
  obtain la lo where l: "minmea_tocoord (rmc_latitude (gi_rmc gi)) = Some la"
    "minmea_tocoord (rmc_longitude (gi_rmc gi)) = Some lo"
    using assms(1,4) by (auto simp: process_writes_def bind_eq_Some_conv)
  note w = assms(1) [unfolded process_writes_def l assms(4) bind.bind_lunit option.inject, symmetric]
  have "length ws \<le> 8" by (simp add: w)
  then have "k \<le> 8" using assms(3) by linarith
  then have "k \<in> {0, 1, 2, 3, 4, 5, 6, 7, 8}" by (rule nat_le8 [THEN iffD1])
  then show ?thesis unfolding assms(2) [symmetric] w
    by (cases f; cases "rmc_valid (gi_rmc gi)") (auto simp: stage_def)
qed

text \<open>C5. The position record is not updated in one step, and a report can mix two positions. The
  assignments of \<open>gps_Process\<close> have together the effect the rest of the development gives it, and a
  report read before or after them is the old or the new record. A report read while they run, with
  the fields read in any order, has each field from the old or the new record, or the time of the
  sentence before the clock replaces it, never anything else. But it need not be either record:
  whatever the two positions are, there is a run that reports the new latitude with the old
  longitude and the old speed, a place the receiver never was.\<close>

theorem report_mixes:
  assumes "gps_Process cfg now gi = Some new" "set fs = UNIV"
  shows "\<exists>ws t. process_writes cfg now gi = Some ws \<and> assign_all ws old = new \<and>
     mk_time (rmc_date (gi_rmc gi)) (rmc_time (gi_rmc gi)) = Some t \<and>
     report_of old ws fs undef old \<and> report_of old ws fs undef new \<and>
     report_of old ws fs undef (old\<lparr>td_timestamp := t, td_latitude := td_latitude new\<rparr>) \<and>
     (\<forall>c f. \<not> report_of old ws fs undef c \<or> field_of f c \<in> {field_of f old, field_of f new} \<or>
        f = FTimestamp \<and> field_of f c = Inl t)"
proof -
  obtain ws where ws: "process_writes cfg now gi = Some ws" "assign_all ws old = new"
    using assms(1) gps_Process_assignments [of cfg now gi old] by auto
  obtain t la lo where v: "mk_time (rmc_date (gi_rmc gi)) (rmc_time (gi_rmc gi)) = Some t"
    "minmea_tocoord (rmc_latitude (gi_rmc gi)) = Some la" "minmea_tocoord (rmc_longitude (gi_rmc gi)) = Some lo"
    using ws(1) by (auto simp: process_writes_def bind_eq_Some_conv)
  have l: "2 \<le> length ws" "stage old ws 2 = old\<lparr>td_timestamp := t, td_latitude := td_latitude new\<rparr>"
    using assms(1) ws(1) by (auto simp: process_writes_def gps_Process_def v stage_def Let_def)
  have "stage old ws (length ws) = new" using ws(2) by (simp add: stage_def)
  then have r: "report_of old ws fs undef old" "report_of old ws fs undef new"
    "report_of old ws fs undef (old\<lparr>td_timestamp := t, td_latitude := td_latitude new\<rparr>)"
    using report_stage [OF _ assms(2), of 0 ws old undef] report_stage [OF _ assms(2), of "length ws" ws old undef]
      report_stage [OF l(1) assms(2), of old undef] l(2) by simp_all
  have "field_of f c \<in> {field_of f old, field_of f new} \<or> f = FTimestamp \<and> field_of f c = Inl t"
    if m: "report_of old ws fs undef c" for c f
  proof -
    have "f \<in> set fs" using assms(2) by simp
    then obtain k where k: "k \<le> length ws" "field_of f c = field_of f (stage old ws k)"
      using report_fields [OF m] by blast
    show ?thesis unfolding k(2) by (rule stage_fields [OF ws k(1) v(1)])
  qed
  then show ?thesis using ws v(1) r by blast
qed

definition example_rmc :: "int \<Rightarrow> int \<Rightarrow> GPS_Info_t" where
  "example_rmc la lo = zero_info\<lparr>gi_rmc := (gi_rmc zero_info)\<lparr>rmc_valid := True,
     rmc_latitude := \<lparr>fl_value = la, fl_scale = 1\<rparr>, rmc_longitude := \<lparr>fl_value = lo, fl_scale = 1\<rparr>\<rparr>\<rparr>"

text \<open>From 52 N 21 E to 33 S 151 E: the report says 33 S 21 E.\<close>

theorem report_mixes_witness:
  "\<exists>old new ws c. gps_Process default_config 0 (example_rmc 5200 2100) = Some old \<and>
     gps_Process default_config 0 (example_rmc (- 3300) 15100) = Some new \<and>
     (td_latitude old, td_longitude old) = (FFin 52, FFin 21) \<and>
     (td_latitude new, td_longitude new) = (FFin (- 33), FFin 151) \<and>
     process_writes default_config 0 (example_rmc (- 3300) 15100) = Some ws \<and>
     report_of old ws [FTimestamp, FLatitude, FLongitude, FSpeed, FBearing, FAltitude, FAccuracy] old c \<and>
     (td_latitude c, td_longitude c) = (FFin (- 33), FFin 21)"
proof -
  have c: "minmea_tocoord \<lparr>fl_value = 5200, fl_scale = 1\<rparr> = Some (FFin 52)"
    "minmea_tocoord \<lparr>fl_value = 2100, fl_scale = 1\<rparr> = Some (FFin 21)"
    "minmea_tocoord \<lparr>fl_value = - 3300, fl_scale = 1\<rparr> = Some (FFin (- 33))"
    "minmea_tocoord \<lparr>fl_value = 15100, fl_scale = 1\<rparr> = Some (FFin 151)" by code_simp+
  obtain t where t: "mk_time zero_date zero_time = Some t" using mk_time_total by blast
  have f: "rmc_date (gi_rmc zero_info) = zero_date" "rmc_time (gi_rmc zero_info) = zero_time" by (simp_all add: zero_info_def)
  obtain old where old: "gps_Process default_config 0 (example_rmc 5200 2100) = Some old"
    "(td_latitude old, td_longitude old) = (FFin 52, FFin 21)"
    by (simp add: gps_Process_def example_rmc_def f t c Let_def)
  obtain new where new: "gps_Process default_config 0 (example_rmc (- 3300) 15100) = Some new"
    "(td_latitude new, td_longitude new) = (FFin (- 33), FFin 151)"
    by (simp add: gps_Process_def example_rmc_def f t c Let_def)
  have u: "set [FTimestamp, FLatitude, FLongitude, FSpeed, FBearing, FAltitude, FAccuracy] = UNIV"
    using data_field.exhaust by (auto simp: set_eq_iff)
  show ?thesis using old new report_mixes [OF new(1) u, of old old] by fastforce
qed

end
