(* ===== verification/Gps_Protocol.thy ===== *)
theory Gps_Protocol
  imports Gps_Driver
begin

text \<open>
  The command protocol of the GPS driver at work: a command is answered by an acknowledgement
  that reaches \<open>GPS_Update\<close> in chunks of any size, mixed with other output of the receiver.
  The contract of a setting is the locale \<open>gps_setting\<close>; each \<open>GPS_Set...\<close> of \<open>gps.c\<close>
  interprets it.
\<close>

section \<open>The wait for an acknowledgement\<close>

text \<open>Occurrences of a pattern whose first character does not recur in it.\<close>

lemma strstr_found_iff: "strstr s pat = None \<longleftrightarrow> (\<nexists>u v. s = u @ pat @ v)"
proof
  assume "strstr s pat = None"
  then show "\<nexists>u v. s = u @ pat @ v" using strstr_None by blast
next
  assume n: "\<nexists>u v. s = u @ pat @ v"
  show "strstr s pat = None"
  proof (cases "strstr s pat")
    case (Some r)
    then obtain x y where "s = x @ y" "is_prefix pat y" using strstr_append by (cases r) blast
    then show ?thesis using n by (auto simp: is_prefix_append)
  qed
qed

lemma strstr_absent: "pat \<noteq> [] \<Longrightarrow> hd pat \<notin> set s \<Longrightarrow> strstr s pat = None"
  unfolding strstr_found_iff by (cases pat) auto

lemma strstr_prefix_None: "strstr (a @ t) pat = None \<Longrightarrow> strstr a pat = None"
  unfolding strstr_found_iff by (metis append.assoc)

lemma no_straddle:
  assumes "hd pat \<notin> set (tl pat)" "strstr p pat = None" "p @ u = x @ pat @ v" "u = [] \<or> hd u = hd pat" "pat \<noteq> []"
  shows "length p \<le> length x"
proof (rule ccontr)
  assume l: "\<not> length p \<le> length x"
  define w where "w = drop (length x) p"
  have "x = take (length x) p" using arg_cong [OF assms(3), of "take (length x)"] l by simp
  then have p: "p = x @ w" "w \<noteq> []" using l append_take_drop_id [of "length x" p] by (simp_all add: w_def)
  then have wu: "w @ u = pat @ v" using assms(3) by simp
  show False
  proof (cases "length pat \<le> length w")
    case True
    have "take (length pat) w = pat" using arg_cong [OF wu, of "take (length pat)"] True by simp
    then have "w = pat @ drop (length pat) w" using append_take_drop_id [of "length pat" w] by simp
    then show False using assms(2) p(1) unfolding strstr_found_iff by metis
  next
    case False
    define z where "z = drop (length w) pat"
    have "take (length w) pat = w" using arg_cong [OF wu, of "take (length w)"] False by simp
    then have z: "pat = w @ z" "z \<noteq> []" using False append_take_drop_id [of "length w" pat] by (auto simp: z_def)
    then have "u = z @ v" using wu by simp
    moreover have "hd z \<in> set (tl pat)" using z p(2) by (cases w) auto
    ultimately show False using assms(1,4) z(2) by auto
  qed
qed

lemma strstr_joined:
  assumes "hd pat \<notin> set (tl pat)" "strstr p pat = None" "is_prefix pat m" "pat \<noteq> []"
  shows "strstr (p @ m) pat = Some (p, m)"
proof -
  obtain t where m: "m = pat @ t" using assms(3) by (auto simp: is_prefix_append)
  then have "strstr (p @ m) pat \<noteq> None" unfolding strstr_found_iff by blast
  then obtain x y where xy: "strstr (p @ m) pat = Some (x, y)" by fast
  then have a: "p @ m = x @ y" "is_prefix pat y" using strstr_append by blast+
  then obtain v where y: "y = pat @ v" by (auto simp: is_prefix_append)
  have le: "length p \<le> length x"
    by (rule no_straddle [OF assms(1,2), of m x v]) (use a y m assms(4) in auto)
  define w where "w = drop (length p) x"
  have "take (length p) x = p" using arg_cong [OF a(1), of "take (length p)"] le by simp
  then have x: "x = p @ w" using append_take_drop_id [of "length p" x] by (simp add: w_def)
  then have "m = w @ y" using a(1) by simp
  then have "w = []" using strstr_first [OF xy x] assms(3) by auto
  then show ?thesis using xy x \<open>m = w @ y\<close> by simp
qed

lemma strstr_joined_None:
  assumes "hd pat \<notin> set (tl pat)" "strstr p pat = None" "length u < length pat" "u = [] \<or> hd u = hd pat"
  shows "strstr (p @ u) pat = None"
  unfolding strstr_found_iff
proof (intro notI, elim exE)
  fix x v
  assume e: "p @ u = x @ pat @ v"
  then have "length p \<le> length x" by (rule no_straddle [OF assms(1,2) _ assms(4)]) (use assms(3) in auto)
  then show False using arg_cong [OF e, of length] assms(3) by simp
qed

lemma strstr_open_line: "CR \<notin> set b \<Longrightarrow> strstr b CRLF = None" "CR \<notin> set b \<Longrightarrow> strstr (b @ [CR]) CRLF = None"
  by (induction b) auto

text \<open>Characters the receiver sends in text mode.\<close>

definition plain :: "cstr \<Rightarrow> bool" where
  "plain s \<longleftrightarrow> (\<forall>c \<in> set s. code c < 128 \<and> c \<noteq> NUL)"

lemma plain_simps [simp]:
  "plain []" "plain (c # s) \<longleftrightarrow> code c < 128 \<and> c \<noteq> NUL \<and> plain s" "plain (a @ b) \<longleftrightarrow> plain a \<and> plain b"
  by (auto simp: plain_def)

lemma plain_cstr: "plain s \<Longrightarrow> cstr_of s = s"
  by (rule cstr_of_id) (auto simp: plain_def)

lemma plain_no_binary: "plain s \<Longrightarrow> strstr s GPS_CMD_BINARY_HEADER = None"
proof (rule strstr_absent)
  have c: "code (hd GPS_CMD_BINARY_HEADER) = 170" by (simp add: GPS_CMD_BINARY_HEADER_def)
  assume "plain s"
  then show "hd GPS_CMD_BINARY_HEADER \<notin> set s" using c by (force simp: plain_def)
qed (simp add: GPS_CMD_BINARY_HEADER_def)

lemma header_simps [simp]:
  "length GPS_CMD_HEADER = 5" "GPS_CMD_HEADER \<noteq> []" "hd GPS_CMD_HEADER = CHR ''$''"
  "CHR ''$'' \<notin> set (tl GPS_CMD_HEADER)"
  by (simp_all add: GPS_CMD_HEADER_def)

text \<open>A complete text message from its header to its line end.\<close>

definition message_ok :: "cstr \<Rightarrow> bool" where
  "message_ok m \<longleftrightarrow> (\<exists>b. m = GPS_CMD_HEADER @ b @ CRLF \<and> CR \<notin> set b \<and> plain b)"

definition waiting :: "char list \<Rightarrow> gps_state \<Rightarrow> bool" where
  "waiting c st \<longleftrightarrow> buffer_wf (gpsNmeaBuffer st) \<and> maxSize (gpsNmeaBuffer st) = 2048 \<and>
     contents (gpsNmeaBuffer st) = c \<and> semCmdSending st = Some 0"

lemma update_command_idle:
  assumes "waiting c st" "strstr c GPS_CMD_HEADER = None \<and> plain c \<or>
    (\<exists>p u. strstr c GPS_CMD_HEADER = Some (p, u) \<and> strstr u CRLF = None)"
  shows "update_command env st = Some st"
proof -
  let ?b = "gpsNmeaBuffer st"
  have w: "buffer_wf ?b" "contents ?b = c" using assms(1) by (simp_all add: waiting_def)
  show ?thesis
  proof (cases "strstr c GPS_CMD_HEADER")
    case None
    then have "plain c" using assms(2) by auto
    then show ?thesis using None w query_start [OF w(1)] plain_no_binary
      by (simp add: update_command_def Let_def)
  next
    case (Some r)
    then obtain p u where r: "strstr c GPS_CMD_HEADER = Some (p, u)" "strstr u CRLF = None" using assms(2) by auto
    then have "c = p @ u" using strstr_append by blast
    then show ?thesis using r w query_start [OF w(1), of GPS_CMD_HEADER] query_from [OF w(1), of CRLF p u]
      by (simp add: update_command_def Let_def)
  qed
qed

lemma update_command_message:
  assumes "waiting (p @ m) st" "strstr p GPS_CMD_HEADER = None" "message_ok m" "plain p"
    "length (p @ m) \<le> 1024" "env_malloc env"
  shows "\<exists>b'. update_command env st =
      Some (st\<lparr>gpsNmeaBuffer := b', gpsAckMsg := Some m, semCmdSending := Some 1\<rparr>) \<and>
    buffer_wf b' \<and> maxSize b' = 2048 \<and> contents b' = []"
proof -
  let ?b = "gpsNmeaBuffer st"
  obtain body where m: "m = GPS_CMD_HEADER @ body @ CRLF" "CR \<notin> set body" "plain body"
    using assms(3) by (auto simp: message_ok_def)
  have w: "buffer_wf ?b" "contents ?b = p @ m" "maxSize ?b = 2048" "semCmdSending st = Some 0"
    using assms(1) by (simp_all add: waiting_def)
  have j: "strstr (p @ m) GPS_CMD_HEADER = Some (p, m)"
    by (rule strstr_joined) (use assms(2) m(1) in simp_all)
  have l: "strstr m CRLF = Some (GPS_CMD_HEADER @ body, CRLF)"
    using strstr_crlf [of "GPS_CMD_HEADER @ body" "[]"] m(1,2) by (simp add: GPS_CMD_HEADER_def)
  define x where "x = p @ GPS_CMD_HEADER @ body"
  have c: "contents ?b = x @ CRLF @ []" using w(2) m(1) by (simp add: x_def)
  obtain b' where b': "Buffer_Gets ?b (ucast (if Buffer_Size2 ?b (of_int (int (cell ?b (length x)))) + 1 >
        GPS_NMEA_FRAME_BUFFER_LENGTH then GPS_NMEA_FRAME_BUFFER_LENGTH
        else Buffer_Size2 ?b (of_int (int (cell ?b (length x)))) + 1)) = (True, take (frame_len (length x + 2)) (contents ?b), b')"
    "buffer_wf b'" "maxSize b' = maxSize ?b" "contents b' = drop (frame_len (length x + 2)) (contents ?b)"
    using cut_line [OF w(1) c refl] by blast
  have "length x + 2 = length (contents ?b)" by (simp add: c)
  then have n: "frame_len (length x + 2) = length (contents ?b)" using assms(5) w(2) by (simp add: frame_len_def)
  have q1: "query ?b GPS_CMD_HEADER (ucast (Buffer_StartPostion ?b)) = int (cell ?b (length p))"
    using query_start [OF w(1), of GPS_CMD_HEADER] j w(2) by simp
  have q2: "query ?b CRLF (of_int (int (cell ?b (length p)))) = int (cell ?b (length x))"
    using query_from [OF w(1) _ w(2), of CRLF] l by (simp add: x_def)
  have "plain (p @ m)" using assms(4) m by (simp add: GPS_CMD_HEADER_def)
  then have t: "text_header (p @ m) = Some (length p)" using j by (simp add: text_header_def plain_cstr)
  have "take_message env text_header (int (cell ?b (length x))) st =
      Some (st\<lparr>gpsNmeaBuffer := b', gpsAckMsg := Some m, semCmdSending := Some 1\<rparr>)"
    unfolding take_message_def Let_def b'(1) prod.case using w(2,4) t n assms(6) by simp
  then have "update_command env st = Some (st\<lparr>gpsNmeaBuffer := b', gpsAckMsg := Some m, semCmdSending := Some 1\<rparr>)"
    unfolding update_command_def Let_def q1 q2 by simp
  then show ?thesis using b'(2-4) n w(3) by auto
qed

text \<open>What has arrived so far of a message and the text before it keeps the driver waiting.\<close>

lemma partial_message:
  assumes "strstr p GPS_CMD_HEADER = None" "message_ok m" "plain p" "a @ t = p @ m" "t \<noteq> []"
  shows "strstr a GPS_CMD_HEADER = None \<and> plain a \<or>
    (\<exists>p' u. strstr a GPS_CMD_HEADER = Some (p', u) \<and> strstr u CRLF = None)"
proof -
  obtain body where m: "m = GPS_CMD_HEADER @ body @ CRLF" "CR \<notin> set body" "plain body"
    using assms(2) by (auto simp: message_ok_def)
  have pa: "plain a"
  proof -
    have "plain (a @ t)" unfolding assms(4) using assms(3) m by (simp add: GPS_CMD_HEADER_def)
    then show ?thesis by simp
  qed
  show ?thesis
  proof (cases "length a \<le> length p")
    case True
    have "p = a @ drop (length a) p"
      using True arg_cong [OF assms(4), of "take (length a)"] append_take_drop_id [of "length a" p] by simp
    then show ?thesis using pa strstr_prefix_None assms(1) by metis
  next
    case False
    define u where "u = drop (length p) a"
    have a: "a = p @ u"
      using False arg_cong [OF assms(4), of "take (length p)"] append_take_drop_id [of "length p" a] by (simp add: u_def)
    then have ut: "u @ t = GPS_CMD_HEADER @ body @ CRLF" "u \<noteq> []" using assms(4) m(1) False by auto
    show ?thesis
    proof (cases "length u < 5")
      case True
      have "hd u = hd (u @ t)" using ut(2) by simp
      then have "hd u = hd GPS_CMD_HEADER" unfolding ut(1) by simp
      then have "strstr (p @ u) GPS_CMD_HEADER = None"
        using assms(1) True by (intro strstr_joined_None) simp_all
      then show ?thesis using a pa by simp
    next
      case False
      define v where "v = drop 5 u"
      have "take 5 u = GPS_CMD_HEADER" using False arg_cong [OF ut(1), of "take 5"] by simp
      then have u: "u = GPS_CMD_HEADER @ v" using append_take_drop_id [of 5 u] by (simp add: v_def)
      then have vt: "v @ t = body @ CRLF" using ut(1) by simp
      have j: "strstr a GPS_CMD_HEADER = Some (p, u)" unfolding a by (rule strstr_joined) (use assms(1) u in simp_all)
      define w where "w = body @ [CR]"
      have vw: "v @ t = w @ [LF]" using vt by (simp add: w_def)
      have "length (v @ t) = length (w @ [LF])" by (simp only: vw)
      then have "length v + length t = length w + 1" by simp
      then have "length v \<le> length w" using assms(5) by (cases t) auto
      then have "v = take (length v) w" using arg_cong [OF vw, of "take (length v)"] by simp
      then have "v @ drop (length v) (body @ [CR]) = body @ [CR]" unfolding w_def by (metis append_take_drop_id)
      moreover have "CR \<notin> set (GPS_CMD_HEADER @ body)" using m(2) by (simp add: GPS_CMD_HEADER_def)
      then have "strstr ((GPS_CMD_HEADER @ body) @ [CR]) CRLF = None" by (rule strstr_open_line(2))
      ultimately have "strstr u CRLF = None"
        using strstr_prefix_None [of u "drop (length v) (body @ [CR])" CRLF] u by simp
      then show ?thesis using j by blast
    qed
  qed
qed

lemma queued_waiting:
  "waiting c st \<Longrightarrow> length (c @ d) \<le> 2047 \<Longrightarrow> queued (gpsNmeaBuffer st) d = c @ d"
  using length_contents [of "gpsNmeaBuffer st"] by (auto simp: queued_def waiting_def)

lemma GPS_Update_waiting:
  assumes "waiting c st" "length (c @ d) \<le> 2047"
  shows "\<exists>b. waiting (c @ d) (st\<lparr>gpsNmeaBuffer := b\<rparr>) \<and>
    GPS_Update env d (of_nat (length d)) st = map_option (\<lambda>s. (s, [])) (update_command env (st\<lparr>gpsNmeaBuffer := b\<rparr>))"
proof -
  have w: "buffer_wf (gpsNmeaBuffer st)" "length d \<le> 65535" using assms by (simp_all add: waiting_def)
  obtain ok b where "Buffer_Puts (gpsNmeaBuffer st) d (ucast (of_nat (length d) :: u32)) = (ok, b)"
    "buffer_wf b" "maxSize b = maxSize (gpsNmeaBuffer st)" "contents b = c @ d"
    using Puts_queued [OF w] queued_waiting [OF assms] by auto
  then show ?thesis using assms(1) by (intro exI [of _ b]) (simp add: GPS_Update_def waiting_def)
qed

lemma wait_released: "semCmdSending st = Some 1 \<Longrightarrow> wait_semaphore env rx st = Some (st, [])"
  by (cases rx) simp_all

lemma wait_message:
  assumes "strstr p GPS_CMD_HEADER = None" "message_ok m" "plain p" "length (p @ m) \<le> 1024" "env_malloc env"
  shows "waiting a st \<Longrightarrow> a @ concat rx = p @ m \<Longrightarrow> length a < length (p @ m) \<Longrightarrow>
    \<exists>b'. wait_semaphore env rx st =
      Some (st\<lparr>gpsNmeaBuffer := b', gpsAckMsg := Some m, semCmdSending := Some 1\<rparr>, []) \<and>
    buffer_wf b' \<and> maxSize b' = 2048 \<and> contents b' = []"
proof (induction rx arbitrary: a st)
  case (Cons d rx)
  have e: "(a @ d) @ concat rx = p @ m" using Cons.prems(2) by simp
  have len: "length (a @ d) + length (concat rx) = length (p @ m)" unfolding e [symmetric] by simp
  then have l: "length (a @ d) \<le> 2047" using assms(4) by linarith
  obtain b where b: "waiting (a @ d) (st\<lparr>gpsNmeaBuffer := b\<rparr>)"
    "GPS_Update env d (of_nat (length d)) st = map_option (\<lambda>s. (s, [])) (update_command env (st\<lparr>gpsNmeaBuffer := b\<rparr>))"
    using GPS_Update_waiting [OF Cons.prems(1) l] by blast
  have s: "semCmdSending st = Some 0" using Cons.prems(1) by (simp add: waiting_def)
  show ?case
  proof (cases "concat rx = []")
    case True
    then have "a @ d = p @ m" using e by (simp only: append_Nil2)
    then have "waiting (p @ m) (st\<lparr>gpsNmeaBuffer := b\<rparr>)" using b(1) by (simp only:)
    then obtain b' where b': "update_command env (st\<lparr>gpsNmeaBuffer := b\<rparr>) =
        Some (st\<lparr>gpsNmeaBuffer := b', gpsAckMsg := Some m, semCmdSending := Some 1\<rparr>)"
      "buffer_wf b'" "maxSize b' = 2048" "contents b' = []"
      using update_command_message [OF _ assms] by fastforce
    then show ?thesis using s b(2) by (auto simp: wait_released)
  next
    case False
    then have u: "update_command env (st\<lparr>gpsNmeaBuffer := b\<rparr>) = Some (st\<lparr>gpsNmeaBuffer := b\<rparr>)"
      by (intro update_command_idle [OF b(1)] partial_message [OF assms(1-3) e])
    have "length (a @ d) < length (p @ m)" using False len by (simp only: length_greater_0_conv [symmetric])
    then show ?thesis using Cons.IH [OF b(1) e] s b(2) u by simp
  qed
qed simp

text \<open>An acknowledgement as the receiver sends it, and what the driver reads from it.\<close>

definition ack_text :: "GPS_CMD_t \<Rightarrow> nat \<Rightarrow> cstr" where
  "ack_text cmd r = seal (''$PGKC001,'' @ nat_str (cmd_num cmd) @ '','' @ nat_str r)"

lemma ack_digits_dec: "\<forall>c \<in> set ds. isdigit c \<Longrightarrow>
  foldl (\<lambda>a c. a * 10 + (of_nat (code c) - 48)) (of_nat v) ds = (of_nat (dec_val v ds) :: u16)"
proof (induction ds arbitrary: v)
  case (Cons c ds)
  then have "48 \<le> code c" by (simp add: isdigit_def)
  then have e: "(of_nat v :: u16) * 10 + (of_nat (code c) - 48) = of_nat (10 * v + digit_val c)"
    by (simp add: digit_val_def of_nat_diff)
  show ?case unfolding foldl_Cons e dec_val.simps by (rule Cons.IH) (use Cons.prems in simp)
qed simp

lemma ack_digits_nat_str: "ack_digits (nat_str n) = of_nat n"
  using ack_digits_dec [of "nat_str n" 0] nat_str_digits by (simp add: ack_digits_def)

lemma hex_digit_plain: "unat x < 16 \<Longrightarrow> hex_digit x \<in> set Hex_Str"
  unfolding hex_digit_def by (rule nth_mem) (simp add: Hex_Str_def)

lemma nibbles: "unat (drop_bit 4 (x :: u8)) < 16" "unat (x AND 0x0f) < 16"
proof -
  have m: "x AND 0x0f = take_bit 4 x" by (simp add: take_bit_eq_mask mask_eq_exp_minus_1)
  show "unat (x AND 0x0f) < 16" using take_bit_nat_less_exp [of 4 "unat x"] by (simp add: m unsigned_take_bit_eq)
  have "unat x < 2 ^ LENGTH(8)" by (rule unsigned_less)
  then show "unat (drop_bit 4 x) < 16" by (simp add: drop_bit_eq_div unat_div)
qed

lemma seal_chars: "plain s \<Longrightarrow> CR \<notin> set s \<Longrightarrow> \<exists>b. seal s = s @ b @ CRLF \<and> plain b \<and> CR \<notin> set b"
proof -
  have h: "c \<in> set Hex_Str \<Longrightarrow> code c < 128 \<and> c \<noteq> NUL \<and> c \<noteq> CR" for c by (auto simp: Hex_Str_def)
  obtain x y where xy: "seal s = s @ [CHR ''*'', x, y] @ CRLF" "x \<in> set Hex_Str" "y \<in> set Hex_Str"
    using hex_digit_plain nibbles seal_def by metis
  assume "plain s" "CR \<notin> set s"
  then show ?thesis using h [OF xy(2)] h [OF xy(3)]
    by (intro exI [of _ "[CHR ''*'', x, y]"]) (auto simp: xy(1))
qed

lemma nat_str_clean: "plain (nat_str n)" "CR \<notin> set (nat_str n)" "CHR '','' \<notin> set (nat_str n)" "CHR ''*'' \<notin> set (nat_str n)"
  by (auto simp: plain_def isdigit_def dest!: nat_str_digits)

lemma ack_message: "message_ok (ack_text cmd r)"
proof -
  let ?s = "''$PGKC001,'' @ nat_str (cmd_num cmd) @ '','' @ nat_str r"
  obtain b where b: "seal ?s = ?s @ b @ CRLF" "plain b" "CR \<notin> set b"
    using seal_chars [of ?s] nat_str_clean by auto
  then show ?thesis unfolding message_ok_def ack_text_def using nat_str_clean
    by (intro exI [of _ "''001,'' @ nat_str (cmd_num cmd) @ '','' @ nat_str r @ b"]) (simp add: GPS_CMD_HEADER_def)
qed

lemma ack_parity: "GPS_CheckParity (Some (ack_text cmd r)) = Some True"
  unfolding ack_text_def by (rule CheckParity_seal) (use nat_str_clean in simp_all)

lemma ack_here: "strstr (ack_text cmd r) GPS_CMD_HEADER = Some ([], ack_text cmd r)"
  using ack_message [of cmd r] by (auto simp: message_ok_def)

lemma ack_cmd: "GPS_GetAckCmd (ack_text cmd r) = 1"
  unfolding GPS_GetAckCmd_def ack_here option.case prod.case
  by (simp add: ack_text_def seal_def byte_at_def GPS_IsCMDValid_def)

lemma binary_head: "take 2 s = GPS_CMD_BINARY_HEADER \<Longrightarrow> code (hd s) = 170"
  by (cases s) (auto simp: GPS_CMD_BINARY_HEADER_def)

lemma strstr_sep: "c \<notin> set a \<Longrightarrow> strstr (a @ c # t) [c] = Some (a, c # t)"
  by (induction a) auto

lemma ack_check:
  assumes "cmd \<noteq> GPS_CMD_FAIL" "r \<le> 3"
  shows "GPS_AckCheck (ack_text cmd r) cmd = r"
proof -
  let ?n = "nat_str (cmd_num cmd)"
  have d: "nat_str r = [digit_char r]" using assms(2) by (subst nat_str.simps) simp
  then obtain t where a: "ack_text cmd r = ''$PGKC001,'' @ ?n @ CHR '','' # digit_char r # t"
    by (simp add: ack_text_def seal_def)
  have p: "cstr_of (ack_text cmd r) = ack_text cmd r"
    using ack_message [of cmd r] by (intro plain_cstr) (auto simp: message_ok_def GPS_CMD_HEADER_def)
  have s1: "strstr (drop 5 (ack_text cmd r)) '','' = Some (''001'', CHR '','' # ?n @ CHR '','' # digit_char r # t)"
    using strstr_sep [of "CHR '',''" "''001''" "?n @ CHR '','' # digit_char r # t"] by (simp add: a)

  have s2: "strstr (?n @ CHR '','' # digit_char r # t) '','' = Some (?n, CHR '','' # digit_char r # t)"
    by (rule strstr_sep) (rule nat_str_clean)
  have nb: "take 2 (ack_text cmd r) \<noteq> GPS_CMD_BINARY_HEADER" using binary_head [of "ack_text cmd r"] by (auto simp: a)
  have b: "byte_at (CHR '','' # digit_char r # t) 1 - 48 = of_nat r"
  proof -
    have "byte_at (CHR '','' # digit_char r # t) 1 = byte (digit_char r)" by (simp add: byte_at_def)
    also have "\<dots> = of_nat r + 48"
    proof -
      have "code (digit_char r) = 48 + r" using assms(2) by (simp add: digit_char_def)
      then show ?thesis using of_nat_of_char [of "digit_char r", where 'a = u8] by (simp add: add.commute)
    qed
    finally show ?thesis by simp
  qed
  have u: "unat (of_nat r :: u8) = r" using assms(2) by (simp add: unsigned_of_nat take_bit_nat_eq_self)
  have v: "GPS_IsCMDValid (of_nat (cmd_num cmd))" using assms(1) by (cases cmd) (simp_all add: GPS_IsCMDValid_def)
  have "r = 0 \<or> r = 1 \<or> r = 2 \<or> r = 3" using assms(2) by linarith
  then have v2: "GPS_IsCMDACKValid (of_nat r)" by (auto simp: GPS_IsCMDACKValid_def u)
  show ?thesis unfolding GPS_AckCheck_def p ack_here option.case prod.case header_simps s1 list.sel s2 if_not_P [OF nb] Let_def b
    using v v2 u by (simp add: ack_digits_nat_str)
qed

section \<open>Commands and their answers\<close>

definition ready :: "gps_state \<Rightarrow> bool" where
  "ready st \<longleftrightarrow> buffer_wf (gpsNmeaBuffer st) \<and> maxSize (gpsNmeaBuffer st) = 2048 \<and> gpsAckMsg st = None"

text \<open>The chunks of a wait hold an acknowledgement, after text without a header.\<close>

definition answered :: "char list list \<Rightarrow> GPS_CMD_t \<Rightarrow> nat \<Rightarrow> bool" where
  "answered rx cmd r \<longleftrightarrow> (\<exists>p. concat rx = p @ ack_text cmd r \<and> strstr p GPS_CMD_HEADER = None \<and> plain p) \<and>
     length (concat rx) \<le> 1024"

text \<open>They hold text without any message.\<close>

definition unanswered :: "char list list \<Rightarrow> bool" where
  "unanswered rx \<longleftrightarrow> strstr (concat rx) GPS_CMD_HEADER = None \<and> plain (concat rx) \<and> length (concat rx) \<le> 2047"

definition after_command :: "gps_state \<Rightarrow> bool \<Rightarrow> gps_state \<Rightarrow> bool" where
  "after_command st late st' \<longleftrightarrow> (\<exists>b'. st' = st\<lparr>isCmdSendTimeOut := late, semCmdSending := None, gpsNmeaBuffer := b'\<rparr> \<and>
     buffer_wf b' \<and> maxSize b' = 2048)"

lemma waiting_after_send:
  assumes "ready st"
  shows "waiting [] (st\<lparr>isCmdSendTimeOut := False, semCmdSending := Some 0,
    gpsNmeaBuffer := Buffer_Clear (gpsNmeaBuffer st)\<rparr>)"
  using wf_Buffer_Clear [of "gpsNmeaBuffer st"] assms by (simp add: waiting_def ready_def Buffer_Clear_def)

lemma send_answered:
  assumes "ready st" "env_malloc env" "answered rx cmd r" "cmd \<noteq> GPS_CMD_FAIL" "r \<le> 3"
  shows "\<exists>st'. GPS_SendWaiteNormalAck env rx cmd str GPS_FORMAT_NMEA timeout st =
    Some (r = 3, st', [GpsUart (seal str), StartTimer timeout ''OnCmdAckFail'', StopTimer ''OnCmdAckFail'']) \<and>
    after_command st False st'"
proof -
  let ?m = "ack_text cmd r"
  obtain p where p: "concat rx = p @ ?m" "strstr p GPS_CMD_HEADER = None" "plain p" "length (p @ ?m) \<le> 1024"
    using assms(3) by (auto simp: answered_def)
  define st1 where "st1 = st\<lparr>isCmdSendTimeOut := False, semCmdSending := Some 0,
    gpsNmeaBuffer := Buffer_Clear (gpsNmeaBuffer st)\<rparr>"
  have w: "waiting [] st1" unfolding st1_def by (rule waiting_after_send [OF assms(1)])
  have ne: "?m \<noteq> []" by (simp add: ack_text_def seal_def)
  obtain b' where b': "wait_semaphore env rx st1 =
      Some (st1\<lparr>gpsNmeaBuffer := b', gpsAckMsg := Some ?m, semCmdSending := Some 1\<rparr>, [])"
    "buffer_wf b'" "maxSize b' = 2048"
    using wait_message [OF p(2) ack_message p(3,4) assms(2) w] p(1) ne by auto
  have c: "cstr_of ?m = ?m"
    using ack_message [of cmd r] by (intro plain_cstr) (auto simp: message_ok_def GPS_CMD_HEADER_def)
  have nb: "take 2 ?m \<noteq> GPS_CMD_BINARY_HEADER"
    using binary_head [of ?m] by (auto simp: ack_text_def seal_def)
  have "GPS_SendCMDWaitAck env rx str GPS_FORMAT_NMEA timeout st =
    Some (1, Some ?m, seal str, st1\<lparr>gpsNmeaBuffer := b', gpsAckMsg := Some ?m, semCmdSending := None\<rparr>,
      [GpsUart (seal str), StartTimer timeout ''OnCmdAckFail'', StopTimer ''OnCmdAckFail''])"
  proof -
    have s: "GPS_CMDSend str GPS_FORMAT_NMEA (st\<lparr>isCmdSendTimeOut := False, semCmdSending := Some 0\<rparr>) =
        (seal str, st1, [GpsUart (seal str)])"
      by (simp add: GPS_CMDSend_def seal_def GPS_Send_def Let_def st1_def)
    have f: "isCmdSendTimeOut st1 = False" by (simp add: st1_def)
    show ?thesis unfolding GPS_SendCMDWaitAck_def Let_def s prod.case b'(1) option.case
      using f nb by (simp add: c ack_here ack_parity ack_cmd)
  qed
  then show ?thesis using b'(2,3) assms(1) ack_check [OF assms(4,5)]
    by (cases st) (auto simp: GPS_SendWaiteNormalAck_def Let_def after_command_def st1_def ready_def)
qed

lemma wait_unanswered:
  "waiting a st \<Longrightarrow> strstr (a @ concat rx) GPS_CMD_HEADER = None \<Longrightarrow> plain (a @ concat rx) \<Longrightarrow>
   length (a @ concat rx) \<le> 2047 \<Longrightarrow>
   \<exists>b'. wait_semaphore env rx st =
      Some (st\<lparr>gpsNmeaBuffer := b', isCmdSendTimeOut := True, semCmdSending := Some 1\<rparr>, []) \<and>
    buffer_wf b' \<and> maxSize b' = 2048"
proof (induction rx arbitrary: a st)
  case Nil
  then show ?case by (auto simp: waiting_def OnCmdAckFail_def intro: exI [of _ "gpsNmeaBuffer st"])
next
  case (Cons d rx)
  have e: "a @ concat (d # rx) = (a @ d) @ concat rx" by simp
  note pr = Cons.prems(2-4) [unfolded e]
  have "length (a @ d) \<le> 2047" using pr(3) by simp
  then obtain b where b: "waiting (a @ d) (st\<lparr>gpsNmeaBuffer := b\<rparr>)"
    "GPS_Update env d (of_nat (length d)) st = map_option (\<lambda>s. (s, [])) (update_command env (st\<lparr>gpsNmeaBuffer := b\<rparr>))"
    using GPS_Update_waiting [OF Cons.prems(1)] by blast
  have "strstr (a @ d) GPS_CMD_HEADER = None" "plain (a @ d)" using pr(1,2) strstr_prefix_None by (blast, simp)
  then have "update_command env (st\<lparr>gpsNmeaBuffer := b\<rparr>) = Some (st\<lparr>gpsNmeaBuffer := b\<rparr>)"
    by (intro update_command_idle [OF b(1)]) simp
  then show ?case using Cons.IH [OF b(1) pr] b(2) Cons.prems(1) by (simp add: waiting_def)
qed

lemma send_unanswered:
  assumes "ready st" "unanswered rx"
  shows "\<exists>st'. GPS_SendWaiteNormalAck env rx cmd str GPS_FORMAT_NMEA timeout st =
    Some (False, st', [GpsUart (seal str), StartTimer timeout ''OnCmdAckFail'']) \<and> after_command st True st'"
proof -
  define st1 where "st1 = st\<lparr>isCmdSendTimeOut := False, semCmdSending := Some 0,
    gpsNmeaBuffer := Buffer_Clear (gpsNmeaBuffer st)\<rparr>"
  have w: "waiting [] st1" unfolding st1_def by (rule waiting_after_send [OF assms(1)])
  obtain b' where b': "wait_semaphore env rx st1 =
      Some (st1\<lparr>gpsNmeaBuffer := b', isCmdSendTimeOut := True, semCmdSending := Some 1\<rparr>, [])"
    "buffer_wf b'" "maxSize b' = 2048"
    using wait_unanswered [OF w, of rx env] assms(2) by (auto simp: unanswered_def)
  have s: "GPS_CMDSend str GPS_FORMAT_NMEA (st\<lparr>isCmdSendTimeOut := False, semCmdSending := Some 0\<rparr>) =
      (seal str, st1, [GpsUart (seal str)])"
    by (simp add: GPS_CMDSend_def seal_def GPS_Send_def Let_def st1_def)
  have "GPS_SendCMDWaitAck env rx str GPS_FORMAT_NMEA timeout st =
    Some (0, None, seal str, st1\<lparr>gpsNmeaBuffer := b', isCmdSendTimeOut := True, semCmdSending := None\<rparr>,
      [GpsUart (seal str), StartTimer timeout ''OnCmdAckFail''])"
    unfolding GPS_SendCMDWaitAck_def Let_def s prod.case b'(1) option.case by simp
  then show ?thesis using b'(2,3) assms(1)
    by (cases st) (auto simp: GPS_SendWaiteNormalAck_def Let_def after_command_def st1_def ready_def)
qed

text \<open>C16. A text command and its acknowledgement: when the acknowledgement of the command with
  result digit \<open>r\<close> arrives, cut into chunks anywhere and after any other text of the receiver
  without a message header (at most 1024 bytes in all), \<open>GPS_SendWaiteNormalAck\<close> returns, it
  returns true exactly when \<open>r\<close> is 3, it sent the sealed command once, started and stopped its
  timer, and left the driver idle with no message pending.\<close>

theorem SendWaiteNormalAck_answered:
  assumes "ready st" "env_malloc env" "answered rx cmd r" "cmd \<noteq> GPS_CMD_FAIL" "r \<le> 3"
  shows "\<exists>st'. GPS_SendWaiteNormalAck env rx cmd str GPS_FORMAT_NMEA timeout st =
    Some (r = 3, st', [GpsUart (seal str), StartTimer timeout ''OnCmdAckFail'', StopTimer ''OnCmdAckFail'']) \<and>
    after_command st False st'"
  by (rule send_answered [OF assms])

lemma ready_boot: "ready gps_boot"
  using boot_buffer by (simp add: ready_def) (simp add: gps_boot_def GPS_Init_def)

lemma SendWaiteNormalAck_answered_witness:
  "\<forall>env. \<exists>st'. GPS_SendWaiteNormalAck (env\<lparr>env_malloc := True\<rparr>)
     [''$GPVTG,'', CRLF @ take 3 (ack_text GPS_CMD_FIX_MODE 3), drop 3 (ack_text GPS_CMD_FIX_MODE 3)]
     GPS_CMD_FIX_MODE ''$PGKC786,0'' GPS_FORMAT_NMEA 1500 gps_boot =
    Some (True, st', [GpsUart (seal ''$PGKC786,0''), StartTimer 1500 ''OnCmdAckFail'', StopTimer ''OnCmdAckFail'']) \<and>
    after_command gps_boot False st'"
proof
  fix env :: gps_env
  let ?rx = "[''$GPVTG,'', CRLF @ take 3 (ack_text GPS_CMD_FIX_MODE 3), drop 3 (ack_text GPS_CMD_FIX_MODE 3)]"
  have c: "concat ?rx = (''$GPVTG,'' @ CRLF) @ ack_text GPS_CMD_FIX_MODE 3" by simp
  have "length (nat_str n) < 4" if "n < 1000" for n using length_nat_str [of n 3] that by simp
  from this [of 786] this [of 3] have "length (ack_text GPS_CMD_FIX_MODE 3) \<le> 100" by (simp add: ack_text_def seal_def)
  then have "answered ?rx GPS_CMD_FIX_MODE 3" unfolding answered_def c
    by (intro conjI exI [of _ "''$GPVTG,'' @ CRLF"] refl) (simp_all add: GPS_CMD_HEADER_def)
  then show "\<exists>st'. GPS_SendWaiteNormalAck (env\<lparr>env_malloc := True\<rparr>) ?rx GPS_CMD_FIX_MODE ''$PGKC786,0''
      GPS_FORMAT_NMEA 1500 gps_boot =
    Some (True, st', [GpsUart (seal ''$PGKC786,0''), StartTimer 1500 ''OnCmdAckFail'', StopTimer ''OnCmdAckFail'']) \<and>
    after_command gps_boot False st'"
    using SendWaiteNormalAck_answered [OF ready_boot, of "env\<lparr>env_malloc := True\<rparr>" ?rx GPS_CMD_FIX_MODE 3
      "''$PGKC786,0''" 1500] by simp
qed

section \<open>The contract of a setting\<close>

text \<open>A setting sends one text command and waits for its acknowledgement.\<close>

locale gps_setting =
  fixes op :: "gps_env \<Rightarrow> char list list \<Rightarrow> gps_state \<Rightarrow> (bool \<times> gps_state \<times> effect list) option"
    and cmd :: GPS_CMD_t and command :: "gps_env \<Rightarrow> cstr" and timeout :: nat
  assumes sends: "op env rx st = GPS_SendWaiteNormalAck env rx cmd (command env) GPS_FORMAT_NMEA timeout st"
    and real_command: "cmd \<noteq> GPS_CMD_FAIL"
begin

lemma acknowledged:
  assumes "ready st" "env_malloc env" "answered rx cmd r" "r \<le> 3"
  shows "\<exists>st'. op env rx st = Some (r = 3, st',
      [GpsUart (seal (command env)), StartTimer timeout ''OnCmdAckFail'', StopTimer ''OnCmdAckFail'']) \<and>
    after_command st False st'"
  unfolding sends by (rule send_answered [OF assms(1-3) real_command assms(4)])

lemma no_answer:
  assumes "ready st" "unanswered rx"
  shows "\<exists>st'. op env rx st = Some (False, st', [GpsUart (seal (command env)), StartTimer timeout ''OnCmdAckFail'']) \<and>
    after_command st True st'"
  unfolding sends by (rule send_unanswered [OF assms])

end

definition command_text :: "GPS_CMD_t \<Rightarrow> cstr \<Rightarrow> fmtarg list \<Rightarrow> cstr" where
  "command_text cmd fmt args =
     snprintf GPS_BUFFER_MAX_LENGTH fmt (AStr GPS_CMD_HEADER # AInt (int (cmd_num cmd)) # args)"

lemma send_nmea_setting:
  "cmd \<noteq> GPS_CMD_FAIL \<Longrightarrow> (\<And>env rx st. op env rx st = send_nmea env rx cmd fmt (args env) timeout st) \<Longrightarrow>
   gps_setting op cmd (\<lambda>env. command_text cmd fmt (args env)) timeout"
  by unfold_locales (simp_all add: send_nmea_def command_text_def)

interpretation reboot: gps_setting "\<lambda>env rx. GPS_Reboot env rx mode" GPS_CMD_REBOOT
    "\<lambda>_. command_text GPS_CMD_REBOOT ''%s%03d,%d,%d'' [AInt (reboot_num mode), AInt 1]" 1500 for mode
  by (rule send_nmea_setting) (simp_all add: GPS_Reboot_def)
interpretation clear_flash: gps_setting GPS_ClearInfoInFlash GPS_CMD_ERASE_INFO_IN_FLASH
    "\<lambda>_. command_text GPS_CMD_ERASE_INFO_IN_FLASH ''%s%03d'' []" 5000
  by (rule send_nmea_setting) (simp_all add: GPS_ClearInfoInFlash_def)
interpretation standby: gps_setting "\<lambda>env rx. GPS_SetStandbyMode env rx mode" GPS_CMD_STANDBY_MODE
    "\<lambda>_. command_text GPS_CMD_STANDBY_MODE ''%s%03d,%d'' [AInt (standby_num mode)]" 1500 for mode
  by (rule send_nmea_setting) (simp_all add: GPS_SetStandbyMode_def)
interpretation interval: gps_setting "\<lambda>env rx. GPS_SetOutputInterval env rx ms" GPS_CMD_NMEA_OUTPUT_INTERVAL
    "\<lambda>_. command_text GPS_CMD_NMEA_OUTPUT_INTERVAL ''%s%03d,%d'' [AInt (int (unat ms))]" 1500 for ms
  by (rule send_nmea_setting) (simp_all add: GPS_SetOutputInterval_def)
interpretation lp_mode: gps_setting "\<lambda>env rx. GPS_SetLpMode env rx mode" GPS_CMD_LP_MODE
    "\<lambda>_. command_text GPS_CMD_LP_MODE ''%s%03d,%d'' [AInt (lp_num mode)]" 1500 for mode
  by (rule send_nmea_setting) (simp_all add: GPS_SetLpMode_def)
interpretation qzss_output: gps_setting "\<lambda>env rx. GPS_SetQzssOutput env rx on" GPS_CMD_NMEA_OUTPUT_QZSS
    "\<lambda>_. command_text GPS_CMD_NMEA_OUTPUT_QZSS ''%s%03d,%d'' [AInt (bool_num on)]" 1500 for on
  by (rule send_nmea_setting) (simp_all add: GPS_SetQzssOutput_def)
interpretation qzss: gps_setting "\<lambda>env rx. GPS_SetQzssEnable env rx on" GPS_CMD_QZSS
    "\<lambda>_. command_text GPS_CMD_QZSS ''%s%03d,%d'' [AInt (bool_num on)]" 1500 for on
  by (rule send_nmea_setting) (simp_all add: GPS_SetQzssEnable_def)
interpretation search_mode: gps_setting "\<lambda>env rx. GPS_SetSearchMode env rx gps glonass beidou galileo" GPS_CMD_SEARCH_MODE
    "\<lambda>_. command_text GPS_CMD_SEARCH_MODE ''%s%03d,%d,%d,%d,%d''
       (map (\<lambda>b. AInt (bool_num b)) [gps, glonass, beidou, galileo])" 1500 for gps glonass beidou galileo
  by (rule send_nmea_setting) (simp_all add: GPS_SetSearchMode_def)
interpretation sbas: gps_setting "\<lambda>env rx. GPS_SetSBASEnable env rx on" GPS_CMD_SBAS
    "\<lambda>_. command_text GPS_CMD_SBAS ''%s%03d,%d'' [AInt (bool_num on)]" 1500 for on
  by (rule send_nmea_setting) (simp_all add: GPS_SetSBASEnable_def)
interpretation rtc_time: gps_setting "\<lambda>env rx. GPS_SetRtcTime env rx t" GPS_CMD_SET_RTC_TIME
    "\<lambda>_. command_text GPS_CMD_SET_RTC_TIME ''%s%03d,%d,%d,%d,%d,%d,%d'' (time_args t)" 1500 for t
  by (rule send_nmea_setting) (simp_all add: GPS_SetRtcTime_def)
interpretation location_time: gps_setting "\<lambda>env rx. GPS_SetLocationTime env rx lat lon alt t" GPS_CMD_SET_LOCATION_TIME
    "\<lambda>env. command_text GPS_CMD_SET_LOCATION_TIME ''%s%03d,%s,%s,%s,%d,%d,%d,%d,%d,%d''
       (map (\<lambda>v. AStr (env_gcvt env v)) [lat, lon, alt] @ time_args t)" 1500 for lat lon alt t
  by (rule send_nmea_setting) (simp_all add: GPS_SetLocationTime_def)
interpretation fix_mode: gps_setting "\<lambda>env rx. GPS_SetFixMode env rx mode" GPS_CMD_FIX_MODE
    "\<lambda>_. command_text GPS_CMD_FIX_MODE ''%s%03d,%d'' [AInt (fix_num mode)]" 1500 for mode
  by (rule send_nmea_setting) (simp_all add: GPS_SetFixMode_def)
interpretation binary_mode: gps_setting GPS_SetBinaryMode GPS_CMD_FORMAT
    "\<lambda>_. command_text GPS_CMD_FORMAT ''%s%03d,%d,%d'' [AInt 1, AInt 9600]" 1500
  by (rule send_nmea_setting) (simp_all add: GPS_SetBinaryMode_def)

text \<open>A setting that is not acknowledged fails and leaves the driver usable: when the
  receiver sends only text without a message header while \<open>GPS_SetSearchMode\<close> waits, the
  timer ends the wait, the function returns false, and the driver is idle again.\<close>

lemma SetSearchMode_no_answer:
  assumes "ready st" "unanswered rx"
  shows "\<exists>st'. GPS_SetSearchMode env rx gps glonass beidou galileo st =
    Some (False, st', [GpsUart (seal (command_text GPS_CMD_SEARCH_MODE ''%s%03d,%d,%d,%d,%d''
       (map (\<lambda>b. AInt (bool_num b)) [gps, glonass, beidou, galileo]))), StartTimer 1500 ''OnCmdAckFail'']) \<and>
    after_command st True st'"
  by (rule search_mode.no_answer [OF assms])

lemma SetSearchMode_no_answer_example:
  "\<forall>env. \<exists>st'. GPS_SetSearchMode env [''$GPGSV,1'', CRLF] True False True True gps_boot =
    Some (False, st', [GpsUart (seal (command_text GPS_CMD_SEARCH_MODE ''%s%03d,%d,%d,%d,%d''
       (map (\<lambda>b. AInt (bool_num b)) [True, False, True, True]))), StartTimer 1500 ''OnCmdAckFail'']) \<and>
    after_command gps_boot True st'"
proof
  fix env
  have "unanswered [''$GPGSV,1'', CRLF]" by (simp add: unanswered_def GPS_CMD_HEADER_def)
  then show "\<exists>st'. GPS_SetSearchMode env [''$GPGSV,1'', CRLF] True False True True gps_boot =
    Some (False, st', [GpsUart (seal (command_text GPS_CMD_SEARCH_MODE ''%s%03d,%d,%d,%d,%d''
       (map (\<lambda>b. AInt (bool_num b)) [True, False, True, True]))), StartTimer 1500 ''OnCmdAckFail'']) \<and>
    after_command gps_boot True st'"
    by (rule SetSearchMode_no_answer [OF ready_boot])
qed

end
