(* ===== verification/Gps_Agps.thy ===== *)
theory Gps_Agps
  imports Gps_Protocol
begin

text \<open>
  Assisted positioning of \<open>libs/gps/src/gps.c\<close>: \<open>Http_Get\<close> downloads the orbit file,
  \<open>GPS_AGPS\<close> uploads it to the receiver in packs of 512 bytes. The network is in \<open>agps_net\<close>:
  what the socket calls return and, one entry per turn of the receiving loop, what
  \<open>select\<close> and \<open>recv\<close> do. \<open>rxs\<close> holds, one entry per command, the chunks the receiver
  sends during its wait. Allocation and release of the download buffer are not tracked.
\<close>

section \<open>Download\<close>

datatype recv_event = SelectError | SelectTimeout | SelectOther | RecvError | RecvData "char list"

record agps_net =
  net_dns :: "cstr option"        \<comment> \<open>\<open>DNS_GetHostByName2\<close>\<close>
  net_socket :: int
  net_connect :: int
  net_send :: int                 \<comment> \<open>the bytes \<open>send\<close> took, or an error\<close>
  net_events :: "recv_event list"

text \<open>
  The bytes received so far are those of the buffer before \<open>recvLen\<close>; the rest of it is
  zero. A server that sends nothing more is a timeout of \<open>select\<close>.
\<close>

fun recv_loop :: "nat \<Rightarrow> char list \<Rightarrow> recv_event list \<Rightarrow> char list option" where
  "recv_loop retBufferLen buf [] = None"
| "recv_loop retBufferLen buf (e # es) =
     (case e of
        SelectError \<Rightarrow> None
      | SelectTimeout \<Rightarrow> None
      | SelectOther \<Rightarrow> recv_loop retBufferLen buf es
      | RecvError \<Rightarrow> None
      | RecvData d \<Rightarrow>
          let d' = take (retBufferLen - length buf) d; ret = length d' in
          if ret = 0 then None
          else if ret < 1352 then Some (buf @ d')
          else recv_loop retBufferLen (buf @ d') es)"

definition Http_Get :: "agps_net \<Rightarrow> cstr \<Rightarrow> cstr \<Rightarrow> nat \<Rightarrow> char list option \<times> effect list" where
  "Http_Get net domain path bufferLen =
     (if net_dns net = None then (None, [])
      else
        let pData = snprintf bufferLen (''GET %s HTTP/1.1'' @ CRLF @ ''Host: %s'' @ CRLF @ CRLF) [AStr path, AStr domain]
        in if net_socket net < 0 then (None, [])
           else if net_connect net < 0 then (None, [Sdk ''close'' [net_socket net]])
           else if net_send net < 0 then (None, [Sdk ''close'' [net_socket net]])
           else (recv_loop bufferLen [] (net_events net),
                 [SockSend (take (nat (net_send net)) pData), Sdk ''close'' [net_socket net]]))"

section \<open>Upload\<close>

definition next_rx :: "char list list list \<Rightarrow> char list list \<times> char list list list" where
  "next_rx rxs = (case rxs of [] \<Rightarrow> ([], []) | r # rs \<Rightarrow> (r, rs))"

text \<open>
  The loop over the packs; \<open>data\<close> is the buffer from the file's first byte on. Its index is
  below 129 because the length has 16 bits.
\<close>

function send_packs ::
  "gps_env \<Rightarrow> char list \<Rightarrow> nat \<Rightarrow> nat \<Rightarrow> nat \<Rightarrow> char list list list \<Rightarrow> gps_state \<Rightarrow> effect list \<Rightarrow>
   (bool \<times> char list list list \<times> gps_state \<times> effect list) option" where
  "send_packs env data gpdLen i sendFailTimes rxs st out =
     (let (rx, rxs') = next_rx rxs; done = i * 512 > gpdLen in
      case GPS_SendGPDPack env rx (if done then 0xffff else of_nat i)
             (if done then None else Some (take 512 (drop (i * 512) data))) st of
        None \<Rightarrow> None
      | Some (ok, st', e) \<Rightarrow>
          if ok then
            (if done then Some (True, rxs', st', out @ e)
             else send_packs env data gpdLen (i + 1) 0 rxs' st' (out @ e))
          else if sendFailTimes + 1 > 3 then Some (False, rxs', st', out @ e)
          else send_packs env data gpdLen i (sendFailTimes + 1) rxs' st' (out @ e))"
  by pat_completeness auto
termination
  by (relation "measure (\<lambda>(_, _, gpdLen, i, f, _, _, _). (gpdLen + 513 - i * 512) * 5 + (4 - f))") auto

declare send_packs.simps [simp del]

text \<open>
  Padding in the download buffer: \<open>mem\<close> is the buffer from the file's first byte to its end.
  \<open>None\<close> is a \<open>memset\<close> that writes past the end of the buffer.
\<close>

definition pad512 :: "char list \<Rightarrow> nat \<Rightarrow> (char list \<times> nat) option" where
  "pad512 mem gpdLen =
     (if gpdLen mod 512 \<noteq> 0 then
        let k = 512 - gpdLen mod 512 in
        if gpdLen + k > length mem then None
        else Some (take gpdLen mem @ replicate k NUL @ drop (gpdLen + k) mem, gpdLen + k)
      else Some (mem, gpdLen))"

definition gpd_file :: "char list \<Rightarrow> char list option" where
  "gpd_file buf =
     (case strstr (cstr_of buf) ''200 OK'' of
        None \<Rightarrow> None
      | Some (pre, indexResult) \<Rightarrow>
          (case strstr indexResult (CRLF @ CRLF) of
             None \<Rightarrow> None
           | Some (pre', _) \<Rightarrow> Some (drop (length pre + length pre' + 4) buf)))"

text \<open>Two readings of the clock; \<open>None\<close> is a step that does not return.\<close>

definition agps_position ::
  "gps_env \<Rightarrow> char list list list \<Rightarrow> RTC_Time_t \<times> RTC_Time_t \<Rightarrow> fpv \<Rightarrow> fpv \<Rightarrow> fpv \<Rightarrow> gps_state \<Rightarrow> effect list \<Rightarrow>
   (bool \<times> gps_state \<times> effect list) option" where
  "agps_position env rxs clock latitude longitude altitude st out =
     (let (rx, rxs') = next_rx rxs in
      case GPS_SetRtcTime env rx (fst clock) st of
        None \<Rightarrow> None
      | Some (_, st', e) \<Rightarrow>
          (case GPS_SetLocationTime env (fst (next_rx rxs')) latitude longitude altitude (snd clock) st' of
             None \<Rightarrow> None
           | Some (_, st'', e') \<Rightarrow> Some (True, st'', out @ e @ e')))"

text \<open>
  \<open>behind\<close> is what the heap holds behind the download buffer of 5120 bytes: the block sent after
  the last may reach past the buffer's end. \<open>None\<close> is a step that does not return or a write
  past the end.
\<close>

definition GPS_AGPS ::
  "gps_env \<Rightarrow> agps_net \<Rightarrow> char list \<Rightarrow> char list list list \<Rightarrow> RTC_Time_t \<times> RTC_Time_t \<Rightarrow> fpv \<Rightarrow> fpv \<Rightarrow> fpv \<Rightarrow> bool \<Rightarrow> gps_state \<Rightarrow>
   (bool \<times> gps_state \<times> effect list) option" where
  "GPS_AGPS env net behind rxs clock latitude longitude altitude downloadGPD st =
     (if \<not> downloadGPD then agps_position env rxs clock latitude longitude altitude st []
      else if \<not> env_malloc env then Some (False, st, [])
      else
        let (got, e1) = Http_Get net ''www.goke-agps.com'' ''/brdcGPD.dat'' 5120 in
        case got of
          None \<Rightarrow> Some (False, st, e1)
        | Some buf \<Rightarrow>
            (case gpd_file buf of
               None \<Rightarrow> Some (False, st, e1)
             | Some gpd \<Rightarrow>
                 (case pad512 (gpd @ replicate (5120 - length buf) NUL) (length gpd) of
                    None \<Rightarrow> None
                  | Some (mem, gpdLen) \<Rightarrow>
                      let (rx, rxs1) = next_rx rxs in
                      (case GPS_SetBinaryMode env rx st of
                         None \<Rightarrow> None
                       | Some (ok, st1, e2) \<Rightarrow>
                           if \<not> ok then Some (False, st1, e1 @ e2)
                           else
                             (case send_packs env (mem @ behind) gpdLen 0 0 rxs1 st1 (e1 @ e2) of
                                None \<Rightarrow> None
                              | Some (sent, rxs2, st2, e3) \<Rightarrow>
                                  (case GPS_SetNMEAMode env (fst (next_rx rxs2)) st2 of
                                     None \<Rightarrow> None
                                   | Some (ok', st3, e4) \<Rightarrow>
                                       if \<not> sent \<or> \<not> ok' then Some (False, st3, e3 @ e4)
                                       else agps_position env (snd (next_rx rxs2)) clock latitude longitude altitude st3
                                              (e3 @ e4)))))))"

text \<open>What the padding keeps: the file in front, zeros behind it up to a whole block.\<close>

lemma pad512_file:
  assumes "pad512 (gpd @ rest) (length gpd) = Some (mem, n)"
  shows "512 dvd n \<and> n < length gpd + 512 \<and> take n mem = gpd @ replicate (n - length gpd) NUL \<and>
    length mem = length (gpd @ rest)"
proof (cases "length gpd mod 512 = 0")
  case True
  then show ?thesis using assms by (auto simp: pad512_def dvd_eq_mod_eq_0)
next
  case False
  define k where "k = 512 - length gpd mod 512"
  have k: "0 < k" "k \<le> 512" "length gpd mod 512 + k = 512" using False by (simp_all add: k_def less_imp_le)
  have m: "mem = gpd @ replicate k NUL @ drop k rest" "n = length gpd + k" "k \<le> length rest"
    using assms False by (auto simp: pad512_def Let_def split: if_splits simp flip: k_def)
  have "length gpd + k = length gpd div 512 * 512 + 512" using k(3) div_mult_mod_eq [of "length gpd" 512] by linarith
  then have "512 dvd n" unfolding m(2) by simp
  moreover have "n < length gpd + 512" using False by (simp add: m(2) k_def)
  ultimately show ?thesis using m by simp
qed

section \<open>What the upload sends\<close>

definition uart_out :: "effect list \<Rightarrow> char list list" where
  "uart_out es = concat (map (\<lambda>e. case e of GpsUart s \<Rightarrow> [s] | _ \<Rightarrow> []) es)"

lemma uart_out_simps [simp]:
  "uart_out [] = []" "uart_out (a @ b) = uart_out a @ uart_out b"
  "uart_out (e # es) = (case e of GpsUart s \<Rightarrow> [s] | _ \<Rightarrow> []) @ uart_out es"
  by (simp_all add: uart_out_def)

text \<open>The message of pack \<open>i\<close>, as sealed by \<open>GPS_CMDSend\<close>.\<close>

definition pack_message :: "u16 \<Rightarrow> char list option \<Rightarrow> char list" where
  "pack_message index pack =
     (let m = binary_message GPS_CMD_GPD_PACK (if index = 0xffff then 0x000b else 523)
            (lo_hi index @ (case pack of None \<Rightarrow> [] | Some p \<Rightarrow> take 512 p));
          len = unat (word_at m 2 - 3)
      in take (len + 3) (fst (GPS_CMDSend m GPS_FORMAT_BINARY gps_boot)))"

lemma take_message_sem:
  "take_message env f i st = Some st' \<Longrightarrow> semCmdSending st \<noteq> None \<Longrightarrow> semCmdSending st' \<noteq> None"
  by (auto simp: take_message_def Let_def split: prod.splits if_splits option.splits)

lemma GPS_Update_silent:
  "GPS_Update env d n st = Some (st', e) \<Longrightarrow> semCmdSending st \<noteq> None \<Longrightarrow> e = [] \<and> semCmdSending st' \<noteq> None"
  by (auto simp: GPS_Update_def update_command_def Let_def split: prod.splits if_splits dest!: take_message_sem)

lemma wait_command_silent:
  "wait_semaphore env rx st = Some (st', e) \<Longrightarrow> semCmdSending st \<noteq> None \<Longrightarrow> e = []"
proof (induction env rx st arbitrary: st' e rule: wait_semaphore.induct)
  case (2 env d rx st)
  then show ?case
    by (fastforce split: if_splits option.splits prod.splits dest: GPS_Update_silent)
qed simp

lemma SendCMDWaitAck_sends:
  assumes "GPS_SendCMDWaitAck env rx s f t st = Some (c, a, m, st', e)"
  shows "uart_out e = uart_out (snd (snd (GPS_CMDSend s f gps_boot)))"
proof -
  obtain msg st2 e1 where s: "GPS_CMDSend s f (st\<lparr>isCmdSendTimeOut := False, semCmdSending := Some 0\<rparr>) = (msg, st2, e1)"
    by (cases "GPS_CMDSend s f (st\<lparr>isCmdSendTimeOut := False, semCmdSending := Some 0\<rparr>)")
  then have s2: "semCmdSending st2 = Some 0" "e1 = snd (snd (GPS_CMDSend s f gps_boot))"
    by (auto simp: GPS_CMDSend_def Let_def split: GPS_Format_t.splits)
  then have "uart_out e = uart_out e1"
    using assms by (auto simp: GPS_SendCMDWaitAck_def s Let_def split: option.splits prod.splits if_splits
      dest!: wait_command_silent)
  then show ?thesis using s2 by simp
qed

lemma pack_sends:
  assumes "GPS_SendGPDPack env rx index pack st = Some (ok, st', e)"
  shows "uart_out e = [pack_message index pack]"
proof -
  let ?m = "binary_message GPS_CMD_GPD_PACK (if index = 0xffff then 0x000b else 523)
    (lo_hi index @ (case pack of None \<Rightarrow> [] | Some p \<Rightarrow> take 512 p))"
  obtain c a m s where "GPS_SendCMDWaitAck env rx ?m GPS_FORMAT_BINARY GPS_TIME_OUT_CMD st = Some (c, a, m, s, e)"
    using assms by (auto simp: GPS_SendGPDPack_def GPS_SendWaiteNormalAck_def Let_def split: if_splits)
  then show ?thesis by (simp add: SendCMDWaitAck_sends pack_message_def GPS_CMDSend_def GPS_Send_def Let_def)
qed

definition nth_pack :: "char list \<Rightarrow> nat \<Rightarrow> nat \<Rightarrow> char list" where
  "nth_pack data gpdLen i = (if i * 512 > gpdLen then pack_message 0xffff None
     else pack_message (of_nat i) (Some (take 512 (drop (i * 512) data))))"

definition repeated :: "(nat \<Rightarrow> 'm) \<Rightarrow> nat \<Rightarrow> nat list \<Rightarrow> 'm list" where
  "repeated f i ks = concat (map (\<lambda>j. replicate (ks ! j) (f (i + j))) [0..<length ks])"

lemma repeated_Cons: "repeated f i (k # ks) = replicate k (f i) @ repeated f (i + 1) ks"
  by (simp add: repeated_def upt_conv_Cons map_Suc_upt [symmetric] o_def del: upt_Suc)

lemma repeated_more: "ks \<noteq> [] \<Longrightarrow> repeated f i (Suc (hd ks) # tl ks) = f i # repeated f i ks"
  by (cases ks) (simp_all add: repeated_Cons)

lemma send_packs_sends:
  assumes "send_packs env data len i f rxs st out = Some (True, rxs', st', out')" "f \<le> 3" "i \<le> len div 512 + 1"
  shows "\<exists>ks. length ks = len div 512 + 2 - i \<and> (\<forall>k \<in> set ks. 1 \<le> k \<and> k \<le> 4) \<and> hd ks \<le> 4 - f \<and>
    uart_out out' = uart_out out @ repeated (nth_pack data len) i ks"
  using assms
proof (induction env data len i f rxs st out rule: send_packs.induct)
  case (1 env data len i f rxs st out)
  obtain rx rs where r: "next_rx rxs = (rx, rs)" by fastforce
  let ?done = "len < i * 512"
  define op where "op = GPS_SendGPDPack env rx (if ?done then 0xffff else of_nat i)
    (if ?done then None else Some (take 512 (drop (i * 512) data))) st"
  obtain ok st1 e where o: "op = Some (ok, st1, e)"
    using 1(3) r by (cases op) (auto simp: send_packs.simps [of env data len i f rxs] op_def Let_def)
  have u: "uart_out e = [nth_pack data len i]"
    using o unfolding op_def by (auto simp: nth_pack_def dest: pack_sends)
  have d: "?done \<longleftrightarrow> i > len div 512" by (simp add: div_less_iff_less_mult)
  note step = 1(3) [unfolded send_packs.simps [of env data len i f rxs] r Let_def prod.case op_def [symmetric] o option.case]
  show ?case
  proof (cases "ok")
    case True
    show ?thesis
    proof (cases "?done")
      case D: True
      then have "i = len div 512 + 1" "out' = out @ e" using d 1(5) step True by auto
      then show ?thesis using u 1(4) by (intro exI [of _ "[1]"]) (simp add: repeated_Cons, simp add: repeated_def)
    next
      case False
      have "send_packs env data len (i + 1) 0 rs st1 (out @ e) = Some (True, rxs', st', out')"
        using step True False by simp
      then obtain ks where ks: "length ks = len div 512 + 2 - (i + 1)" "\<forall>k \<in> set ks. 1 \<le> k \<and> k \<le> 4"
        "uart_out out' = uart_out (out @ e) @ repeated (nth_pack data len) (i + 1) ks"
        using 1(1) [OF refl r [symmetric] refl o [unfolded op_def] refl refl True False] d False by auto
      then show ?thesis using u d False 1(4) by (intro exI [of _ "1 # ks"]) (auto simp: repeated_Cons)
    qed
  next
    case False
    then have f: "\<not> 3 < f + 1" "send_packs env data len i (f + 1) rs st1 (out @ e) = Some (True, rxs', st', out')"
      using step by (auto split: if_splits)
    then obtain ks where ks: "length ks = len div 512 + 2 - i" "\<forall>k \<in> set ks. 1 \<le> k \<and> k \<le> 4" "hd ks \<le> 4 - (f + 1)"
      "uart_out out' = uart_out (out @ e) @ repeated (nth_pack data len) i ks"
      using 1(2) [OF refl r [symmetric] refl o [unfolded op_def] refl refl False f(1) f(2)] 1(5) by auto
    then have ne: "ks \<noteq> []" using 1(5) by auto
    have "\<forall>k \<in> set (tl ks). 1 \<le> k \<and> k \<le> 4" using ks(2) ne by (auto dest: list.set_sel(2))
    moreover have "1 \<le> hd ks" using ks(2) ne by auto
    ultimately show ?thesis using u ks ne f(1) 1(5)
      by (intro exI [of _ "Suc (hd ks) # tl ks"]) (auto simp: repeated_more)
  qed
qed

text \<open>The receiver's acknowledgement of a pack.\<close>

definition gpd_ack :: "u16 \<Rightarrow> char list" where
  "gpd_ack index = fst (GPS_CMDSend (binary_message GPS_CMD_ACK_GPD 12 (lo_hi index @ [CHR 0x01])) GPS_FORMAT_BINARY gps_boot)"

lemma gpd_ack_0: "gpd_ack 0 = [CHR 0xAA, CHR 0xF0, CHR 0x0C, NUL, CHR 0x03, NUL, NUL, NUL, CHR 0x01, CHR 0x0E, CR, LF]"
  by code_simp

lemma gpd_ack_end: "gpd_ack 0xffff = [CHR 0xAA, CHR 0xF0, CHR 0x0C, NUL, CHR 0x03, NUL, CHR 0xFF, CHR 0xFF, CHR 0x01, CHR 0x0E, CR, LF]"
  by code_simp

definition resting :: "gps_state \<Rightarrow> bool" where
  "resting st \<longleftrightarrow> ready st \<and> contents (gpsNmeaBuffer st) = []"

lemma binary_message_taken:
  assumes "waiting a st" "strstr a GPS_CMD_HEADER = None" "a = GPS_CMD_BINARY_HEADER @ x @ CRLF"
    "strstr a CRLF = Some (GPS_CMD_BINARY_HEADER @ x, CRLF)" "length a \<le> 1024" "env_malloc env"
  shows "\<exists>b'. update_command env st = Some (st\<lparr>gpsNmeaBuffer := b', gpsAckMsg := Some a, semCmdSending := Some 1\<rparr>) \<and>
    buffer_wf b' \<and> maxSize b' = 2048 \<and> contents b' = []"
proof -
  let ?b = "gpsNmeaBuffer st" and ?x = "GPS_CMD_BINARY_HEADER @ x"
  have w: "buffer_wf ?b" "contents ?b = a" "maxSize ?b = 2048" "semCmdSending st = Some 0"
    using assms(1) by (simp_all add: waiting_def)
  have c: "contents ?b = ?x @ CRLF @ []" using w(2) assms(3) by simp
  have h: "strstr a GPS_CMD_BINARY_HEADER = Some ([], a)" unfolding assms(3) by (rule strstr_here)
  obtain b' where b': "Buffer_Gets ?b (ucast (if Buffer_Size2 ?b (of_int (int (cell ?b (length ?x)))) + 1 >
        GPS_NMEA_FRAME_BUFFER_LENGTH then GPS_NMEA_FRAME_BUFFER_LENGTH
        else Buffer_Size2 ?b (of_int (int (cell ?b (length ?x)))) + 1)) = (True, take (frame_len (length ?x + 2)) (contents ?b), b')"
    "buffer_wf b'" "maxSize b' = maxSize ?b" "contents b' = drop (frame_len (length ?x + 2)) (contents ?b)"
    using cut_line [OF w(1) c refl] by blast
  have "length ?x + 2 = length (contents ?b)" by (simp add: c)
  then have n: "frame_len (length ?x + 2) = length (contents ?b)" using assms(5) w(2) by (simp add: frame_len_def)
  have q0: "query ?b GPS_CMD_HEADER (ucast (Buffer_StartPostion ?b)) = - 1"
    using query_start [OF w(1), of GPS_CMD_HEADER] assms(2) w(2) by simp
  have q1: "query ?b GPS_CMD_BINARY_HEADER (ucast (Buffer_StartPostion ?b)) = int (cell ?b 0)"
    using query_start [OF w(1), of GPS_CMD_BINARY_HEADER] h w(2) by simp
  have q2: "query ?b CRLF (of_int (int (cell ?b 0))) = int (cell ?b (length ?x))"
    using query_from [OF w(1), of CRLF "[]" a] assms(4) w(2) by simp
  have t: "binary_header a = Some 0" using h by (simp add: binary_header_def)
  have "take_message env binary_header (int (cell ?b (length ?x))) st =
      Some (st\<lparr>gpsNmeaBuffer := b', gpsAckMsg := Some a, semCmdSending := Some 1\<rparr>)"
    unfolding take_message_def Let_def b'(1) prod.case using w(2,4) t n assms(6) by simp
  then have "update_command env st = Some (st\<lparr>gpsNmeaBuffer := b', gpsAckMsg := Some a, semCmdSending := Some 1\<rparr>)"
    unfolding update_command_def Let_def q0 q1 q2 by simp
  then show ?thesis using b'(2-4) n w(3) by auto
qed

lemma gpd_answered:
  assumes "resting st" "env_malloc env" "gpd_ack index = GPS_CMD_BINARY_HEADER @ x @ CRLF"
    "strstr (gpd_ack index) GPS_CMD_HEADER = None" "strstr (gpd_ack index) CRLF = Some (GPS_CMD_BINARY_HEADER @ x, CRLF)"
    "length (gpd_ack index) = 12" "GPS_GetAckCmdBinary (gpd_ack index) = 3" "GPS_CheckParityBinary (gpd_ack index)"
    "byte_at (gpd_ack index) 8 = 1"
    "byte_at (gpd_ack index) 6 = byte (lo_hi index ! 0)" "byte_at (gpd_ack index) 7 = byte (lo_hi index ! 1)"
  shows "\<exists>st' e. GPS_SendGPDPack env [gpd_ack index] index pack st = Some (True, st', e) \<and> resting st'"
proof -
  let ?a = "gpd_ack index"
  let ?s = "binary_message GPS_CMD_GPD_PACK (if index = 0xffff then 0x000b else 523)
    (lo_hi index @ (case pack of None \<Rightarrow> [] | Some p \<Rightarrow> take 512 p))"
  define st1 where "st1 = st\<lparr>isCmdSendTimeOut := False, semCmdSending := Some 0\<rparr>"
  define m where "m = fst (GPS_CMDSend ?s GPS_FORMAT_BINARY st1)"
  obtain e1 where s: "GPS_CMDSend ?s GPS_FORMAT_BINARY st1 = (m, st1, e1)"
    by (simp add: m_def GPS_CMDSend_def Let_def)
  have w: "waiting [] st1" using assms(1) by (simp add: resting_def ready_def waiting_def st1_def)
  obtain b where b: "waiting ?a (st1\<lparr>gpsNmeaBuffer := b\<rparr>)"
    "GPS_Update env ?a (of_nat (length ?a)) st1 = map_option (\<lambda>s. (s, [])) (update_command env (st1\<lparr>gpsNmeaBuffer := b\<rparr>))"
    using GPS_Update_waiting [OF w, of ?a env] assms(6) by auto
  obtain b' where b': "update_command env (st1\<lparr>gpsNmeaBuffer := b\<rparr>) =
      Some (st1\<lparr>gpsNmeaBuffer := b', gpsAckMsg := Some ?a, semCmdSending := Some 1\<rparr>)"
    "buffer_wf b'" "maxSize b' = 2048" "contents b' = []"
    using binary_message_taken [OF b(1) assms(4,3) _ _ assms(2)] assms(5,6) by auto
  have ws: "wait_semaphore env [?a] st1 = Some (st1\<lparr>gpsNmeaBuffer := b', gpsAckMsg := Some ?a, semCmdSending := Some 1\<rparr>, [])"
    using b(2) b'(1) by (simp add: st1_def)
  have t: "take 2 ?a = GPS_CMD_BINARY_HEADER" unfolding assms(3) by (simp add: GPS_CMD_BINARY_HEADER_def)
  have l: "unat (word_at ?s 2 - 3) \<ge> 8"
    unfolding message_length by simp
  have sm: "byte_at ?s 6 = byte (lo_hi index ! 0)" "byte_at ?s 7 = byte (lo_hi index ! 1)"
    by (simp_all add: byte_at_def binary_message_def GPS_CMD_BINARY_HEADER_def lo_hi_def)
  have bm: "byte_at m i = byte_at ?s i" if "i < 8" for i
    using l that by (simp add: m_def GPS_CMDSend_def Let_def)
  have "GPS_SendCMDWaitAck env [?a] ?s GPS_FORMAT_BINARY GPS_TIME_OUT_CMD st =
    Some (3, Some ?a, m, st1\<lparr>gpsNmeaBuffer := b', gpsAckMsg := Some ?a, semCmdSending := None\<rparr>,
      e1 @ [StartTimer 1500 ''OnCmdAckFail'', StopTimer ''OnCmdAckFail''])"
    unfolding GPS_SendCMDWaitAck_def Let_def st1_def [symmetric] s prod.case ws option.case
    using t assms(7,8) by (simp add: st1_def)
  then show ?thesis using b'(2-4) bm sm assms(9-11)
    by (simp add: GPS_SendGPDPack_def GPS_SendWaiteNormalAck_def Let_def resting_def ready_def)
qed

text \<open>C18. A successful upload delivers every 512-byte block of the file in order and then the end
  marker: the messages on the UART are, block after block, the sealed message of the block,
  each repeated between one and four times. (As the length is padded to a multiple of 512 the
  block after the last, what the memory holds there, is sent as well.)\<close>

theorem AGPS_upload_order:
  assumes "send_packs env data gpdLen 0 0 rxs st out = Some (True, rxs', st', out')"
  shows "\<exists>ks. length ks = gpdLen div 512 + 2 \<and> (\<forall>k \<in> set ks. 1 \<le> k \<and> k \<le> 4) \<and>
    uart_out out' = uart_out out @ repeated (nth_pack data gpdLen) 0 ks"
  using send_packs_sends [OF assms] by auto

lemma resting_boot: "resting gps_boot"
  using ready_boot boot_buffer by (simp add: resting_def)

lemma AGPS_upload_order_witness:
  "\<forall>env. \<exists>st' out' ks. send_packs (env\<lparr>env_malloc := True\<rparr>) (replicate 512 NUL) 0 0 0 [[gpd_ack 0], [gpd_ack 0xffff]] gps_boot [] =
      Some (True, [], st', out') \<and> length ks = 2 \<and>
    uart_out out' = repeated (nth_pack (replicate 512 NUL) 0) 0 ks"
proof
  fix env :: gps_env
  let ?env = "env\<lparr>env_malloc := True\<rparr>" and ?d = "replicate 512 NUL"
  have h: "GPS_CMD_BINARY_HEADER = [CHR 0xAA, CHR 0xF0]" "GPS_CMD_HEADER = ''$PGKC''" by code_simp+
  have p: "GPS_GetAckCmdBinary (gpd_ack 0) = 3" "GPS_CheckParityBinary (gpd_ack 0)"
    "byte_at (gpd_ack 0) 8 = 1" "byte_at (gpd_ack 0) 6 = byte (lo_hi 0 ! 0)" "byte_at (gpd_ack 0) 7 = byte (lo_hi 0 ! 1)"
    "GPS_GetAckCmdBinary (gpd_ack 0xffff) = 3" "GPS_CheckParityBinary (gpd_ack 0xffff)"
    "byte_at (gpd_ack 0xffff) 8 = 1" "byte_at (gpd_ack 0xffff) 6 = byte (lo_hi 0xffff ! 0)"
    "byte_at (gpd_ack 0xffff) 7 = byte (lo_hi 0xffff ! 1)"
    by code_simp+
  have a0: "\<exists>st' e. GPS_SendGPDPack ?env [gpd_ack 0] 0 pack st = Some (True, st', e) \<and> resting st'" if "resting st" for st pack
    by (rule gpd_answered [where x = "[CHR 0x0C, NUL, CHR 0x03, NUL, NUL, NUL, CHR 0x01, CHR 0x0E]"])
      (use that p in \<open>simp_all add: gpd_ack_0 h\<close>)
  have a1: "\<exists>st' e. GPS_SendGPDPack ?env [gpd_ack 0xffff] 0xffff pack st = Some (True, st', e) \<and> resting st'" if "resting st" for st pack
    by (rule gpd_answered [where x = "[CHR 0x0C, NUL, CHR 0x03, NUL, CHR 0xFF, CHR 0xFF, CHR 0x01, CHR 0x0E]"])
      (use that p in \<open>simp_all add: gpd_ack_end h\<close>)
  obtain st1 e1 where s1: "GPS_SendGPDPack ?env [gpd_ack 0] 0 (Some (take 512 ?d)) gps_boot = Some (True, st1, e1)" "resting st1"
    using a0 [OF resting_boot] by blast
  obtain st2 e2 where s2: "GPS_SendGPDPack ?env [gpd_ack 0xffff] 0xffff None st1 = Some (True, st2, e2)"
    using a1 [OF s1(2)] by blast
  have r: "send_packs ?env ?d 0 0 0 [[gpd_ack 0], [gpd_ack 0xffff]] gps_boot [] = Some (True, [], st2, e1 @ e2)"
    using s1(1) s2 by (simp add: send_packs.simps [of ?env ?d 0] next_rx_def Let_def)
  obtain ks where "length ks = 0 div 512 + 2 \<and> (\<forall>k \<in> set ks. 1 \<le> k \<and> k \<le> 4) \<and>
      uart_out (e1 @ e2) = uart_out [] @ repeated (nth_pack ?d 0) 0 ks"
    using AGPS_upload_order [OF r] by (elim exE)
  then have "length ks = 2" "uart_out (e1 @ e2) = repeated (nth_pack ?d 0) 0 ks" by simp_all
  with r show "\<exists>st' out' ks. send_packs ?env ?d 0 0 0 [[gpd_ack 0], [gpd_ack 0xffff]] gps_boot [] = Some (True, [], st', out') \<and>
      length ks = 2 \<and> uart_out out' = repeated (nth_pack ?d 0) 0 ks"
    by (intro exI conjI)
qed

end
