(* ===== verification/Ntp.thy ===== *)
theory Ntp
  imports C_Stdlib
begin

text \<open>
  \<open>libs/utils/src/ntp.c\<close>: one NTP request over UDP and the clock computed from the reply. The
  SDK's answers are the record \<open>ntp_net\<close>, with one entry per turn of the receiving loop; the
  processor is little-endian, \<open>ntohl\<close> swaps the bytes of a word.
\<close>

definition NTP_TIMESTAMP_70_YEARS :: u32 where "NTP_TIMESTAMP_70_YEARS = 2208988800"
definition TIME_2000_1970_S :: u32 where "TIME_2000_1970_S = 946684800"

record ntp_packet =
  li_vn_mode :: u8
  stratum :: u8
  poll :: u8
  precision :: u8
  rootDelay :: u32
  rootDispersion :: u32
  refId :: u32
  refTm_s :: u32
  refTm_f :: u32
  origTm_s :: u32
  origTm_f :: u32
  rxTm_s :: u32
  rxTm_f :: u32
  txTm_s :: u32
  txTm_f :: u32

section \<open>Bytes and words\<close>

definition byte_char :: "u32 \<Rightarrow> char" where "byte_char w = char_of (unat w mod 256)"

definition le32_bytes :: "u32 \<Rightarrow> char list" where
  "le32_bytes w = map (\<lambda>k. byte_char (drop_bit (8 * k) w)) [0, 1, 2, 3]"

definition le32_at :: "char list \<Rightarrow> nat \<Rightarrow> u32" where
  "le32_at bs i = of_nat (code (bs ! i) + 256 * code (bs ! (i + 1)) + 65536 * code (bs ! (i + 2)) + 16777216 * code (bs ! (i + 3)))"

definition ntohl :: "u32 \<Rightarrow> u32" where
  "ntohl w = le32_at (rev (le32_bytes w)) 0"

definition packet_of :: "char list \<Rightarrow> ntp_packet" where
  "packet_of bs = \<lparr>li_vn_mode = byte (bs ! 0), stratum = byte (bs ! 1), poll = byte (bs ! 2), precision = byte (bs ! 3),
     rootDelay = le32_at bs 4, rootDispersion = le32_at bs 8, refId = le32_at bs 12,
     refTm_s = le32_at bs 16, refTm_f = le32_at bs 20, origTm_s = le32_at bs 24, origTm_f = le32_at bs 28,
     rxTm_s = le32_at bs 32, rxTm_f = le32_at bs 36, txTm_s = le32_at bs 40, txTm_f = le32_at bs 44\<rparr>"

definition packet_bytes :: "ntp_packet \<Rightarrow> char list" where
  "packet_bytes p = map (\<lambda>b. char_of (unat b)) [li_vn_mode p, stratum p, poll p, precision p] @
     le32_bytes (rootDelay p) @ le32_bytes (rootDispersion p) @ le32_bytes (refId p) @
     le32_bytes (refTm_s p) @ le32_bytes (refTm_f p) @ le32_bytes (origTm_s p) @ le32_bytes (origTm_f p) @
     le32_bytes (rxTm_s p) @ le32_bytes (rxTm_f p) @ le32_bytes (txTm_s p) @ le32_bytes (txTm_f p)"

definition zero_packet :: ntp_packet where
  "zero_packet = \<lparr>li_vn_mode = 0, stratum = 0, poll = 0, precision = 0, rootDelay = 0, rootDispersion = 0, refId = 0,
     refTm_s = 0, refTm_f = 0, origTm_s = 0, origTm_f = 0, rxTm_s = 0, rxTm_f = 0, txTm_s = 0, txTm_f = 0\<rparr>"

section \<open>The exchange\<close>

datatype ntp_event = Ntp_SelError | Ntp_SelTimeout | Ntp_NotSet | Ntp_ReadError | Ntp_Read "char list"

record ntp_net =
  ntp_socket :: int
  ntp_dns :: bool               \<comment> \<open>\<open>DNS_GetHostByName2\<close> returned 0\<close>
  ntp_connect :: int
  ntp_write :: int              \<comment> \<open>the bytes \<open>write\<close> took, or an error\<close>
  ntp_events :: "ntp_event list"
  ntp_time_sent :: u32          \<comment> \<open>\<open>time(NULL)\<close> before the request and after the reply\<close>
  ntp_time_got :: u32
  TIME_SetSystemTime :: bool

text \<open>
  The loop ends with an error code or, when 48 bytes are there, with the packet's bytes. Its
  trace lines are left out. A server that sends nothing more is a timeout of \<open>select\<close>.
\<close>

fun ntp_recv :: "char list \<Rightarrow> ntp_event list \<Rightarrow> int + char list" where
  "ntp_recv got [] = Inl (- 5)"
| "ntp_recv got (e # es) =
     (case e of
        Ntp_SelError \<Rightarrow> Inl (- 4)
      | Ntp_SelTimeout \<Rightarrow> Inl (- 5)
      | Ntp_NotSet \<Rightarrow> ntp_recv got es
      | Ntp_ReadError \<Rightarrow> Inl (- 6)
      | Ntp_Read d \<Rightarrow>
          let d' = take (48 - length got) d in
          if d' = [] then Inl (- 7)
          else if length got + length d' = 48 then Inr (got @ d')
          else ntp_recv (got @ d') es)"

definition ntp_request :: "u32 \<Rightarrow> ntp_packet" where
  "ntp_request now = zero_packet\<lparr>li_vn_mode := push_bit 6 0 OR push_bit 3 4 OR 3,
     txTm_s := ntohl (now + NTP_TIMESTAMP_70_YEARS)\<rparr>"

text \<open>
  The clock: the division is one of unsigned numbers, its result is read as an \<open>int32_t\<close>.
  The value stored in the 32-bit \<open>time_t\<close> is given by its bits.
\<close>

definition ntp_clock :: "ntp_packet \<Rightarrow> u32 \<Rightarrow> u32" where
  "ntp_clock packet now =
     (let p = packet\<lparr>refTm_s := ntohl (refTm_s packet), origTm_s := ntohl (origTm_s packet),
                rxTm_s := ntohl (rxTm_s packet), txTm_s := ntohl (txTm_s packet)\<rparr>;
          t4 = now + NTP_TIMESTAMP_70_YEARS;
          delta = ((rxTm_s p - origTm_s p) + (txTm_s p - t4)) div 2
      in t4 + delta - NTP_TIMESTAMP_70_YEARS)"

definition ntp_close :: "ntp_net \<Rightarrow> effect" where "ntp_close net = Sdk ''close'' [ntp_socket net]"

definition NTP_Update :: "ntp_net \<Rightarrow> bool \<Rightarrow> int \<times> u32 option \<times> effect list" where
  "NTP_Update net isSetRTC =
     (if ntp_socket net < 0 then (- 1, None, [TraceOut 1 ''get socket error''])
      else if \<not> ntp_dns net then (- 11, None, [Sdk ''socket'' [], TraceOut 1 ''get ip error''])
      else if ntp_connect net < 0
      then (- 2, None, [Sdk ''socket'' [], TraceOut 1 ''connect error'', ntp_close net])
      else
        if ntp_write net < 0
        then (- 3, None, [Sdk ''socket'' [], TraceOut 1 ''send request error'', ntp_close net])
        else
          let out = [Sdk ''socket'' [], SockSend (take (nat (ntp_write net)) (packet_bytes (ntp_request (ntp_time_sent net))))] in
          case ntp_recv [] (ntp_events net) of
            Inl e \<Rightarrow> (e, None, out @ [ntp_close net])
          | Inr bytes \<Rightarrow>
              let timeNow = ntp_clock (packet_of bytes) (ntp_time_got net);
                  out = out @ [ntp_close net]
              in if isSetRTC then
                   let out = out @ [Sdk ''TIME_SetSystemTime'' [uint (timeNow - TIME_2000_1970_S)]]
                   in if \<not> TIME_SetSystemTime net then (- 8, Some timeNow, out) else (0, Some timeNow, out)
                 else (0, Some timeNow, out))"

section \<open>Byte order\<close>

lemma split4: "(n::nat) < 4294967296 \<Longrightarrow>
    n mod 256 + 256 * (n div 256 mod 256) + 65536 * (n div 65536 mod 256) + 16777216 * (n div 16777216 mod 256) = n"
proof -
  assume n: "n < 4294967296"
  have "n mod 4294967296 = 16777216 * (n div 16777216 mod 256) + n mod 16777216"
    using mod_mult2_eq [of n 16777216 256] by simp
  moreover have "n mod 16777216 = 65536 * (n div 65536 mod 256) + n mod 65536"
    using mod_mult2_eq [of n 65536 256] by simp
  moreover have "n mod 65536 = 256 * (n div 256 mod 256) + n mod 256"
    using mod_mult2_eq [of n 256 256] by simp
  ultimately show ?thesis using n by simp
qed

lemma code_byte_char: "code (byte_char w) = unat w mod 256"
  by (simp add: byte_char_def)

lemma le32_bytes_eq:
  "le32_bytes w = map (\<lambda>m. char_of m) [unat w mod 256, unat w div 256 mod 256, unat w div 65536 mod 256, unat w div 16777216 mod 256]"
  by (simp add: le32_bytes_def byte_char_def unsigned_drop_bit_eq drop_bit_eq_div take_bit_length_eq unat_div_distrib)

lemma le32_at_bytes: "le32_at (le32_bytes w) 0 = w"
proof -
  have "unat w < 4294967296" using unsigned_less [where 'a = nat, of w] by simp
  then have "unat w mod 256 + 256 * (unat w div 256 mod 256) + 65536 * (unat w div 65536 mod 256) +
      16777216 * (unat w div 16777216 mod 256) = unat w" by (rule split4)
  then show ?thesis by (simp only: le32_at_def le32_bytes_eq list.map nth_Cons_0 nth_Cons_Suc add_0 One_nat_def
        numeral_2_eq_2 numeral_3_eq_3 of_char_mod_256 char_of_mod_256 of_char_of) simp
qed

lemma le32_bytes_at:
  assumes "bs = [a, b, c, d]"
  shows "le32_bytes (le32_at bs 0) = bs"
proof -
  define n where "n = code a + 256 * code b + 65536 * code c + 16777216 * code d"
  have l: "code x < 256" for x
  proof -
    have "code x mod 256 < 256" by (rule mod_less_divisor) simp
    then show ?thesis by (simp only: of_char_mod_256)
  qed
  have n: "n < 4294967296" using l [of a] l [of b] l [of c] l [of d] unfolding n_def by linarith
  have u: "unat (le32_at bs 0) = n"
  proof -
    have "le32_at bs 0 = of_nat n" unfolding le32_at_def n_def assms by (simp add: numeral_2_eq_2 numeral_3_eq_3)
    then show ?thesis using n by (simp add: unat_of_nat)
  qed
  have 0: "n mod 256 = code a"
    using mod_mult_self4 [of 256 "code b + 256 * code c + 65536 * code d" "code a"] l [of a]
    by (simp add: n_def algebra_simps)
  have q1: "n div 256 = code b + 256 * code c + 65536 * code d"
    using div_mult_self4 [of 256 "code b + 256 * code c + 65536 * code d" "code a"] l [of a]
    by (simp add: n_def algebra_simps)
  have 1: "n div 256 mod 256 = code b" unfolding q1
    using mod_mult_self4 [of 256 "code c + 256 * code d" "code b"] l [of b] by (simp add: algebra_simps)
  have q2: "n div 65536 = code c + 256 * code d"
    using div_mult_self4 [of 256 "code c + 256 * code d" "code b"] l [of b] div_mult2_eq [of n 256 256] q1
    by (simp add: algebra_simps)
  have 2: "n div 65536 mod 256 = code c" unfolding q2
    using mod_mult_self4 [of 256 "code d" "code c"] l [of c] by (simp add: algebra_simps)
  have q3: "n div 16777216 = code d"
    using div_mult_self4 [of 256 "code d" "code c"] l [of c] div_mult2_eq [of n 65536 256] q2
    by (simp add: algebra_simps)
  have 3: "n div 16777216 mod 256 = code d" unfolding q3 using l [of d] by simp
  show ?thesis unfolding le32_bytes_eq u 0 1 2 3 by (simp add: assms)
qed

text \<open>A word as it travels, the most significant byte first.\<close>

definition be32 :: "u32 \<Rightarrow> char list" where "be32 w = rev (le32_bytes w)"

lemma length_be32 [simp]: "length (be32 w) = 4" "length (le32_bytes w) = 4"
  by (simp_all add: be32_def le32_bytes_def)

lemma ntohl_be32: "ntohl (le32_at (be32 w) 0) = w"
proof -
  have "\<exists>a b c d. be32 w = [a, b, c, d]" by (simp add: be32_def le32_bytes_def)
  then have "le32_bytes (le32_at (be32 w) 0) = be32 w" using le32_bytes_at by blast
  then show ?thesis by (simp add: ntohl_def be32_def le32_at_bytes)
qed

lemma le32_at_drop: "i + 4 \<le> length bs \<Longrightarrow> le32_at bs i = le32_at (take 4 (drop i bs)) 0"
  by (simp add: le32_at_def)

lemma le32_bytes_ntohl: "le32_bytes (ntohl w) = be32 w"
proof -
  obtain a b c d where "rev (le32_bytes w) = [a, b, c, d]" by (simp add: le32_bytes_def)
  then show ?thesis unfolding ntohl_def be32_def by (rule le32_bytes_at)
qed

section \<open>The exchange in any chunking\<close>

lemma ntp_recv_chunks:
  assumes "length got + length (concat chunks) = 48" "[] \<notin> set chunks" "chunks \<noteq> []"
  shows "ntp_recv got (map Ntp_Read chunks) = Inr (got @ concat chunks)"
  using assms
proof (induction chunks arbitrary: got)
  case (Cons d ds)
  show ?case
  proof (cases "ds = []")
    case True
    then show ?thesis using Cons.prems by simp
  next
    case False
    then have "concat ds \<noteq> []" using Cons.prems(2) by (cases ds) auto
    then have "length got + length d < 48" using Cons.prems(1) by (cases "concat ds") auto
    then show ?thesis using Cons.IH [of "got @ d"] Cons.prems False by auto
  qed
qed simp

text \<open>A reply: 24 bytes of no interest, then the three time stamps, each with a fraction of four bytes.\<close>

definition reply_bytes :: "char list \<Rightarrow> u32 \<Rightarrow> char list \<Rightarrow> u32 \<Rightarrow> char list \<Rightarrow> u32 \<Rightarrow> char list \<Rightarrow> char list" where
  "reply_bytes head orig f1 rx f2 tx f3 = head @ be32 orig @ f1 @ be32 rx @ f2 @ be32 tx @ f3"

lemma reply_fields:
  assumes "length head = 24" "length f1 = 4" "length f2 = 4" "length f3 = 4"
  shows "ntohl (origTm_s (packet_of (reply_bytes head orig f1 rx f2 tx f3))) = orig"
    "ntohl (rxTm_s (packet_of (reply_bytes head orig f1 rx f2 tx f3))) = rx"
    "ntohl (txTm_s (packet_of (reply_bytes head orig f1 rx f2 tx f3))) = tx"
proof -
  let ?bs = "reply_bytes head orig f1 rx f2 tx f3"
  have "take 4 (drop 24 ?bs) = be32 orig" "take 4 (drop 32 ?bs) = be32 rx" "take 4 (drop 40 ?bs) = be32 tx"
    using assms by (simp_all add: reply_bytes_def)
  moreover have "length ?bs = 48" using assms by (simp add: reply_bytes_def)
  ultimately show "ntohl (origTm_s (packet_of ?bs)) = orig" "ntohl (rxTm_s (packet_of ?bs)) = rx" "ntohl (txTm_s (packet_of ?bs)) = tx"
    by (simp_all add: packet_of_def ntohl_be32 le32_at_drop [of 24] le32_at_drop [of 32] le32_at_drop [of 40])
qed

lemma half_word:
  assumes "\<bar>s\<bar> < 4294967296"
  shows "(of_int s :: u32) div 2 = of_int (s div 2) + (if s < 0 then 2147483648 else 0)"
proof -
  have u: "uint (of_int s :: u32) = (if s < 0 then s + 4294967296 else s)"
  proof (cases "s < 0")
    case True
    have "uint (of_int s :: u32) = (s + 4294967296) mod 4294967296" by (simp add: uint_word_of_int)
    also have "\<dots> = s + 4294967296" by (rule mod_pos_pos_trivial) (use assms True in auto)
    finally show ?thesis using True by simp
  next
    case False
    have "uint (of_int s :: u32) = s mod 4294967296" by (simp add: uint_word_of_int)
    also have "\<dots> = s" by (rule mod_pos_pos_trivial) (use assms False in auto)
    finally show ?thesis using False by simp
  qed
  have "(of_int s :: u32) div 2 = of_int (uint (of_int s :: u32) div 2)"
    by (simp add: word_div_def)
  also have "\<dots> = of_int (s div 2) + (if s < 0 then 2147483648 else 0)"
  proof (cases "s < 0")
    case True
    have "(s + 4294967296) div 2 = s div 2 + 2147483648" by simp
    then show ?thesis using True unfolding u by simp
  next
    case False
    then show ?thesis unfolding u by simp
  qed
  finally show ?thesis .
qed



end
