(* ===== verification/Lcd_Ili9341.thy ===== *)
theory Lcd_Ili9341
  imports C_Stdlib
begin

text \<open>
  The driver of the ILI9341 display, \<open>libs/lcd/ili9341/src/ili9341.c\<close>: its lock, which a task
  takes and the end of the transfer (a callback of the SDK's display engine) gives back, the
  drawing operations, sleep and wake-up, rotation. A wait for the lock takes the list of what
  other tasks do during each pause; \<open>None\<close> is a wait that is not over after them. A command the
  engine refuses is repeated by the macros of the driver until it is accepted, and only the
  accepted one is an effect. Pins of the bus are set up by the SDK's register file.
\<close>

section \<open>Types and constants\<close>

datatype LCD_Error_t = LCD_ERROR_NONE | LCD_ERROR_RESOURCE_BUSY | LCD_ERROR_INVALID_PARAMETER

datatype LCD_Color_Format_t = LCD_COLOR_FORMAT_RGB_INVALID | LCD_COLOR_FORMAT_RGB_565 | LCD_COLOR_FORMAT_MAX

record LCD_ROI_t =
  roi_x :: u16
  roi_y :: u16
  roi_width :: u16
  roi_height :: u16

text \<open>A buffer is its address, 0 for NULL.\<close>

record LCD_FB_t =
  fb_buffer :: u32
  fb_width :: u16
  fb_height :: u16
  fb_colorFormat :: LCD_Color_Format_t

record LCD_FBW_t =
  fbw_fb :: LCD_FB_t
  fbw_roi :: LCD_ROI_t

record LCD_Screen_Info_t =
  si_width :: u16
  si_height :: u16
  si_bitdepth :: u8
  si_nReserved :: u16

text \<open>A window of the display engine: its first and last column and row.\<close>

record HAL_GOUDA_WINDOW_T =
  tlPX :: u16
  tlPY :: u16
  brPX :: u16
  brPY :: u16

abbreviation LCDD_DISP_X :: u16 where "LCDD_DISP_X \<equiv> 240"
abbreviation LCDD_DISP_Y :: u16 where "LCDD_DISP_Y \<equiv> 320"
abbreviation LCDD_TIME_MUTEX_RETRY :: int where "LCDD_TIME_MUTEX_RETRY \<equiv> 200"

text \<open>The static variables. The callback of the application is only known to be set or not.\<close>

record lcd_state =
  g_lcddLock :: u32
  g_lcddRotate :: bool
  g_lcddAutoCloseLayer :: bool
  g_lcddInSleep :: bool
  pOnBlt :: bool

definition lcd_boot :: lcd_state where
  "lcd_boot = \<lparr>g_lcddLock = 0, g_lcddRotate = False, g_lcddAutoCloseLayer = False, g_lcddInSleep = False, pOnBlt = False\<rparr>"

section \<open>The lock\<close>

definition lcdd_MutexFree :: "lcd_state \<Rightarrow> lcd_state" where
  "lcdd_MutexFree st = st\<lparr>g_lcddLock := 1\<rparr>"

definition lcdd_MutexGet :: "lcd_state \<Rightarrow> u32 \<times> lcd_state" where
  "lcdd_MutexGet st = (if g_lcddLock st = 1 then (1, st\<lparr>g_lcddLock := 0\<rparr>) else (0, st))"

text \<open>\<open>while (0 == lcdd_MutexGet()) retry\<close>, with what others do during each \<open>retry\<close>.\<close>

fun lock_wait :: "('s \<Rightarrow> u32 \<times> 's) \<Rightarrow> effect list \<Rightarrow> ('s \<Rightarrow> 's) list \<Rightarrow> 's \<Rightarrow> ('s \<times> effect list) option" where
  "lock_wait get retry others st =
     (case get st of (r, st') \<Rightarrow>
        if r \<noteq> 0 then Some (st', [])
        else (case others of
            [] \<Rightarrow> None
          | f # fs \<Rightarrow> map_option (\<lambda>(s, out). (s, retry @ out)) (lock_wait get retry fs (f st'))))"

declare lock_wait.simps [simp del]

section \<open>The display engine\<close>

definition LCM_WR_CMD :: "int \<Rightarrow> effect" where "LCM_WR_CMD c = Sdk ''hal_GoudaWriteCmd'' [c]"
definition LCM_WR_DAT :: "int \<Rightarrow> effect" where "LCM_WR_DAT d = Sdk ''hal_GoudaWriteData'' [d]"
definition LCM_WR_REG :: "int \<Rightarrow> int \<Rightarrow> effect" where "LCM_WR_REG a d = Sdk ''hal_GoudaWriteReg'' [a, d]"

definition Trace1 :: "cstr \<Rightarrow> fmtarg list \<Rightarrow> effect" where
  "Trace1 fmt args = TraceOut 1 (sprintf fmt args)"

text \<open>\<open>hal_GoudaSerialOpen(LCDD_SPI_LINE_TYPE, LCDD_SPI_FREQ, &g_tgtLcddCfg, 0)\<close>\<close>

definition gouda_open :: effect where
  "gouda_open = Sdk ''hal_GoudaSerialOpen'' [0, 50000000, 0]"

text \<open>The end of a transfer.\<close>

definition lcddp_GoudaBlitHandler :: "lcd_state \<Rightarrow> lcd_state \<times> effect list" where
  "lcddp_GoudaBlitHandler st0 =
     (let st = lcdd_MutexFree st0 in
      (st\<lparr>g_lcddAutoCloseLayer := False\<rparr>,
       (if g_lcddAutoCloseLayer st then [Sdk ''hal_GoudaOvlLayerClose'' [0]] else []) @
       (if pOnBlt st then [Sdk ''pOnBlt'' []] else [])))"

text \<open>A command with its data bytes, and the start-up sequence of the panel.\<close>

definition lcm_write :: "int \<Rightarrow> int list \<Rightarrow> effect list" where
  "lcm_write c ds = LCM_WR_CMD c # map LCM_WR_DAT ds"

definition lcddp_Init :: "effect list" where
  "lcddp_Init =
     [LCM_WR_CMD 0x11, Sdk ''OS_Sleep'' [50]] @
     lcm_write 0xCB [0x01] @
     lcm_write 0xC0 [0x26, 0x08] @
     lcm_write 0xC1 [0x10] @
     lcm_write 0xC5 [0x35, 0x3E] @
     lcm_write 0x36 [0x48] @
     lcm_write 0xB1 [0x00, 0x16] @
     lcm_write 0xB6 [0x0A, 0x82] @
     lcm_write 0xC7 [0xB5] @
     lcm_write 0xF2 [0x00] @
     lcm_write 0x26 [0x01] @
     lcm_write 0x3A [0x55] @
     lcm_write 0xE0 [0x1F, 0x1A, 0x18, 0x0A, 0x0F, 0x06, 0x45, 0x87, 0x32, 0x0A, 0x07, 0x02, 0x07, 0x05, 0x00] @
     lcm_write 0xE1 [0x00, 0x25, 0x27, 0x05, 0x10, 0x09, 0x3A, 0x78, 0x4D, 0x05, 0x18, 0x0D, 0x38, 0x3A, 0x1F] @
     [LCM_WR_CMD 0x29]"

definition lcddp_Open :: "lcd_state \<Rightarrow> LCD_Error_t \<times> lcd_state \<times> effect list" where
  "lcddp_Open st =
     (LCD_ERROR_NONE, st\<lparr>g_lcddInSleep := False\<rparr>,
      [Trace1 ''ili9341 lcddp_Open'' [], gouda_open, Sdk ''OS_Sleep'' [50]] @ lcddp_Init)"

definition lcddp_Close :: "lcd_state \<Rightarrow> LCD_Error_t \<times> lcd_state \<times> effect list" where
  "lcddp_Close st = (LCD_ERROR_NONE, st, [Sdk ''hal_GoudaClose'' []])"

section \<open>Drawing\<close>

text \<open>The high and the low byte of a coordinate.\<close>

definition hi_lo :: "u16 \<Rightarrow> int list" where
  "hi_lo v = [uint (drop_bit 8 v), uint (v AND 0x00ff)]"

definition set_window :: "HAL_GOUDA_WINDOW_T \<Rightarrow> effect list" where
  "set_window w = lcm_write 0x2a (hi_lo (tlPX w) @ hi_lo (brPX w)) @ lcm_write 0x2b (hi_lo (tlPY w) @ hi_lo (brPY w))"

text \<open>\<open>lcddp_BlitRoi2Win\<close>; the two branches on \<open>g_lcddRotate\<close> write the same.\<close>

definition lcddp_BlitRoi2Win :: "HAL_GOUDA_WINDOW_T \<Rightarrow> HAL_GOUDA_WINDOW_T \<Rightarrow> lcd_state \<Rightarrow> lcd_state \<times> effect list" where
  "lcddp_BlitRoi2Win pRoi pActiveWin st =
     (if \<not> (tlPX pRoi < brPX pRoi \<and> tlPY pRoi < brPY pRoi) then
        let (st', out) = lcddp_GoudaBlitHandler st in
        (st', Trace1 ''lcddp_BlitRoi2Win: Invalid Roi x:%d < %d, y:%d < %d''
            [AInt (uint (tlPX pRoi)), AInt (uint (brPX pRoi)), AInt (uint (tlPY pRoi)), AInt (uint (brPY pRoi))] # out)
      else (st, set_window pActiveWin @ [LCM_WR_CMD 0x2c,
        Sdk ''hal_GoudaBlitRoi'' [uint (tlPX pRoi), uint (tlPY pRoi), uint (brPX pRoi), uint (brPY pRoi)]]))"

definition outside_screen :: "bool \<Rightarrow> HAL_GOUDA_WINDOW_T \<Rightarrow> bool" where
  "outside_screen rot w \<longleftrightarrow>
     (if rot
      then tlPX w \<ge> LCDD_DISP_Y \<or> brPX w \<ge> LCDD_DISP_Y \<or> tlPY w \<ge> LCDD_DISP_X \<or> brPY w \<ge> LCDD_DISP_X
      else tlPX w \<ge> LCDD_DISP_X \<or> brPX w \<ge> LCDD_DISP_X \<or> tlPY w \<ge> LCDD_DISP_Y \<or> brPY w \<ge> LCDD_DISP_Y)"

text \<open>The sums are truncated to the 16 bits of the fields.\<close>

definition window_at :: "u16 \<Rightarrow> u16 \<Rightarrow> LCD_ROI_t \<Rightarrow> HAL_GOUDA_WINDOW_T" where
  "window_at x y roi = \<lparr>tlPX = x, tlPY = y, brPX = x + roi_width roi - 1, brPY = y + roi_height roi - 1\<rparr>"

definition lcddp_Blit16 :: "LCD_FBW_t \<Rightarrow> u16 \<Rightarrow> u16 \<Rightarrow> lcd_state \<Rightarrow> LCD_Error_t \<times> lcd_state \<times> effect list" where
  "lcddp_Blit16 frameBufferWin startX startY st0 =
     (let (r, st) = lcdd_MutexGet st0 in
      if r = 0 then (LCD_ERROR_RESOURCE_BUSY, st, [])
      else if g_lcddInSleep st then (LCD_ERROR_NONE, lcdd_MutexFree st, [])
      else
        let fb = fbw_fb frameBufferWin; roi = fbw_roi frameBufferWin;
            inputWin = window_at (roi_x roi) (roi_y roi) roi;
            activeWin = window_at startX startY roi;
            badParam = outside_screen (g_lcddRotate st) activeWin \<or>
              roi_width roi > fb_width fb \<or> roi_height roi > fb_height fb \<or>
              fb_colorFormat fb \<noteq> LCD_COLOR_FORMAT_RGB_565
        in
        if badParam then (LCD_ERROR_INVALID_PARAMETER, lcdd_MutexFree st, [])
        else
          let (st1, out1) = (if fb_buffer fb \<noteq> 0
                then (st\<lparr>g_lcddAutoCloseLayer := False\<rparr>,
                  [Sdk ''hal_GoudaOvlLayerClose'' [0],
                   Sdk ''hal_GoudaOvlLayerOpen''
                     [0, uint (fb_buffer fb), 0, 0, 0, 0, uint (fb_width fb - 1), uint (fb_height fb - 1), 255, 0]])
                else (st, []));
              (st2, out2) = lcddp_BlitRoi2Win inputWin activeWin st1
          in (LCD_ERROR_NONE, st2, out1 @ out2))"

definition lcddp_SetPixel16 :: "u16 \<Rightarrow> u16 \<Rightarrow> u16 \<Rightarrow> lcd_state \<Rightarrow> LCD_Error_t \<times> lcd_state \<times> effect list" where
  "lcddp_SetPixel16 x y pixelData st0 =
     (let (r, st) = lcdd_MutexGet st0 in
      if r = 0 then (LCD_ERROR_RESOURCE_BUSY, st, [])
      else if g_lcddInSleep st then (LCD_ERROR_NONE, lcdd_MutexFree st, [])
      else (LCD_ERROR_NONE, lcdd_MutexFree st,
        set_window \<lparr>tlPX = x, tlPY = y, brPX = x, brPY = y\<rparr> @ [LCM_WR_REG 0x2c (uint pixelData)]))"

definition lcddp_FillRect16 :: "LCD_ROI_t \<Rightarrow> u16 \<Rightarrow> lcd_state \<Rightarrow> LCD_Error_t \<times> lcd_state \<times> effect list" where
  "lcddp_FillRect16 regionOfInterrest bgColor st0 =
     (let (r, st) = lcdd_MutexGet st0 in
      if r = 0 then (LCD_ERROR_RESOURCE_BUSY, st, [])
      else if g_lcddInSleep st then (LCD_ERROR_NONE, lcdd_MutexFree st, [])
      else
        let activeWin = window_at (roi_x regionOfInterrest) (roi_y regionOfInterrest) regionOfInterrest;
            badParam = outside_screen (g_lcddRotate st) activeWin
        in
        if badParam then (LCD_ERROR_INVALID_PARAMETER, lcdd_MutexFree st, [])
        else let (st', out) = lcddp_BlitRoi2Win activeWin activeWin st
             in (LCD_ERROR_NONE, st', Sdk ''hal_GoudaSetBgColor'' [uint bgColor] # out))"

section \<open>Sleep, wake-up and rotation\<close>

text \<open>\<open>lcddp_Sleep\<close> from where it has the lock.\<close>

definition sleep_locked :: "lcd_state \<Rightarrow> LCD_Error_t \<times> lcd_state \<times> effect list" where
  "sleep_locked st =
     (if g_lcddInSleep st then (LCD_ERROR_NONE, lcdd_MutexFree st, [])
      else (LCD_ERROR_NONE, lcdd_MutexFree (st\<lparr>g_lcddInSleep := True\<rparr>),
        [LCM_WR_CMD 0x0028, LCM_WR_CMD 0x0010, Trace1 ''lcddp_Sleep: calling hal_GoudaClose'' [],
         Sdk ''hal_GoudaClose'' []]))"

definition sleep_retry :: "effect list" where
  "sleep_retry = [Sdk ''OS_Sleep'' [LCDD_TIME_MUTEX_RETRY],
     Trace1 ''LCDD: Sleep while another LCD operation in progress. Sleep %d ticks'' [AInt LCDD_TIME_MUTEX_RETRY]]"

definition lcddp_Sleep :: "(lcd_state \<Rightarrow> lcd_state) list \<Rightarrow> lcd_state \<Rightarrow> (LCD_Error_t \<times> lcd_state \<times> effect list) option" where
  "lcddp_Sleep others st =
     map_option (\<lambda>(s, w). let (r, s', out) = sleep_locked s in (r, s', w @ out))
       (lock_wait lcdd_MutexGet sleep_retry others st)"

text \<open>\<open>lcddp_WakeUp\<close> after its one attempt to take the lock, whatever came of it.\<close>

definition wake_window :: "bool \<Rightarrow> LCD_FBW_t" where
  "wake_window rot =
     (let w = (if rot then LCDD_DISP_Y else LCDD_DISP_X); h = (if rot then LCDD_DISP_X else LCDD_DISP_Y) in
      \<lparr>fbw_fb = \<lparr>fb_buffer = 0, fb_width = w, fb_height = h, fb_colorFormat = LCD_COLOR_FORMAT_RGB_565\<rparr>,
       fbw_roi = \<lparr>roi_x = 0, roi_y = 0, roi_width = w, roi_height = h\<rparr>\<rparr>)"

definition wake_rest :: "lcd_state \<Rightarrow> LCD_Error_t \<times> lcd_state \<times> effect list" where
  "wake_rest st =
     (if \<not> g_lcddInSleep st then (LCD_ERROR_NONE, lcdd_MutexFree st, [])
      else
        let st1 = lcdd_MutexFree (st\<lparr>g_lcddInSleep := False\<rparr>);
            (_, st2, out) = lcddp_Blit16 (wake_window (g_lcddRotate st1)) 0 0 st1
        in (LCD_ERROR_NONE, st2,
            [Trace1 ''lcddp_WakeUp: calling hal_GoudaOpen'' [], gouda_open, Sdk ''OS_Sleep'' [50]] @ lcddp_Init @ out))"

definition wake_retry :: "effect list" where
  "wake_retry = [Sdk ''OS_Sleep'' [LCDD_TIME_MUTEX_RETRY],
     Trace1 ''LCDD: Wakeup while another LCD operation in progress. Sleep %d ticks'' [AInt LCDD_TIME_MUTEX_RETRY]]"

definition lcddp_WakeUp :: "(lcd_state \<Rightarrow> lcd_state) \<Rightarrow> lcd_state \<Rightarrow> LCD_Error_t \<times> lcd_state \<times> effect list" where
  "lcddp_WakeUp others st0 =
     (let (r, st) = lcdd_MutexGet st0;
          (st1, w) = (if r = 0 then (others st, wake_retry) else (st, []));
          (e, st2, out) = wake_rest st1
      in (e, st2, w @ out))"

definition lcddp_SetStandbyMode ::
  "(lcd_state \<Rightarrow> lcd_state) list \<Rightarrow> bool \<Rightarrow> lcd_state \<Rightarrow> (LCD_Error_t \<times> lcd_state \<times> effect list) option" where
  "lcddp_SetStandbyMode others standbyMode st =
     (if standbyMode then map_option (\<lambda>(_, s, out). (LCD_ERROR_NONE, s, out)) (lcddp_Sleep others st)
      else (case lcddp_WakeUp (case others of [] \<Rightarrow> id | f # _ \<Rightarrow> f) st of
          (_, s, out) \<Rightarrow> Some (LCD_ERROR_NONE, s, out)))"

text \<open>\<open>lcddp_SetDirRotation\<close> and \<open>lcddp_SetDirDefault\<close> from where they have the lock.\<close>

definition set_dir_locked :: "bool \<Rightarrow> int \<Rightarrow> lcd_state \<Rightarrow> bool \<times> lcd_state \<times> effect list" where
  "set_dir_locked rot mac st0 =
     (let st = st0\<lparr>g_lcddRotate := rot\<rparr> in
      if g_lcddInSleep st then (True, lcdd_MutexFree st, [])
      else (True, lcdd_MutexFree st, lcm_write 0x36 [mac]))"

definition lcddp_SetDirRotation :: "(lcd_state \<Rightarrow> lcd_state) list \<Rightarrow> lcd_state \<Rightarrow> (bool \<times> lcd_state \<times> effect list) option" where
  "lcddp_SetDirRotation others st =
     map_option (\<lambda>(s, w). let (r, s', out) = set_dir_locked True 0x28 s in (r, s', w @ out))
       (lock_wait lcdd_MutexGet [Sdk ''OS_Sleep'' [LCDD_TIME_MUTEX_RETRY]] others st)"

definition lcddp_SetDirDefault :: "(lcd_state \<Rightarrow> lcd_state) list \<Rightarrow> lcd_state \<Rightarrow> (bool \<times> lcd_state \<times> effect list) option" where
  "lcddp_SetDirDefault others st =
     map_option (\<lambda>(s, w). let (r, s', out) = set_dir_locked False 0x48 s in (r, s', w @ out))
       (lock_wait lcdd_MutexGet [Sdk ''OS_Sleep'' [LCDD_TIME_MUTEX_RETRY]] others st)"

text \<open>The remaining operations of the table, and its registration.\<close>

definition lcddp_SetContrast :: "u32 \<Rightarrow> LCD_Error_t" where "lcddp_SetContrast contrast = LCD_ERROR_NONE"
definition lcddp_PartialOn :: "u16 \<Rightarrow> u16 \<Rightarrow> LCD_Error_t" where "lcddp_PartialOn vsa vea = LCD_ERROR_NONE"
definition lcddp_PartialOff :: LCD_Error_t where "lcddp_PartialOff = LCD_ERROR_NONE"
definition lcddp_SetBrightness :: "u8 \<Rightarrow> LCD_Error_t" where "lcddp_SetBrightness brightness = LCD_ERROR_NONE"
definition lcddp_GetLcdId :: u16 where "lcddp_GetLcdId = 0x0000"
definition lcddp_GetStringId :: cstr where "lcddp_GetStringId = ''ili9341'' @ [LF]"
definition lcddp_Busy :: "bool \<Rightarrow> bool" where "lcddp_Busy hal_GoudaIsActive = hal_GoudaIsActive"
definition lcddp_CheckProductId :: bool where "lcddp_CheckProductId = True"

definition lcddp_GetScreenInfo :: "LCD_Error_t \<times> LCD_Screen_Info_t" where
  "lcddp_GetScreenInfo =
     (LCD_ERROR_NONE, \<lparr>si_width = LCDD_DISP_X, si_height = LCDD_DISP_Y, si_bitdepth = 1, si_nReserved = 0\<rparr>)"

definition LCD_ili9341_Register :: "bool \<Rightarrow> lcd_state \<Rightarrow> LCD_Error_t \<times> lcd_state" where
  "LCD_ili9341_Register onBlit st = (LCD_ERROR_NONE, lcdd_MutexFree (st\<lparr>pOnBlt := onBlit\<rparr>))"

section \<open>The lock as an interface\<close>

lemma all_le_Suc: "(\<forall>k \<le> Suc n. P k) \<longleftrightarrow> P 0 \<and> (\<forall>k \<le> n. P (Suc k))"
  by (metis Suc_le_mono not0_implies_Suc zero_le)

locale mutex =
  fixes get :: "'s \<Rightarrow> u32 \<times> 's" and free :: "'s \<Rightarrow> 's" and held :: "'s \<Rightarrow> bool"
  assumes get_free: "\<not> held s \<Longrightarrow> fst (get s) = 1 \<and> held (snd (get s))"
    and get_held: "held s \<Longrightarrow> get s = (0, s)"
    and free_frees: "\<not> held (free s)"
begin

lemma wait_free: "\<not> held s \<Longrightarrow> lock_wait get retry others s = Some (snd (get s), [])"
  using get_free [of s] by (simp add: lock_wait.simps case_prod_beta)

lemma wait_holds: "lock_wait get retry others s = Some (s', out) \<Longrightarrow> held s'"
proof (induction others arbitrary: s out)
  case Nil
  then show ?case using get_free [of s] get_held [of s]
    by (cases "held s") (auto simp: lock_wait.simps case_prod_beta)
next
  case (Cons f fs)
  then show ?case using get_free [of s] get_held [of s]
    by (cases "held s") (auto simp: lock_wait.simps [of get retry "f # fs"] case_prod_beta)
qed

text \<open>The wait ends with the first of the others' turns that leaves the lock free, and only then.\<close>

lemma wait_None: "lock_wait get retry others s = None \<longleftrightarrow> (\<forall>k \<le> length others. held (fold (\<lambda>f. f) (take k others) s))"
proof (induction others arbitrary: s)
  case Nil
  then show ?case using get_free [of s] get_held [of s]
    by (cases "held s") (auto simp: lock_wait.simps case_prod_beta)
next
  case (Cons f fs)
  show ?case
  proof (cases "held s")
    case True
    have "(\<forall>k \<le> length (f # fs). held (fold (\<lambda>f. f) (take k (f # fs)) s)) \<longleftrightarrow>
        (\<forall>k \<le> length fs. held (fold (\<lambda>f. f) (take k fs) (f s)))"
      using True all_le_Suc [of "length fs" "\<lambda>k. held (fold (\<lambda>f. f) (take k (f # fs)) s)"] by simp
    then show ?thesis using Cons.IH [of "f s"] True get_held [of s] by (simp add: lock_wait.simps [of get retry "f # fs"])
  next
    case False
    then show ?thesis using wait_free [OF False, of retry "f # fs"] by (auto intro!: exI [of _ 0])
  qed
qed

end

interpretation lcdd: mutex lcdd_MutexGet lcdd_MutexFree "\<lambda>st. g_lcddLock st \<noteq> 1"
  by unfold_locales (auto simp: lcdd_MutexGet_def lcdd_MutexFree_def)

section \<open>Transfers and the tasks that share the display\<close>

text \<open>The transfers an operation starts.\<close>

fun is_transfer :: "effect \<Rightarrow> bool" where
  "is_transfer (Sdk f _) \<longleftrightarrow> f = ''hal_GoudaBlitRoi''"
| "is_transfer _ \<longleftrightarrow> False"

definition started :: "effect list \<Rightarrow> nat" where
  "started out = length (filter is_transfer out)"

lemma started_simps [simp]:
  "started [] = 0" "started (e # es) = (if is_transfer e then Suc (started es) else started es)"
  "started (xs @ ys) = started xs + started ys"
  by (simp_all add: started_def)

lemma started_lcm [simp]: "started (lcm_write c ds) = 0" "started (set_window w) = 0" "started lcddp_Init = 0"
proof -
  have d: "started (map LCM_WR_DAT ds) = 0" for ds by (induction ds) (simp_all add: LCM_WR_DAT_def)
  show l: "started (lcm_write c ds) = 0" for c ds by (simp add: lcm_write_def LCM_WR_CMD_def d)
  show "started (set_window w) = 0" by (simp add: set_window_def l)
  show "started lcddp_Init = 0" by (simp add: lcddp_Init_def l LCM_WR_CMD_def)
qed

lemma not_transfer [simp]:
  "\<not> is_transfer (LCM_WR_CMD c)" "\<not> is_transfer (LCM_WR_REG a d)" "\<not> is_transfer (Trace1 f args)" "\<not> is_transfer gouda_open"
  by (simp_all add: LCM_WR_CMD_def LCM_WR_REG_def Trace1_def gouda_open_def)

text \<open>
  The driver, the transfers that are running, and the tasks that are inside the pause of
  \<open>lcddp_WakeUp\<close>. A task that waits for the lock is one that takes its step later.
\<close>

record lcd_sys =
  ls_drv :: lcd_state
  ls_transfers :: nat
  ls_waking :: nat

definition after :: "lcd_state \<times> effect list \<Rightarrow> lcd_sys \<Rightarrow> lcd_sys" where
  "after r s = s\<lparr>ls_drv := fst r, ls_transfers := ls_transfers s + started (snd r)\<rparr>"

inductive lcd_step :: "lcd_sys \<Rightarrow> lcd_sys \<Rightarrow> bool" where
  blit: "lcddp_Blit16 w x y (ls_drv s) = (e, r) \<Longrightarrow> lcd_step s (after r s)"
| fill: "lcddp_FillRect16 roi c (ls_drv s) = (e, r) \<Longrightarrow> lcd_step s (after r s)"
| pixel: "lcddp_SetPixel16 x y c (ls_drv s) = (e, r) \<Longrightarrow> lcd_step s (after r s)"
| sleep: "lcddp_Sleep [] (ls_drv s) = Some (e, r) \<Longrightarrow> lcd_step s (after r s)"
| rotation: "lcddp_SetDirRotation [] (ls_drv s) = Some (b, r) \<Longrightarrow> lcd_step s (after r s)"
| default: "lcddp_SetDirDefault [] (ls_drv s) = Some (b, r) \<Longrightarrow> lcd_step s (after r s)"
| wake_up: "g_lcddLock (ls_drv s) = 1 \<Longrightarrow> lcddp_WakeUp id (ls_drv s) = (e, r) \<Longrightarrow> lcd_step s (after r s)"
| transfer_done: "ls_transfers s = Suc n \<Longrightarrow>
    lcd_step s (after (lcddp_GoudaBlitHandler (ls_drv s)) (s\<lparr>ls_transfers := n\<rparr>))"

text \<open>A wake-up that finds the lock taken pauses and then goes on without it.\<close>

inductive contended_wake :: "lcd_sys \<Rightarrow> lcd_sys \<Rightarrow> bool" where
  pause: "g_lcddLock (ls_drv s) \<noteq> 1 \<Longrightarrow> contended_wake s (s\<lparr>ls_waking := Suc (ls_waking s)\<rparr>)"
| go_on: "ls_waking s = Suc n \<Longrightarrow> wake_rest (ls_drv s) = (e, r) \<Longrightarrow>
    contended_wake s (after r (s\<lparr>ls_waking := n\<rparr>))"

lemma WakeUp_contended:
  "g_lcddLock st \<noteq> 1 \<Longrightarrow> lcddp_WakeUp others st = (case wake_rest (others st) of (e, s, out) \<Rightarrow> (e, s, wake_retry @ out))"
  by (simp add: lcddp_WakeUp_def lcdd_MutexGet_def)

definition lcd_start :: "bool \<Rightarrow> lcd_sys" where
  "lcd_start onBlit = \<lparr>ls_drv = fst (snd (lcddp_Open (snd (LCD_ili9341_Register onBlit lcd_boot)))),
     ls_transfers = 0, ls_waking = 0\<rparr>"

text \<open>The lock is taken exactly while one transfer runs, and the panel does not sleep then.\<close>

definition lcd_ok :: "lcd_state \<Rightarrow> nat \<Rightarrow> bool" where
  "lcd_ok st n \<longleftrightarrow> (g_lcddLock st = 1 \<and> n = 0) \<or> (g_lcddLock st = 0 \<and> n = 1 \<and> \<not> g_lcddInSleep st)"

lemma lcd_ok_free [simp]: "lcd_ok (lcdd_MutexFree st) n \<longleftrightarrow> n = 0"
  by (auto simp: lcd_ok_def lcdd_MutexFree_def)

lemma lcd_ok_lock: "g_lcddLock st = 1 \<Longrightarrow> lcd_ok st n \<longleftrightarrow> n = 0"
  by (auto simp: lcd_ok_def)

lemma handler_frees: "g_lcddLock (fst (lcddp_GoudaBlitHandler st)) = 1" "started (snd (lcddp_GoudaBlitHandler st)) = 0"
  by (simp_all add: lcddp_GoudaBlitHandler_def lcdd_MutexFree_def Let_def)

lemma blit_window_ok:
  assumes "lcddp_BlitRoi2Win w a st = (st', out)" "g_lcddLock st = 0" "\<not> g_lcddInSleep st"
  shows "lcd_ok st' (started out)"
proof (cases "tlPX w < brPX w \<and> tlPY w < brPY w")
  case True
  then show ?thesis using assms by (auto simp: lcddp_BlitRoi2Win_def lcd_ok_def)
next
  case False
  then show ?thesis using assms handler_frees [of st]
    by (auto simp: lcddp_BlitRoi2Win_def case_prod_beta Let_def lcd_ok_lock)
qed

text \<open>What each operation does to a lock that is free, and that it does nothing to one that is taken.\<close>

lemma Blit16_ok:
  assumes "lcddp_Blit16 w x y st = (e, st', out)" "lcd_ok st n"
  shows "lcd_ok st' (n + started out)" "n = 1 \<longrightarrow> e = LCD_ERROR_RESOURCE_BUSY \<and> st' = st \<and> out = []"
proof -
  have "lcd_ok st' (n + started out) \<and> (n = 1 \<longrightarrow> e = LCD_ERROR_RESOURCE_BUSY \<and> st' = st \<and> out = [])"
  proof (cases "g_lcddLock st = 1 \<and> \<not> g_lcddInSleep st")
    case True
    then have n: "n = 0" using assms(2) by (simp add: lcd_ok_def)
    show ?thesis using assms(1) True
      by (auto simp: lcddp_Blit16_def lcdd_MutexGet_def Let_def n split: if_splits prod.splits dest!: blit_window_ok)
  next
    case False
    then show ?thesis using assms
      by (auto simp: lcddp_Blit16_def lcdd_MutexGet_def Let_def lcd_ok_def lcdd_MutexFree_def split: if_splits)
  qed
  then show "lcd_ok st' (n + started out)" "n = 1 \<longrightarrow> e = LCD_ERROR_RESOURCE_BUSY \<and> st' = st \<and> out = []" by blast+
qed

lemma FillRect16_ok:
  assumes "lcddp_FillRect16 roi c st = (e, st', out)" "lcd_ok st n"
  shows "lcd_ok st' (n + started out)" "n = 1 \<longrightarrow> e = LCD_ERROR_RESOURCE_BUSY \<and> st' = st \<and> out = []"
proof -
  have "lcd_ok st' (n + started out) \<and> (n = 1 \<longrightarrow> e = LCD_ERROR_RESOURCE_BUSY \<and> st' = st \<and> out = [])"
  proof (cases "g_lcddLock st = 1 \<and> \<not> g_lcddInSleep st")
    case True
    then have n: "n = 0" using assms(2) by (simp add: lcd_ok_def)
    show ?thesis using assms(1) True
      by (auto simp: lcddp_FillRect16_def lcdd_MutexGet_def Let_def n split: if_splits prod.splits dest!: blit_window_ok)
  next
    case False
    then show ?thesis using assms
      by (auto simp: lcddp_FillRect16_def lcdd_MutexGet_def Let_def lcd_ok_def lcdd_MutexFree_def split: if_splits)
  qed
  then show "lcd_ok st' (n + started out)" "n = 1 \<longrightarrow> e = LCD_ERROR_RESOURCE_BUSY \<and> st' = st \<and> out = []" by blast+
qed

lemma SetPixel16_ok:
  assumes "lcddp_SetPixel16 x y c st = (e, st', out)" "lcd_ok st n"
  shows "lcd_ok st' (n + started out)" "n = 1 \<longrightarrow> e = LCD_ERROR_RESOURCE_BUSY \<and> st' = st \<and> out = []"
  using assms by (auto simp: lcddp_SetPixel16_def lcdd_MutexGet_def Let_def lcd_ok_def lcdd_MutexFree_def split: if_splits)

text \<open>An operation that waits for the lock frees it before it returns, and starts no transfer.\<close>

lemma waiting_ok:
  assumes "map_option (\<lambda>(s, w). let (b, s', out) = f s in (b, s', w @ out)) (lock_wait lcdd_MutexGet retry [] st) = Some (b, st', out)"
    "\<And>s. started (snd (snd (f s))) = 0 \<and> (\<exists>t. fst (snd (f s)) = lcdd_MutexFree t)" "lcd_ok st n"
  shows "lcd_ok st' (n + started out)"
proof (cases "g_lcddLock st = 1")
  case True
  then have "lock_wait lcdd_MutexGet retry [] st = Some (snd (lcdd_MutexGet st), [])" by (simp add: lcdd.wait_free)
  then show ?thesis using assms(1,3) assms(2) [of "snd (lcdd_MutexGet st)"] True
    by (auto simp: lcd_ok_lock case_prod_beta Let_def)
next
  case False
  then have "lock_wait lcdd_MutexGet retry [] st = None" by (simp add: lcdd.wait_None)
  then show ?thesis using assms(1) by simp
qed

lemma wake_rest_ok:
  assumes "wake_rest st = (e, st', out)"
  shows "lcd_ok st' (started out)"
proof (cases "g_lcddInSleep st")
  case True
  let ?st = "lcdd_MutexFree (st\<lparr>g_lcddInSleep := False\<rparr>)"
  obtain b s o1 where r: "lcddp_Blit16 (wake_window (g_lcddRotate ?st)) 0 0 ?st = (b, s, o1)" by (metis prod_cases3)
  have "lcd_ok s (started o1)" using Blit16_ok(1) [OF r, of 0] by simp
  then show ?thesis using assms True r by (auto simp: wake_rest_def Let_def)
next
  case False
  then show ?thesis using assms by (auto simp: wake_rest_def)
qed

lemma lcd_step_ok: "lcd_step s s' \<Longrightarrow> lcd_ok (ls_drv s) (ls_transfers s) \<Longrightarrow> lcd_ok (ls_drv s') (ls_transfers s')"
proof (induction rule: lcd_step.induct)
  case (blit w x y s e r)
  then show ?case using Blit16_ok(1) [of w x y "ls_drv s" e "fst r" "snd r"] by (simp add: after_def)
next
  case (fill roi c s e r)
  then show ?case using FillRect16_ok(1) [of roi c "ls_drv s" e "fst r" "snd r"] by (simp add: after_def)
next
  case (pixel x y c s e r)
  then show ?case using SetPixel16_ok(1) [of x y c "ls_drv s" e "fst r" "snd r"] by (simp add: after_def)
next
  case (sleep s e r)
  obtain st' out where r: "r = (st', out)" by (cases r)
  show ?case unfolding after_def r using sleep(2)
    by (auto intro!: waiting_ok [OF sleep(1) [unfolded lcddp_Sleep_def r]] simp: sleep_locked_def)
next
  case (rotation s b r)
  obtain st' out where r: "r = (st', out)" by (cases r)
  show ?case unfolding after_def r using rotation(2)
    by (auto intro!: waiting_ok [OF rotation(1) [unfolded lcddp_SetDirRotation_def r]] simp: set_dir_locked_def Let_def)
next
  case (default s b r)
  obtain st' out where r: "r = (st', out)" by (cases r)
  show ?case unfolding after_def r using default(2)
    by (auto intro!: waiting_ok [OF default(1) [unfolded lcddp_SetDirDefault_def r]] simp: set_dir_locked_def Let_def)
next
  case (wake_up s e r)
  obtain st' out where r: "r = (st', out)" by (cases r)
  obtain e1 s1 o1 where w: "wake_rest (snd (lcdd_MutexGet (ls_drv s))) = (e1, s1, o1)" by (metis prod_cases3)
  have "ls_transfers s = 0" "st' = s1" "out = o1"
    using wake_up r w by (simp_all add: lcd_ok_lock lcddp_WakeUp_def lcdd_MutexGet_def)
  then show ?case using wake_rest_ok [OF w] by (simp add: after_def r)
next
  case (transfer_done s n)
  then show ?case using handler_frees [of "ls_drv s"] by (auto simp: after_def lcd_ok_def)
qed

lemma lcd_run_ok: "lcd_step\<^sup>*\<^sup>* s s' \<Longrightarrow> lcd_ok (ls_drv s) (ls_transfers s) \<Longrightarrow> lcd_ok (ls_drv s') (ls_transfers s')"
  by (induction rule: rtranclp_induct) (auto intro: lcd_step_ok)

lemma lcd_start_ok: "lcd_ok (ls_drv (lcd_start b)) (ls_transfers (lcd_start b))"
  by (simp add: lcd_start_def lcddp_Open_def LCD_ili9341_Register_def lcdd_MutexFree_def lcd_ok_def)

text \<open>A full-screen picture, and the run in which a second transfer starts during the first.\<close>

definition full_screen :: LCD_FBW_t where
  "full_screen = \<lparr>fbw_fb = \<lparr>fb_buffer = 0x80000000, fb_width = 240, fb_height = 320, fb_colorFormat = LCD_COLOR_FORMAT_RGB_565\<rparr>,
     fbw_roi = \<lparr>roi_x = 0, roi_y = 0, roi_width = 240, roi_height = 320\<rparr>\<rparr>"

lemma full_screen_transfer:
  assumes "g_lcddLock st = 1" "\<not> g_lcddInSleep st" "\<not> g_lcddRotate st"
  obtains out where "lcddp_Blit16 full_screen 0 0 st = (LCD_ERROR_NONE, st\<lparr>g_lcddLock := 0, g_lcddAutoCloseLayer := False\<rparr>, out)"
    "started out = 1"
  using assms by (simp add: lcddp_Blit16_def lcdd_MutexGet_def full_screen_def outside_screen_def window_at_def
      lcddp_BlitRoi2Win_def Let_def)

lemma second_transfer: "\<exists>s. (sup lcd_step contended_wake)\<^sup>*\<^sup>* (lcd_start b) s \<and> ls_transfers s = 2"
proof -
  let ?s0 = "lcd_start b"
  let ?d = "ls_drv ?s0"
  have d: "g_lcddLock ?d = 1" "\<not> g_lcddInSleep ?d" "\<not> g_lcddRotate ?d" "ls_transfers ?s0 = 0" "ls_waking ?s0 = 0"
    by (simp_all add: lcd_start_def lcddp_Open_def LCD_ili9341_Register_def lcdd_MutexFree_def lcd_boot_def)
  obtain out where b1: "lcddp_Blit16 full_screen 0 0 ?d = (LCD_ERROR_NONE, ?d\<lparr>g_lcddLock := 0, g_lcddAutoCloseLayer := False\<rparr>, out)"
    "started out = 1" by (rule full_screen_transfer [OF d(1-3)])
  define s1 where "s1 = after (?d\<lparr>g_lcddLock := 0, g_lcddAutoCloseLayer := False\<rparr>, out) ?s0"
  define s2 where "s2 = s1\<lparr>ls_waking := Suc 0\<rparr>"
  define s3 where "s3 = after (lcdd_MutexFree (ls_drv s2), []) (s2\<lparr>ls_waking := 0\<rparr>)"
  have t1: "lcd_step ?s0 s1" unfolding s1_def by (rule blit [OF b1(1)])
  have t2: "contended_wake s1 s2" using pause [of s1] d(5) by (simp add: s2_def s1_def after_def)
  have "wake_rest (ls_drv s2) = (LCD_ERROR_NONE, lcdd_MutexFree (ls_drv s2), [])"
    using d(2) by (simp add: wake_rest_def s2_def s1_def after_def)
  then have t3: "contended_wake s2 s3" using go_on [of s2 0] by (simp add: s3_def s2_def)
  have d3: "g_lcddLock (ls_drv s3) = 1" "\<not> g_lcddInSleep (ls_drv s3)" "\<not> g_lcddRotate (ls_drv s3)" "ls_transfers s3 = 1"
    using d b1(2) by (simp_all add: s3_def s2_def s1_def after_def lcdd_MutexFree_def)
  obtain out' where b2: "lcddp_Blit16 full_screen 0 0 (ls_drv s3) =
      (LCD_ERROR_NONE, (ls_drv s3)\<lparr>g_lcddLock := 0, g_lcddAutoCloseLayer := False\<rparr>, out')" "started out' = 1"
    by (rule full_screen_transfer [OF d3(1-3)])
  define s4 where "s4 = after ((ls_drv s3)\<lparr>g_lcddLock := 0, g_lcddAutoCloseLayer := False\<rparr>, out') s3"
  have t4: "lcd_step s3 s4" unfolding s4_def by (rule blit [OF b2(1)])
  have "ls_transfers s4 = 2" using d3(4) b2(2) by (simp add: s4_def after_def)
  moreover have "(sup lcd_step contended_wake)\<^sup>*\<^sup>* ?s0 s4"
    using t1 t2 t3 t4 by (meson rtranclp.rtrancl_into_rtrancl rtranclp.rtrancl_refl sup2I1 sup2I2)
  ultimately show ?thesis by blast
qed

text \<open>C37. The lock keeps two transfers from the panel at once, unless a task wakes the panel. In
  every run of drawing, sleep and rotation by any number of tasks, each call one step and transfers
  ending at any time, at most one transfer runs, the lock is taken exactly while it does, the panel is not
  asleep then, and every drawing call is refused and touches nothing. But \<open>lcddp_WakeUp\<close>, which
  tries the lock once, goes on without it and then frees it: a wake-up of a panel that is awake,
  during a transfer, lets the next drawing start a second transfer while the first still runs.\<close>

theorem lcd_exclusive:
  assumes "lcd_step\<^sup>*\<^sup>* (lcd_start b) s"
  shows "ls_transfers s \<le> 1 \<and> (ls_transfers s = 1 \<longleftrightarrow> g_lcddLock (ls_drv s) \<noteq> 1) \<and>
     \<not> (ls_transfers s = 1 \<and> g_lcddInSleep (ls_drv s)) \<and>
     (\<forall>w x y roi c. ls_transfers s \<noteq> 1 \<or>
        lcddp_Blit16 w x y (ls_drv s) = (LCD_ERROR_RESOURCE_BUSY, ls_drv s, []) \<and>
        lcddp_FillRect16 roi c (ls_drv s) = (LCD_ERROR_RESOURCE_BUSY, ls_drv s, []) \<and>
        lcddp_SetPixel16 x y c (ls_drv s) = (LCD_ERROR_RESOURCE_BUSY, ls_drv s, [])) \<and>
     (\<exists>s2. (sup lcd_step contended_wake)\<^sup>*\<^sup>* (lcd_start b) s2 \<and> ls_transfers s2 = 2)"
proof -
  have ok: "lcd_ok (ls_drv s) (ls_transfers s)" by (rule lcd_run_ok [OF assms lcd_start_ok])
  have busy: "lcddp_Blit16 w x y (ls_drv s) = (LCD_ERROR_RESOURCE_BUSY, ls_drv s, []) \<and>
      lcddp_FillRect16 roi c (ls_drv s) = (LCD_ERROR_RESOURCE_BUSY, ls_drv s, []) \<and>
      lcddp_SetPixel16 x y c (ls_drv s) = (LCD_ERROR_RESOURCE_BUSY, ls_drv s, [])"
    if "ls_transfers s = 1" for w x y roi c
    using ok that
    by (simp add: lcd_ok_def lcddp_Blit16_def lcddp_FillRect16_def lcddp_SetPixel16_def lcdd_MutexGet_def)
  show ?thesis using ok busy second_transfer [of b] by (auto simp: lcd_ok_def)
qed

theorem lcd_exclusive_witness:
  "\<exists>s. lcd_step\<^sup>*\<^sup>* (lcd_start True) s \<and> ls_transfers s = 1 \<and> g_lcddLock (ls_drv s) \<noteq> 1 \<and>
     lcddp_Blit16 full_screen 0 0 (ls_drv s) = (LCD_ERROR_RESOURCE_BUSY, ls_drv s, [])"
proof -
  let ?s0 = "lcd_start True"
  have d: "g_lcddLock (ls_drv ?s0) = 1" "\<not> g_lcddInSleep (ls_drv ?s0)" "\<not> g_lcddRotate (ls_drv ?s0)" "ls_transfers ?s0 = 0"
    by (simp_all add: lcd_start_def lcddp_Open_def LCD_ili9341_Register_def lcdd_MutexFree_def lcd_boot_def)
  obtain out where b1: "lcddp_Blit16 full_screen 0 0 (ls_drv ?s0) =
      (LCD_ERROR_NONE, (ls_drv ?s0)\<lparr>g_lcddLock := 0, g_lcddAutoCloseLayer := False\<rparr>, out)" "started out = 1"
    by (rule full_screen_transfer [OF d(1-3)])
  define s where "s = after ((ls_drv ?s0)\<lparr>g_lcddLock := 0, g_lcddAutoCloseLayer := False\<rparr>, out) ?s0"
  have r: "lcd_step\<^sup>*\<^sup>* ?s0 s" unfolding s_def by (rule r_into_rtranclp [of lcd_step]) (rule blit [OF b1(1)])
  have "ls_transfers s = 1" using d(4) b1(2) by (simp add: s_def after_def)
  then show ?thesis using r lcd_exclusive [OF r] by blast
qed

section \<open>Filling a rectangle\<close>

text \<open>The last column of a window that starts at \<open>x\<close>: the 16-bit sum wraps, and then comes before
  the first.\<close>

lemma uint_end: "uint (x + w - 1 :: u16) = (uint x + uint w - 1) mod 65536"
  by (simp add: uint_word_ariths mod_simps)

lemma window_end:
  fixes x w :: u16
  assumes "uint d \<le> 32768"
  shows "x < d \<and> x + w - 1 < d \<and> x < x + w - 1 \<longleftrightarrow> uint x + uint w \<le> uint d \<and> 2 \<le> uint w"
proof -
  have b: "0 \<le> uint x" "uint x < 65536" "0 \<le> uint w" "uint w < 65536" using uint_lt2p [of x] uint_lt2p [of w] by simp_all
  consider "uint x + uint w = 0" | "1 \<le> uint x + uint w" "uint x + uint w \<le> 65536" | "65536 < uint x + uint w"
    using b by linarith
  then show ?thesis
  proof cases
    case 1
    then have "uint (x + w - 1) = 65535" by (simp add: uint_end)
    moreover have "uint w = 0" using 1 b by linarith
    ultimately show ?thesis using assms by (simp add: word_less_alt)
  next
    case 2
    then have "uint (x + w - 1) = uint x + uint w - 1" by (simp add: uint_end)
    then show ?thesis using 2 b by (auto simp: word_less_alt)
  next
    case 3
    have "(uint x + uint w - 1) mod 65536 = uint x + uint w - 65537"
      using int_mod_pos_eq [of "uint x + uint w - 1" 65536 1 "uint x + uint w - 65537"] 3 b by simp
    then have "uint (x + w - 1) = uint x + uint w - 65537" by (simp add: uint_end)
    then show ?thesis using 3 b assms by (auto simp: word_less_alt)
  qed
qed

lemma window_last:
  fixes x w :: u16
  assumes "1 \<le> uint w" "uint x + uint w \<le> 65536"
  shows "uint (x + w - 1) = uint x + uint w - 1"
proof -
  have "0 \<le> uint x" by simp
  then have "(uint x + uint w - 1) mod 65536 = uint x + uint w - 1" using assms by (intro mod_pos_pos_trivial) linarith+
  then show ?thesis by (simp add: uint_end)
qed

definition disp_width :: "bool \<Rightarrow> u16" where "disp_width rot = (if rot then LCDD_DISP_Y else LCDD_DISP_X)"
definition disp_height :: "bool \<Rightarrow> u16" where "disp_height rot = (if rot then LCDD_DISP_X else LCDD_DISP_Y)"

lemma outside_disp: "outside_screen rot w \<longleftrightarrow>
    \<not> (tlPX w < disp_width rot \<and> brPX w < disp_width rot \<and> tlPY w < disp_height rot \<and> brPY w < disp_height rot)"
  by (auto simp: outside_screen_def disp_width_def disp_height_def not_less)

text \<open>A region inside the screen, and one of at least two columns and two rows.\<close>

definition region_inside :: "bool \<Rightarrow> LCD_ROI_t \<Rightarrow> bool" where
  "region_inside rot r \<longleftrightarrow> 1 \<le> uint (roi_width r) \<and> uint (roi_x r) + uint (roi_width r) \<le> uint (disp_width rot) \<and>
     1 \<le> uint (roi_height r) \<and> uint (roi_y r) + uint (roi_height r) \<le> uint (disp_height rot)"

definition region_fits :: "bool \<Rightarrow> LCD_ROI_t \<Rightarrow> bool" where
  "region_fits rot r \<longleftrightarrow> region_inside rot r \<and> 2 \<le> uint (roi_width r) \<and> 2 \<le> uint (roi_height r)"

lemma disp_small: "uint (disp_width rot) \<le> 320" "uint (disp_height rot) \<le> 320"
  by (simp_all add: disp_width_def disp_height_def)

lemma region_fits_iff:
  "region_fits rot r \<longleftrightarrow> (let w = window_at (roi_x r) (roi_y r) r in
     \<not> outside_screen rot w \<and> tlPX w < brPX w \<and> tlPY w < brPY w)"
proof -
  have "roi_x r < disp_width rot \<and> roi_x r + roi_width r - 1 < disp_width rot \<and> roi_x r < roi_x r + roi_width r - 1 \<longleftrightarrow>
      uint (roi_x r) + uint (roi_width r) \<le> uint (disp_width rot) \<and> 2 \<le> uint (roi_width r)"
    "roi_y r < disp_height rot \<and> roi_y r + roi_height r - 1 < disp_height rot \<and> roi_y r < roi_y r + roi_height r - 1 \<longleftrightarrow>
      uint (roi_y r) + uint (roi_height r) \<le> uint (disp_height rot) \<and> 2 \<le> uint (roi_height r)"
    by (rule window_end, use disp_small [of rot] in linarith)+
  then show ?thesis by (auto simp: region_fits_def region_inside_def outside_disp window_at_def Let_def)
qed

lemma inside_window:
  assumes "region_inside rot r"
  shows "\<not> outside_screen rot (window_at (roi_x r) (roi_y r) r)"
    "uint (brPX (window_at (roi_x r) (roi_y r) r)) = uint (roi_x r) + uint (roi_width r) - 1"
    "uint (brPY (window_at (roi_x r) (roi_y r) r)) = uint (roi_y r) + uint (roi_height r) - 1"
proof -
  note i = assms [unfolded region_inside_def] disp_small [of rot]
  have e: "uint (roi_x r + roi_width r - 1) = uint (roi_x r) + uint (roi_width r) - 1"
    "uint (roi_y r + roi_height r - 1) = uint (roi_y r) + uint (roi_height r) - 1"
    by (rule window_last, use i in linarith, use i in linarith)+
  then show "\<not> outside_screen rot (window_at (roi_x r) (roi_y r) r)"
    "uint (brPX (window_at (roi_x r) (roi_y r) r)) = uint (roi_x r) + uint (roi_width r) - 1"
    "uint (brPY (window_at (roi_x r) (roi_y r) r)) = uint (roi_y r) + uint (roi_height r) - 1"
    using i by (auto simp: outside_disp window_at_def word_less_alt)
qed

lemma hi_lo_value: "hi_lo v = [uint v div 256, uint v mod 256]"
proof -
  have "v AND 0xff = take_bit 8 v" by (simp add: take_bit_eq_mask mask_eq_decr_exp)
  then have "uint (v AND 0xff) = take_bit 8 (uint v)" by (simp only: unsigned_take_bit_eq)
  moreover have "uint (drop_bit 8 v) = uint v div 256" by (simp add: drop_bit_eq_div uint_div_distrib)
  ultimately show ?thesis by (simp add: hi_lo_def take_bit_eq_mod)
qed

text \<open>C38. \<open>lcddp_FillRect16\<close> fills a rectangle inside the screen and nothing else. With the lock free
  and the panel awake, a region of at least two columns and rows that lies inside the screen of the
  current rotation is filled: the background colour is set, the window is sent in high and low
  bytes, one transfer of it starts, and the lock stays with that transfer. For every other region,
  sums that wrap around 16 bits included, no command is sent, no transfer starts and the lock is
  free again. A line of one pixel inside the screen is among them: nothing is drawn, and the result
  is still \<open>LCD_ERROR_NONE\<close>.\<close>

theorem FillRect16_correct:
  assumes "g_lcddLock st = 1" "\<not> g_lcddInSleep st"
  shows "if region_fits (g_lcddRotate st) r
     then lcddp_FillRect16 r c st = (LCD_ERROR_NONE, st\<lparr>g_lcddLock := 0\<rparr>,
       [Sdk ''hal_GoudaSetBgColor'' [uint c]] @
       lcm_write 0x2a [uint (roi_x r) div 256, uint (roi_x r) mod 256,
         (uint (roi_x r) + uint (roi_width r) - 1) div 256, (uint (roi_x r) + uint (roi_width r) - 1) mod 256] @
       lcm_write 0x2b [uint (roi_y r) div 256, uint (roi_y r) mod 256,
         (uint (roi_y r) + uint (roi_height r) - 1) div 256, (uint (roi_y r) + uint (roi_height r) - 1) mod 256] @
       [LCM_WR_CMD 0x2c, Sdk ''hal_GoudaBlitRoi'' [uint (roi_x r), uint (roi_y r),
         uint (roi_x r) + uint (roi_width r) - 1, uint (roi_y r) + uint (roi_height r) - 1]])
     else \<exists>e st' out. lcddp_FillRect16 r c st = (e, st', out) \<and> started out = 0 \<and>
       (\<forall>a. LCM_WR_CMD a \<notin> set out) \<and> g_lcddLock st' = 1 \<and>
       e \<in> (if region_inside (g_lcddRotate st) r then {LCD_ERROR_NONE} else {LCD_ERROR_NONE, LCD_ERROR_INVALID_PARAMETER})"
proof (cases "region_fits (g_lcddRotate st) r")
  case True
  let ?w = "window_at (roi_x r) (roi_y r) r"
  have f: "\<not> outside_screen (g_lcddRotate st) ?w" "tlPX ?w < brPX ?w" "tlPY ?w < brPY ?w"
    using True unfolding region_fits_iff Let_def by blast+
  have i: "region_inside (g_lcddRotate st) r" using True by (simp add: region_fits_def)
  have t: "tlPX ?w = roi_x r" "tlPY ?w = roi_y r" by (simp_all add: window_at_def)
  show ?thesis using assms f True inside_window(2,3) [OF i]
    by (simp add: lcddp_FillRect16_def lcdd_MutexGet_def Let_def lcddp_BlitRoi2Win_def set_window_def hi_lo_value t)
next
  case False
  let ?w = "window_at (roi_x r) (roi_y r) r"
  let ?s = "st\<lparr>g_lcddLock := 0\<rparr>"
  obtain s' o' where h: "lcddp_GoudaBlitHandler ?s = (s', o')" by fastforce
  have h': "g_lcddLock s' = 1" "started o' = 0" "\<forall>a. LCM_WR_CMD a \<notin> set o'"
    using handler_frees [of ?s] h by (auto simp: lcddp_GoudaBlitHandler_def LCM_WR_CMD_def Let_def)
  show ?thesis
  proof (cases "outside_screen (g_lcddRotate st) ?w")
    case out: True
    then have "\<not> region_inside (g_lcddRotate st) r" using inside_window(1) by blast
    then show ?thesis using assms False out
      by (simp add: lcddp_FillRect16_def lcdd_MutexGet_def Let_def lcdd_MutexFree_def)
  next
    case inside: False
    then have "\<not> (tlPX ?w < brPX ?w \<and> tlPY ?w < brPY ?w)"
      using False unfolding region_fits_iff Let_def by blast
    then show ?thesis using assms False inside h h'
      by (simp add: lcddp_FillRect16_def lcdd_MutexGet_def Let_def lcddp_BlitRoi2Win_def Trace1_def LCM_WR_CMD_def)
  qed
qed

theorem FillRect16_correct_witness:
  "let r = \<lparr>roi_x = 10, roi_y = 250, roi_width = 100, roi_height = 70\<rparr>;
       st = ls_drv (lcd_start False) in
   lcddp_FillRect16 r 0xF800 st = (LCD_ERROR_NONE, st\<lparr>g_lcddLock := 0\<rparr>,
     [Sdk ''hal_GoudaSetBgColor'' [0xF800]] @ lcm_write 0x2a [0, 10, 0, 109] @ lcm_write 0x2b [0, 250, 1, 63] @
     [LCM_WR_CMD 0x2c, Sdk ''hal_GoudaBlitRoi'' [10, 250, 109, 319]])"
proof -
  let ?r = "\<lparr>roi_x = 10, roi_y = 250, roi_width = 100, roi_height = 70\<rparr>"
  have d: "g_lcddLock (ls_drv (lcd_start False)) = 1" "\<not> g_lcddInSleep (ls_drv (lcd_start False))"
    "\<not> g_lcddRotate (ls_drv (lcd_start False))"
    by (simp_all add: lcd_start_def lcddp_Open_def LCD_ili9341_Register_def lcdd_MutexFree_def lcd_boot_def)
  then have "region_fits (g_lcddRotate (ls_drv (lcd_start False))) ?r"
    by (simp add: region_fits_def region_inside_def disp_width_def disp_height_def)
  then show ?thesis using FillRect16_correct [OF d(1,2), of ?r "0xF800"] unfolding Let_def by simp
qed

text \<open>The check of a picture against its buffer compares the sizes only: a window that starts
  inside the buffer and ends outside it is accepted and transferred.\<close>

lemma Blit16_past_buffer:
  assumes "g_lcddLock st = 1" "\<not> g_lcddInSleep st" "\<not> g_lcddRotate st"
  shows "let fb = \<lparr>fb_buffer = 0x80000000, fb_width = 20, fb_height = 20, fb_colorFormat = LCD_COLOR_FORMAT_RGB_565\<rparr>;
      roi = \<lparr>roi_x = 15, roi_y = 0, roi_width = 10, roi_height = 10\<rparr> in
    \<exists>st' out. lcddp_Blit16 \<lparr>fbw_fb = fb, fbw_roi = roi\<rparr> 0 0 st = (LCD_ERROR_NONE, st', out) \<and>
      Sdk ''hal_GoudaBlitRoi'' [15, 0, 24, 9] \<in> set out \<and> 24 \<ge> fb_width fb"
  using assms by (simp add: lcddp_Blit16_def lcdd_MutexGet_def outside_screen_def window_at_def lcddp_BlitRoi2Win_def Let_def)

end
