(* ===== verification/Platform_Utils.thy ===== *)
theory Platform_Utils
  imports Debug_Log
begin

text \<open>
  The small files of \<open>libs/utils/src\<close>: the allocation wrappers of \<open>stdlib.c\<close>, the power
  switch of \<open>hal_gpio.c\<close>, \<open>ctime\<close> of \<open>time.c\<close>, \<open>Assert\<close> and the memory dump of
  \<open>api_debug.c\<close>.
\<close>

section \<open>Allocation\<close>

text \<open>The allocator of the SDK is a parameter, from a size to a pointer.\<close>

definition malloc :: "(u32 \<Rightarrow> 'p) \<Rightarrow> u32 \<Rightarrow> 'p" where
  "malloc OS_Malloc n = OS_Malloc n"

definition realloc :: "('p \<Rightarrow> u32 \<Rightarrow> 'p) \<Rightarrow> 'p \<Rightarrow> u32 \<Rightarrow> 'p" where
  "realloc OS_Realloc p n = OS_Realloc p n"

definition calloc :: "(u32 \<Rightarrow> 'p) \<Rightarrow> u32 \<Rightarrow> u32 \<Rightarrow> 'p" where
  "calloc OS_Malloc nmemb n = malloc OS_Malloc (nmemb * n)"

text \<open>
  The bytes \<open>calloc\<close> asks for are the product modulo \<open>2 ^ 32\<close>, so the block is too small when
  the product does not fit.
\<close>

lemma calloc_asks: "calloc unat nmemb n = unat nmemb * unat n mod 2 ^ 32"
  unfolding calloc_def malloc_def unat_word_ariths(2) by simp

lemma calloc_too_small:
  assumes "2 ^ 32 \<le> unat nmemb * unat n"
  shows "calloc unat nmemb n < unat nmemb * unat n"
  unfolding calloc_asks by (rule less_le_trans [OF mod_less_divisor assms]) simp

section \<open>Power, time and assertions\<close>

datatype Power_Type_t = POWER_TYPE_VPAD | POWER_TYPE_MMC | POWER_TYPE_LCD | POWER_TYPE_CAM | POWER_TYPE_MAX

text \<open>The supply that is switched and its new state; pins above 24 switch nothing.\<close>

definition GPIO_EnablePower :: "nat \<Rightarrow> bool \<Rightarrow> (Power_Type_t \<times> bool) list" where
  "GPIO_EnablePower pin enable =
     (if pin \<ge> 0 \<and> pin \<le> 7 then [(POWER_TYPE_VPAD, enable)]
      else if pin \<ge> 8 \<and> pin \<le> 13 then [(POWER_TYPE_MMC, enable)]
      else if pin \<ge> 14 \<and> pin \<le> 18 then [(POWER_TYPE_LCD, enable)]
      else if pin \<ge> 19 \<and> pin \<le> 24 then [(POWER_TYPE_CAM, enable)]
      else [])"

lemma GPIO_EnablePower_pins: "GPIO_EnablePower pin enable = [] \<longleftrightarrow> 24 < pin"
  by (auto simp: GPIO_EnablePower_def)

record TIME_System_t =
  sys_year :: u16
  sys_month :: u8
  sys_dayOfWeek :: u8
  sys_day :: u8
  sys_hour :: u8
  sys_minute :: u8
  sys_second :: u8
  sys_milliseconds :: u16

text \<open>The conversion of the SDK is a parameter; it counts from 2000, in unsigned arithmetic.\<close>

definition ctime :: "(u32 \<Rightarrow> TIME_System_t option) \<Rightarrow> int \<Rightarrow> cstr option" where
  "ctime TIME_TimeStamp2SystemTime time =
     map_option (\<lambda>t. snprintf 20 ''%04d-%02d-%02d %02d:%02d:%02d''
         [AInt (uint (sys_year t)), AInt (uint (sys_month t)), AInt (uint (sys_day t)),
          AInt (uint (sys_hour t)), AInt (uint (sys_minute t)), AInt (uint (sys_second t))])
       (TIME_TimeStamp2SystemTime (of_int time - 946684800))"

lemma length_ctime: "ctime conv time = Some s \<Longrightarrow> length s \<le> 19"
  by (auto simp: ctime_def snprintf_def snprintf_trunc_def)

definition Assert :: "bool \<Rightarrow> cstr \<Rightarrow> cstr option" where
  "Assert valid fmt = (if \<not> valid then Some fmt else None)"

section \<open>The memory dump\<close>

text \<open>
  One byte as text. \<open>s\<close> has 4 bytes and \<open>line_buff\<close> 64: a text that does not fit with its
  terminator, or a division by zero, is \<open>None\<close>. \<open>ptr i\<close> is the printed address of \<open>buffer + i\<close>.
\<close>

definition hex_low :: "int \<Rightarrow> cstr" where
  "hex_low b = [''0123456789abcdef'' ! nat (b div 16), ''0123456789abcdef'' ! nat (b mod 16)]"

definition mem_entry :: "u8 \<Rightarrow> u8 \<Rightarrow> cstr" where
  "mem_entry radix b = (if radix = 10 then sprintf ''%3d '' [AInt (uint b)] else hex_low (uint b) @ '' '')"

fun mem_loop :: "(nat \<Rightarrow> cstr) \<Rightarrow> nat \<Rightarrow> u8 \<Rightarrow> nat \<Rightarrow> u8 list \<Rightarrow> cstr \<Rightarrow> (cstr \<times> effect list) option" where
  "mem_loop ptr nIndex radix i [] line_buff = Some (line_buff, [])"
| "mem_loop ptr nIndex radix i (b # bs) line_buff =
     (let s = mem_entry radix b in
      if 4 \<le> length s then None
      else if i \<noteq> 0 \<and> radix = 0 then None
      else
        let flush = i \<noteq> 0 \<and> i mod unat radix = 0;
            out = (if flush then [TraceOut nIndex (sprintf ''%s| %s |'' [AStr (ptr i), AStr line_buff])] else []);
            line = (if flush then [] else line_buff)
        in if 64 \<le> length line + length s then None
           else map_option (\<lambda>(l, out'). (l, out @ out')) (mem_loop ptr nIndex radix (Suc i) bs (line @ s)))"

definition Trace_MemBlock :: "(nat \<Rightarrow> cstr) \<Rightarrow> nat \<Rightarrow> u8 list \<Rightarrow> u8 \<Rightarrow> effect list option" where
  "Trace_MemBlock ptr nIndex buffer radix =
     map_option (\<lambda>(line_buff, out).
         [TraceOut nIndex ''==================TRACE MEMORY BLOCK=====================>>'',
          TraceOut nIndex ''   00 01 02 03 04 05 06 07 08 09 10 11 12 13 14 15''] @ out @
         (if length line_buff > 0
          then [TraceOut nIndex (sprintf ''%s| %s '' [AStr (ptr (length buffer)), AStr line_buff])] else []) @
         [TraceOut nIndex ''==================TRACE MEMORY BLOCK=====================<<''])
       (mem_loop ptr nIndex radix 0 buffer [])"

text \<open>
  The two buffers are enough exactly for the line lengths \<open>1 \<dots> 21\<close> other than 10: with 10 the
  decimal text does not fit in \<open>s\<close>, from 22 on the line does not fit in \<open>line_buff\<close>, and
  with 0 the second byte divides by zero.
\<close>

lemma length_mem_entry_hex: "radix \<noteq> 10 \<Longrightarrow> length (mem_entry radix b) = 3"
  by (simp add: mem_entry_def hex_low_def)

lemma length_mem_entry_dec: "4 \<le> length (mem_entry 10 b)"
proof -
  have "3 \<le> length (pad_field (fspec0\<lparr>f_width := 3\<rparr>) True x)" for x
    by (auto simp: pad_field_def fspec0_def)
  then show ?thesis by (simp add: mem_entry_def cstr_simps)
qed

text \<open>The number of entries in the line when byte \<open>i\<close> is reached.\<close>

definition line_fill :: "nat \<Rightarrow> nat \<Rightarrow> nat" where
  "line_fill r i = (if i = 0 then 0 else Suc ((i - 1) mod r))"

lemma line_fill_Suc: "0 < r \<Longrightarrow> line_fill r (Suc i) = Suc (if i mod r = 0 then 0 else line_fill r i)"
  by (cases i) (auto simp: line_fill_def mod_Suc)

lemma line_fill_le: "0 < r \<Longrightarrow> line_fill r i \<le> r"
  by (simp add: line_fill_def Suc_le_eq)

lemma line_fill_less:
  assumes "0 < r" "i mod r \<noteq> 0"
  shows "line_fill r i < r"
proof (cases i)
  case 0
  then show ?thesis using assms by simp
next
  case (Suc k)
  then show ?thesis using assms mod_less_divisor [OF assms(1), of k]
    by (simp add: line_fill_def mod_Suc split: if_splits)
qed

lemma mem_loop_step:
  assumes "radix \<noteq> 10" "i \<noteq> 0 \<longrightarrow> radix \<noteq> 0"
    and "line' = (if i \<noteq> 0 \<and> i mod unat radix = 0 then [] else line)"
  shows "mem_loop ptr nIndex radix i (b # bs) line = None \<longleftrightarrow>
           61 \<le> length line' \<or> mem_loop ptr nIndex radix (Suc i) bs (line' @ mem_entry radix b) = None"
proof -
  have "64 \<le> n + length (mem_entry radix b) \<longleftrightarrow> 61 \<le> n" for n
    by (auto simp: length_mem_entry_hex [OF assms(1)])
  moreover have "\<not> 4 \<le> length (mem_entry radix b)" "(i \<noteq> 0 \<and> radix = 0) = False"
    using assms(2) by (auto simp: length_mem_entry_hex [OF assms(1)])
  ultimately show ?thesis
    by (simp only: mem_loop.simps Let_def assms(3) [symmetric] if_False if_split_asm simp_thms) auto
qed

lemma mem_loop_fits:
  assumes "0 < unat radix" "unat radix \<le> 21" "radix \<noteq> 10" "length line = 3 * line_fill (unat radix) i"
  shows "mem_loop ptr nIndex radix i bs line \<noteq> None"
  using assms(4)
proof (induction bs arbitrary: i line)
  case Nil
  then show ?case by simp
next
  case (Cons b bs)
  define line' where "line' = (if i \<noteq> 0 \<and> i mod unat radix = 0 then [] else line)"
  have l: "length line' = 3 * (if i mod unat radix = 0 then 0 else line_fill (unat radix) i)"
    using Cons.prems by (cases "i = 0") (simp_all add: line'_def line_fill_def)
  have s: "length (mem_entry radix b) = 3" by (rule length_mem_entry_hex [OF assms(3)])
  have short: "length line' < 61"
    using l line_fill_less [OF assms(1), of i] assms(2) by (simp split: if_splits)
  have "length (line' @ mem_entry radix b) = 3 * line_fill (unat radix) (Suc i)"
    by (simp add: l s line_fill_Suc [OF assms(1)])
  then have "mem_loop ptr nIndex radix (Suc i) bs (line' @ mem_entry radix b) \<noteq> None" by (rule Cons.IH)
  moreover have "i \<noteq> 0 \<longrightarrow> radix \<noteq> 0" using assms(1) by auto
  ultimately show ?case
    using short mem_loop_step [OF assms(3) _ line'_def, of ptr nIndex b bs] by (simp del: mem_loop.simps)
qed

lemma mem_loop_long:
  assumes "21 < unat radix" "length line = 3 * i" "i \<le> 21"
  shows "mem_loop ptr nIndex radix i bs line = None \<longleftrightarrow> 22 \<le> i + length bs"
  using assms(2,3)
proof (induction bs arbitrary: i line)
  case Nil
  then show ?case by simp
next
  case (Cons b bs)
  have r: "radix \<noteq> 10" "radix \<noteq> 0" using assms(1) by auto
  have "line = (if i \<noteq> 0 \<and> i mod unat radix = 0 then [] else line)" using assms(1) Cons.prems by (cases i) simp_all
  then have "mem_loop ptr nIndex radix i (b # bs) line = None \<longleftrightarrow>
      61 \<le> length line \<or> mem_loop ptr nIndex radix (Suc i) bs (line @ mem_entry radix b) = None"
    using r by (intro mem_loop_step) auto
  then show ?case
    using Cons.IH [of "line @ mem_entry radix b" "Suc i"] Cons.prems length_mem_entry_hex [OF r(1), of b]
    by (cases "i = 21") auto
qed

lemma mem_loop_decimal: "mem_loop ptr nIndex 10 0 buffer [] = None \<longleftrightarrow> buffer \<noteq> []"
  using length_mem_entry_dec by (cases buffer) (simp_all add: Let_def)

lemma mem_loop_zero: "mem_loop ptr nIndex 0 0 buffer [] = None \<longleftrightarrow> 2 \<le> length buffer"
proof (cases buffer)
  case (Cons b bs)
  have s: "length (mem_entry 0 c) = 3" for c by (simp add: length_mem_entry_hex)
  show ?thesis by (cases bs) (simp_all add: Cons s Let_def)
qed simp

lemma Trace_MemBlock_safe:
  "Trace_MemBlock ptr nIndex buffer radix = None \<longleftrightarrow>
     (if radix = 0 then 2 \<le> length buffer else if radix = 10 then buffer \<noteq> []
      else 21 < unat radix \<and> 22 \<le> length buffer)"
proof -
  have "mem_loop ptr nIndex radix 0 buffer [] = None \<longleftrightarrow> 21 < unat radix \<and> 22 \<le> length buffer"
    if "radix \<noteq> 0" "radix \<noteq> 10"
  proof (cases "21 < unat radix")
    case True
    then show ?thesis using mem_loop_long [of radix "[]" 0 ptr nIndex buffer] by simp
  next
    case False
    have "mem_loop ptr nIndex radix 0 buffer [] \<noteq> None"
      using that False by (intro mem_loop_fits) (auto simp: line_fill_def unat_gt_0)
    then show ?thesis using False by simp
  qed
  then show ?thesis
    by (simp add: Trace_MemBlock_def mem_loop_decimal mem_loop_zero)
qed

end
