(* ===== verification/Lcd_Ssd1306.thy ===== *)
theory Lcd_Ssd1306
  imports Platform_Utils
begin

text \<open>
  The driver of the SSD1306 display, \<open>libs/lcd/ssd1306/src/ssd1306.c\<close>: bytes to the panel with
  the command/data pin, the cursor, two fonts, pictures, text, the whole screen, start-up. An
  operation is its list of effects; \<open>None\<close> is a read past an array or a loop that does not end.
  The poll for the end of an SPI transfer and the byte read back, which no caller uses, have no
  effect here.
\<close>

section \<open>State and bytes\<close>

abbreviation SPI_MAX :: nat where "SPI_MAX \<equiv> 3"
abbreviation GPIO_PIN_MAX :: nat where "GPIO_PIN_MAX \<equiv> 35"
abbreviation SSD1306_CMD :: u8 where "SSD1306_CMD \<equiv> 0"
abbreviation SSD1306_DATA :: u8 where "SSD1306_DATA \<equiv> 1"

record ssd_state =
  ssd1306_width :: u16
  ssd1306_height :: u16
  ssd1306_spi :: nat
  ssd1306_rst :: nat
  ssd1306_dc :: nat

definition ssd_boot :: ssd_state where
  "ssd_boot = \<lparr>ssd1306_width = 0, ssd1306_height = 0, ssd1306_spi = SPI_MAX, ssd1306_rst = GPIO_PIN_MAX, ssd1306_dc = GPIO_PIN_MAX\<rparr>"

definition SSD1306_SET_RST :: "ssd_state \<Rightarrow> bool \<Rightarrow> effect" where
  "SSD1306_SET_RST st rst = GpioSet (ssd1306_rst st) (if rst then GPIO_LEVEL_LOW else GPIO_LEVEL_HIGH)"

definition SSD1306_DC_DATA :: "ssd_state \<Rightarrow> effect" where
  "SSD1306_DC_DATA st = GpioSet (ssd1306_dc st) GPIO_LEVEL_HIGH"

definition SSD1306_DC_CMD :: "ssd_state \<Rightarrow> effect" where
  "SSD1306_DC_CMD st = GpioSet (ssd1306_dc st) GPIO_LEVEL_LOW"

definition SPI_WriteReadByte :: "nat \<Rightarrow> u8 \<Rightarrow> effect list" where
  "SPI_WriteReadByte spi data = [Sdk ''SPI_Write'' [int spi, uint data], Sdk ''SPI_Read'' [int spi]]"

definition SSD1306_WriteByte :: "ssd_state \<Rightarrow> u8 \<Rightarrow> u8 \<Rightarrow> effect list" where
  "SSD1306_WriteByte st data cmd =
     (if cmd = SSD1306_CMD then SSD1306_DC_CMD st else SSD1306_DC_DATA st) #
     SPI_WriteReadByte (ssd1306_spi st) data @ [SSD1306_DC_CMD st]"

text \<open>Several bytes of one kind, one call each.\<close>

definition write_bytes :: "ssd_state \<Rightarrow> u8 \<Rightarrow> u8 list \<Rightarrow> effect list" where
  "write_bytes st cmd bs = concat (map (\<lambda>b. SSD1306_WriteByte st b cmd) bs)"

section \<open>Screen and cursor\<close>

definition SSD1306_Clear :: "ssd_state \<Rightarrow> effect list" where
  "SSD1306_Clear st = concat (map (\<lambda>i.
     SSD1306_WriteByte st (0xb0 + i) SSD1306_CMD @
     SSD1306_WriteByte st 0x00 SSD1306_CMD @
     SSD1306_WriteByte st 0x10 SSD1306_CMD @
     write_bytes st SSD1306_DATA (replicate 128 0)) (map word_of_nat [0..<8]))"

definition SSD1306_DisplayOn :: "ssd_state \<Rightarrow> effect list" where
  "SSD1306_DisplayOn st = write_bytes st SSD1306_CMD [0x8D, 0x14, 0xAF]"

definition SSD1306_DisplayOff :: "ssd_state \<Rightarrow> effect list" where
  "SSD1306_DisplayOff st = write_bytes st SSD1306_CMD [0x8D, 0x10, 0xAE]"

definition SSD1306_SetPos :: "ssd_state \<Rightarrow> u8 \<Rightarrow> u8 \<Rightarrow> effect list" where
  "SSD1306_SetPos st x y =
     SSD1306_WriteByte st (0xb0 + y) SSD1306_CMD @
     SSD1306_WriteByte st (drop_bit 4 (x AND 0xf0) OR 0x10) SSD1306_CMD @
     SSD1306_WriteByte st ((x AND 0x0f) OR 0x01) SSD1306_CMD"

section \<open>Characters\<close>

definition F6x8 :: "u8 list list" where
  "F6x8 = [
     [0x00, 0x00, 0x00, 0x00, 0x00, 0x00],
     [0x00, 0x00, 0x00, 0x2f, 0x00, 0x00],
     [0x00, 0x00, 0x07, 0x00, 0x07, 0x00],
     [0x00, 0x14, 0x7f, 0x14, 0x7f, 0x14],
     [0x00, 0x24, 0x2a, 0x7f, 0x2a, 0x12],
     [0x00, 0x62, 0x64, 0x08, 0x13, 0x23],
     [0x00, 0x36, 0x49, 0x55, 0x22, 0x50],
     [0x00, 0x00, 0x05, 0x03, 0x00, 0x00],
     [0x00, 0x00, 0x1c, 0x22, 0x41, 0x00],
     [0x00, 0x00, 0x41, 0x22, 0x1c, 0x00],
     [0x00, 0x14, 0x08, 0x3E, 0x08, 0x14],
     [0x00, 0x08, 0x08, 0x3E, 0x08, 0x08],
     [0x00, 0x00, 0x00, 0xA0, 0x60, 0x00],
     [0x00, 0x08, 0x08, 0x08, 0x08, 0x08],
     [0x00, 0x00, 0x60, 0x60, 0x00, 0x00],
     [0x00, 0x20, 0x10, 0x08, 0x04, 0x02],
     [0x00, 0x3E, 0x51, 0x49, 0x45, 0x3E],
     [0x00, 0x00, 0x42, 0x7F, 0x40, 0x00],
     [0x00, 0x42, 0x61, 0x51, 0x49, 0x46],
     [0x00, 0x21, 0x41, 0x45, 0x4B, 0x31],
     [0x00, 0x18, 0x14, 0x12, 0x7F, 0x10],
     [0x00, 0x27, 0x45, 0x45, 0x45, 0x39],
     [0x00, 0x3C, 0x4A, 0x49, 0x49, 0x30],
     [0x00, 0x01, 0x71, 0x09, 0x05, 0x03],
     [0x00, 0x36, 0x49, 0x49, 0x49, 0x36],
     [0x00, 0x06, 0x49, 0x49, 0x29, 0x1E],
     [0x00, 0x00, 0x36, 0x36, 0x00, 0x00],
     [0x00, 0x00, 0x56, 0x36, 0x00, 0x00],
     [0x00, 0x08, 0x14, 0x22, 0x41, 0x00],
     [0x00, 0x14, 0x14, 0x14, 0x14, 0x14],
     [0x00, 0x00, 0x41, 0x22, 0x14, 0x08],
     [0x00, 0x02, 0x01, 0x51, 0x09, 0x06],
     [0x00, 0x32, 0x49, 0x59, 0x51, 0x3E],
     [0x00, 0x7C, 0x12, 0x11, 0x12, 0x7C],
     [0x00, 0x7F, 0x49, 0x49, 0x49, 0x36],
     [0x00, 0x3E, 0x41, 0x41, 0x41, 0x22],
     [0x00, 0x7F, 0x41, 0x41, 0x22, 0x1C],
     [0x00, 0x7F, 0x49, 0x49, 0x49, 0x41],
     [0x00, 0x7F, 0x09, 0x09, 0x09, 0x01],
     [0x00, 0x3E, 0x41, 0x49, 0x49, 0x7A],
     [0x00, 0x7F, 0x08, 0x08, 0x08, 0x7F],
     [0x00, 0x00, 0x41, 0x7F, 0x41, 0x00],
     [0x00, 0x20, 0x40, 0x41, 0x3F, 0x01],
     [0x00, 0x7F, 0x08, 0x14, 0x22, 0x41],
     [0x00, 0x7F, 0x40, 0x40, 0x40, 0x40],
     [0x00, 0x7F, 0x02, 0x0C, 0x02, 0x7F],
     [0x00, 0x7F, 0x04, 0x08, 0x10, 0x7F],
     [0x00, 0x3E, 0x41, 0x41, 0x41, 0x3E],
     [0x00, 0x7F, 0x09, 0x09, 0x09, 0x06],
     [0x00, 0x3E, 0x41, 0x51, 0x21, 0x5E],
     [0x00, 0x7F, 0x09, 0x19, 0x29, 0x46],
     [0x00, 0x46, 0x49, 0x49, 0x49, 0x31],
     [0x00, 0x01, 0x01, 0x7F, 0x01, 0x01],
     [0x00, 0x3F, 0x40, 0x40, 0x40, 0x3F],
     [0x00, 0x1F, 0x20, 0x40, 0x20, 0x1F],
     [0x00, 0x3F, 0x40, 0x38, 0x40, 0x3F],
     [0x00, 0x63, 0x14, 0x08, 0x14, 0x63],
     [0x00, 0x07, 0x08, 0x70, 0x08, 0x07],
     [0x00, 0x61, 0x51, 0x49, 0x45, 0x43],
     [0x00, 0x00, 0x7F, 0x41, 0x41, 0x00],
     [0x00, 0x55, 0x2A, 0x55, 0x2A, 0x55],
     [0x00, 0x00, 0x41, 0x41, 0x7F, 0x00],
     [0x00, 0x04, 0x02, 0x01, 0x02, 0x04],
     [0x00, 0x40, 0x40, 0x40, 0x40, 0x40],
     [0x00, 0x00, 0x01, 0x02, 0x04, 0x00],
     [0x00, 0x20, 0x54, 0x54, 0x54, 0x78],
     [0x00, 0x7F, 0x48, 0x44, 0x44, 0x38],
     [0x00, 0x38, 0x44, 0x44, 0x44, 0x20],
     [0x00, 0x38, 0x44, 0x44, 0x48, 0x7F],
     [0x00, 0x38, 0x54, 0x54, 0x54, 0x18],
     [0x00, 0x08, 0x7E, 0x09, 0x01, 0x02],
     [0x00, 0x18, 0xA4, 0xA4, 0xA4, 0x7C],
     [0x00, 0x7F, 0x08, 0x04, 0x04, 0x78],
     [0x00, 0x00, 0x44, 0x7D, 0x40, 0x00],
     [0x00, 0x40, 0x80, 0x84, 0x7D, 0x00],
     [0x00, 0x7F, 0x10, 0x28, 0x44, 0x00],
     [0x00, 0x00, 0x41, 0x7F, 0x40, 0x00],
     [0x00, 0x7C, 0x04, 0x18, 0x04, 0x78],
     [0x00, 0x7C, 0x08, 0x04, 0x04, 0x78],
     [0x00, 0x38, 0x44, 0x44, 0x44, 0x38],
     [0x00, 0xFC, 0x24, 0x24, 0x24, 0x18],
     [0x00, 0x18, 0x24, 0x24, 0x18, 0xFC],
     [0x00, 0x7C, 0x08, 0x04, 0x04, 0x08],
     [0x00, 0x48, 0x54, 0x54, 0x54, 0x20],
     [0x00, 0x04, 0x3F, 0x44, 0x40, 0x20],
     [0x00, 0x3C, 0x40, 0x40, 0x20, 0x7C],
     [0x00, 0x1C, 0x20, 0x40, 0x20, 0x1C],
     [0x00, 0x3C, 0x40, 0x30, 0x40, 0x3C],
     [0x00, 0x44, 0x28, 0x10, 0x28, 0x44],
     [0x00, 0x1C, 0xA0, 0xA0, 0xA0, 0x7C],
     [0x00, 0x44, 0x64, 0x54, 0x4C, 0x44],
     [0x14, 0x14, 0x14, 0x14, 0x14, 0x14]]"

definition F8X16_rows :: "u8 list list" where
  "F8X16_rows = [
     [0x00, 0x00, 0x00, 0x00, 0x00, 0x00, 0x00, 0x00, 0x00, 0x00, 0x00, 0x00, 0x00, 0x00, 0x00, 0x00],
     [0x00, 0x00, 0x00, 0xF8, 0x00, 0x00, 0x00, 0x00, 0x00, 0x00, 0x00, 0x33, 0x30, 0x00, 0x00, 0x00],
     [0x00, 0x10, 0x0C, 0x06, 0x10, 0x0C, 0x06, 0x00, 0x00, 0x00, 0x00, 0x00, 0x00, 0x00, 0x00, 0x00],
     [0x40, 0xC0, 0x78, 0x40, 0xC0, 0x78, 0x40, 0x00, 0x04, 0x3F, 0x04, 0x04, 0x3F, 0x04, 0x04, 0x00],
     [0x00, 0x70, 0x88, 0xFC, 0x08, 0x30, 0x00, 0x00, 0x00, 0x18, 0x20, 0xFF, 0x21, 0x1E, 0x00, 0x00],
     [0xF0, 0x08, 0xF0, 0x00, 0xE0, 0x18, 0x00, 0x00, 0x00, 0x21, 0x1C, 0x03, 0x1E, 0x21, 0x1E, 0x00],
     [0x00, 0xF0, 0x08, 0x88, 0x70, 0x00, 0x00, 0x00, 0x1E, 0x21, 0x23, 0x24, 0x19, 0x27, 0x21, 0x10],
     [0x10, 0x16, 0x0E, 0x00, 0x00, 0x00, 0x00, 0x00, 0x00, 0x00, 0x00, 0x00, 0x00, 0x00, 0x00, 0x00],
     [0x00, 0x00, 0x00, 0xE0, 0x18, 0x04, 0x02, 0x00, 0x00, 0x00, 0x00, 0x07, 0x18, 0x20, 0x40, 0x00],
     [0x00, 0x02, 0x04, 0x18, 0xE0, 0x00, 0x00, 0x00, 0x00, 0x40, 0x20, 0x18, 0x07, 0x00, 0x00, 0x00],
     [0x40, 0x40, 0x80, 0xF0, 0x80, 0x40, 0x40, 0x00, 0x02, 0x02, 0x01, 0x0F, 0x01, 0x02, 0x02, 0x00],
     [0x00, 0x00, 0x00, 0xF0, 0x00, 0x00, 0x00, 0x00, 0x01, 0x01, 0x01, 0x1F, 0x01, 0x01, 0x01, 0x00],
     [0x00, 0x00, 0x00, 0x00, 0x00, 0x00, 0x00, 0x00, 0x80, 0xB0, 0x70, 0x00, 0x00, 0x00, 0x00, 0x00],
     [0x00, 0x00, 0x00, 0x00, 0x00, 0x00, 0x00, 0x00, 0x00, 0x01, 0x01, 0x01, 0x01, 0x01, 0x01, 0x01],
     [0x00, 0x00, 0x00, 0x00, 0x00, 0x00, 0x00, 0x00, 0x00, 0x30, 0x30, 0x00, 0x00, 0x00, 0x00, 0x00],
     [0x00, 0x00, 0x00, 0x00, 0x80, 0x60, 0x18, 0x04, 0x00, 0x60, 0x18, 0x06, 0x01, 0x00, 0x00, 0x00],
     [0x00, 0xE0, 0x10, 0x08, 0x08, 0x10, 0xE0, 0x00, 0x00, 0x0F, 0x10, 0x20, 0x20, 0x10, 0x0F, 0x00],
     [0x00, 0x10, 0x10, 0xF8, 0x00, 0x00, 0x00, 0x00, 0x00, 0x20, 0x20, 0x3F, 0x20, 0x20, 0x00, 0x00],
     [0x00, 0x70, 0x08, 0x08, 0x08, 0x88, 0x70, 0x00, 0x00, 0x30, 0x28, 0x24, 0x22, 0x21, 0x30, 0x00],
     [0x00, 0x30, 0x08, 0x88, 0x88, 0x48, 0x30, 0x00, 0x00, 0x18, 0x20, 0x20, 0x20, 0x11, 0x0E, 0x00],
     [0x00, 0x00, 0xC0, 0x20, 0x10, 0xF8, 0x00, 0x00, 0x00, 0x07, 0x04, 0x24, 0x24, 0x3F, 0x24, 0x00],
     [0x00, 0xF8, 0x08, 0x88, 0x88, 0x08, 0x08, 0x00, 0x00, 0x19, 0x21, 0x20, 0x20, 0x11, 0x0E, 0x00],
     [0x00, 0xE0, 0x10, 0x88, 0x88, 0x18, 0x00, 0x00, 0x00, 0x0F, 0x11, 0x20, 0x20, 0x11, 0x0E, 0x00],
     [0x00, 0x38, 0x08, 0x08, 0xC8, 0x38, 0x08, 0x00, 0x00, 0x00, 0x00, 0x3F, 0x00, 0x00, 0x00, 0x00],
     [0x00, 0x70, 0x88, 0x08, 0x08, 0x88, 0x70, 0x00, 0x00, 0x1C, 0x22, 0x21, 0x21, 0x22, 0x1C, 0x00],
     [0x00, 0xE0, 0x10, 0x08, 0x08, 0x10, 0xE0, 0x00, 0x00, 0x00, 0x31, 0x22, 0x22, 0x11, 0x0F, 0x00],
     [0x00, 0x00, 0x00, 0xC0, 0xC0, 0x00, 0x00, 0x00, 0x00, 0x00, 0x00, 0x30, 0x30, 0x00, 0x00, 0x00],
     [0x00, 0x00, 0x00, 0x80, 0x00, 0x00, 0x00, 0x00, 0x00, 0x00, 0x80, 0x60, 0x00, 0x00, 0x00, 0x00],
     [0x00, 0x00, 0x80, 0x40, 0x20, 0x10, 0x08, 0x00, 0x00, 0x01, 0x02, 0x04, 0x08, 0x10, 0x20, 0x00],
     [0x40, 0x40, 0x40, 0x40, 0x40, 0x40, 0x40, 0x00, 0x04, 0x04, 0x04, 0x04, 0x04, 0x04, 0x04, 0x00],
     [0x00, 0x08, 0x10, 0x20, 0x40, 0x80, 0x00, 0x00, 0x00, 0x20, 0x10, 0x08, 0x04, 0x02, 0x01, 0x00],
     [0x00, 0x70, 0x48, 0x08, 0x08, 0x08, 0xF0, 0x00, 0x00, 0x00, 0x00, 0x30, 0x36, 0x01, 0x00, 0x00],
     [0xC0, 0x30, 0xC8, 0x28, 0xE8, 0x10, 0xE0, 0x00, 0x07, 0x18, 0x27, 0x24, 0x23, 0x14, 0x0B, 0x00],
     [0x00, 0x00, 0xC0, 0x38, 0xE0, 0x00, 0x00, 0x00, 0x20, 0x3C, 0x23, 0x02, 0x02, 0x27, 0x38, 0x20],
     [0x08, 0xF8, 0x88, 0x88, 0x88, 0x70, 0x00, 0x00, 0x20, 0x3F, 0x20, 0x20, 0x20, 0x11, 0x0E, 0x00],
     [0xC0, 0x30, 0x08, 0x08, 0x08, 0x08, 0x38, 0x00, 0x07, 0x18, 0x20, 0x20, 0x20, 0x10, 0x08, 0x00],
     [0x08, 0xF8, 0x08, 0x08, 0x08, 0x10, 0xE0, 0x00, 0x20, 0x3F, 0x20, 0x20, 0x20, 0x10, 0x0F, 0x00],
     [0x08, 0xF8, 0x88, 0x88, 0xE8, 0x08, 0x10, 0x00, 0x20, 0x3F, 0x20, 0x20, 0x23, 0x20, 0x18, 0x00],
     [0x08, 0xF8, 0x88, 0x88, 0xE8, 0x08, 0x10, 0x00, 0x20, 0x3F, 0x20, 0x00, 0x03, 0x00, 0x00, 0x00],
     [0xC0, 0x30, 0x08, 0x08, 0x08, 0x38, 0x00, 0x00, 0x07, 0x18, 0x20, 0x20, 0x22, 0x1E, 0x02, 0x00],
     [0x08, 0xF8, 0x08, 0x00, 0x00, 0x08, 0xF8, 0x08, 0x20, 0x3F, 0x21, 0x01, 0x01, 0x21, 0x3F, 0x20],
     [0x00, 0x08, 0x08, 0xF8, 0x08, 0x08, 0x00, 0x00, 0x00, 0x20, 0x20, 0x3F, 0x20, 0x20, 0x00, 0x00],
     [0x00, 0x00, 0x08, 0x08, 0xF8, 0x08, 0x08, 0x00, 0xC0, 0x80, 0x80, 0x80, 0x7F, 0x00, 0x00, 0x00],
     [0x08, 0xF8, 0x88, 0xC0, 0x28, 0x18, 0x08, 0x00, 0x20, 0x3F, 0x20, 0x01, 0x26, 0x38, 0x20, 0x00],
     [0x08, 0xF8, 0x08, 0x00, 0x00, 0x00, 0x00, 0x00, 0x20, 0x3F, 0x20, 0x20, 0x20, 0x20, 0x30, 0x00],
     [0x08, 0xF8, 0xF8, 0x00, 0xF8, 0xF8, 0x08, 0x00, 0x20, 0x3F, 0x00, 0x3F, 0x00, 0x3F, 0x20, 0x00],
     [0x08, 0xF8, 0x30, 0xC0, 0x00, 0x08, 0xF8, 0x08, 0x20, 0x3F, 0x20, 0x00, 0x07, 0x18, 0x3F, 0x00],
     [0xE0, 0x10, 0x08, 0x08, 0x08, 0x10, 0xE0, 0x00, 0x0F, 0x10, 0x20, 0x20, 0x20, 0x10, 0x0F, 0x00],
     [0x08, 0xF8, 0x08, 0x08, 0x08, 0x08, 0xF0, 0x00, 0x20, 0x3F, 0x21, 0x01, 0x01, 0x01, 0x00, 0x00],
     [0xE0, 0x10, 0x08, 0x08, 0x08, 0x10, 0xE0, 0x00, 0x0F, 0x18, 0x24, 0x24, 0x38, 0x50, 0x4F, 0x00],
     [0x08, 0xF8, 0x88, 0x88, 0x88, 0x88, 0x70, 0x00, 0x20, 0x3F, 0x20, 0x00, 0x03, 0x0C, 0x30, 0x20],
     [0x00, 0x70, 0x88, 0x08, 0x08, 0x08, 0x38, 0x00, 0x00, 0x38, 0x20, 0x21, 0x21, 0x22, 0x1C, 0x00],
     [0x18, 0x08, 0x08, 0xF8, 0x08, 0x08, 0x18, 0x00, 0x00, 0x00, 0x20, 0x3F, 0x20, 0x00, 0x00, 0x00],
     [0x08, 0xF8, 0x08, 0x00, 0x00, 0x08, 0xF8, 0x08, 0x00, 0x1F, 0x20, 0x20, 0x20, 0x20, 0x1F, 0x00],
     [0x08, 0x78, 0x88, 0x00, 0x00, 0xC8, 0x38, 0x08, 0x00, 0x00, 0x07, 0x38, 0x0E, 0x01, 0x00, 0x00],
     [0xF8, 0x08, 0x00, 0xF8, 0x00, 0x08, 0xF8, 0x00, 0x03, 0x3C, 0x07, 0x00, 0x07, 0x3C, 0x03, 0x00],
     [0x08, 0x18, 0x68, 0x80, 0x80, 0x68, 0x18, 0x08, 0x20, 0x30, 0x2C, 0x03, 0x03, 0x2C, 0x30, 0x20],
     [0x08, 0x38, 0xC8, 0x00, 0xC8, 0x38, 0x08, 0x00, 0x00, 0x00, 0x20, 0x3F, 0x20, 0x00, 0x00, 0x00],
     [0x10, 0x08, 0x08, 0x08, 0xC8, 0x38, 0x08, 0x00, 0x20, 0x38, 0x26, 0x21, 0x20, 0x20, 0x18, 0x00],
     [0x00, 0x00, 0x00, 0xFE, 0x02, 0x02, 0x02, 0x00, 0x00, 0x00, 0x00, 0x7F, 0x40, 0x40, 0x40, 0x00],
     [0x00, 0x0C, 0x30, 0xC0, 0x00, 0x00, 0x00, 0x00, 0x00, 0x00, 0x00, 0x01, 0x06, 0x38, 0xC0, 0x00],
     [0x00, 0x02, 0x02, 0x02, 0xFE, 0x00, 0x00, 0x00, 0x00, 0x40, 0x40, 0x40, 0x7F, 0x00, 0x00, 0x00],
     [0x00, 0x00, 0x04, 0x02, 0x02, 0x02, 0x04, 0x00, 0x00, 0x00, 0x00, 0x00, 0x00, 0x00, 0x00, 0x00],
     [0x00, 0x00, 0x00, 0x00, 0x00, 0x00, 0x00, 0x00, 0x80, 0x80, 0x80, 0x80, 0x80, 0x80, 0x80, 0x80],
     [0x00, 0x02, 0x02, 0x04, 0x00, 0x00, 0x00, 0x00, 0x00, 0x00, 0x00, 0x00, 0x00, 0x00, 0x00, 0x00],
     [0x00, 0x00, 0x80, 0x80, 0x80, 0x80, 0x00, 0x00, 0x00, 0x19, 0x24, 0x22, 0x22, 0x22, 0x3F, 0x20],
     [0x08, 0xF8, 0x00, 0x80, 0x80, 0x00, 0x00, 0x00, 0x00, 0x3F, 0x11, 0x20, 0x20, 0x11, 0x0E, 0x00],
     [0x00, 0x00, 0x00, 0x80, 0x80, 0x80, 0x00, 0x00, 0x00, 0x0E, 0x11, 0x20, 0x20, 0x20, 0x11, 0x00],
     [0x00, 0x00, 0x00, 0x80, 0x80, 0x88, 0xF8, 0x00, 0x00, 0x0E, 0x11, 0x20, 0x20, 0x10, 0x3F, 0x20],
     [0x00, 0x00, 0x80, 0x80, 0x80, 0x80, 0x00, 0x00, 0x00, 0x1F, 0x22, 0x22, 0x22, 0x22, 0x13, 0x00],
     [0x00, 0x80, 0x80, 0xF0, 0x88, 0x88, 0x88, 0x18, 0x00, 0x20, 0x20, 0x3F, 0x20, 0x20, 0x00, 0x00],
     [0x00, 0x00, 0x80, 0x80, 0x80, 0x80, 0x80, 0x00, 0x00, 0x6B, 0x94, 0x94, 0x94, 0x93, 0x60, 0x00],
     [0x08, 0xF8, 0x00, 0x80, 0x80, 0x80, 0x00, 0x00, 0x20, 0x3F, 0x21, 0x00, 0x00, 0x20, 0x3F, 0x20],
     [0x00, 0x80, 0x98, 0x98, 0x00, 0x00, 0x00, 0x00, 0x00, 0x20, 0x20, 0x3F, 0x20, 0x20, 0x00, 0x00],
     [0x00, 0x00, 0x00, 0x80, 0x98, 0x98, 0x00, 0x00, 0x00, 0xC0, 0x80, 0x80, 0x80, 0x7F, 0x00, 0x00],
     [0x08, 0xF8, 0x00, 0x00, 0x80, 0x80, 0x80, 0x00, 0x20, 0x3F, 0x24, 0x02, 0x2D, 0x30, 0x20, 0x00],
     [0x00, 0x08, 0x08, 0xF8, 0x00, 0x00, 0x00, 0x00, 0x00, 0x20, 0x20, 0x3F, 0x20, 0x20, 0x00, 0x00],
     [0x80, 0x80, 0x80, 0x80, 0x80, 0x80, 0x80, 0x00, 0x20, 0x3F, 0x20, 0x00, 0x3F, 0x20, 0x00, 0x3F],
     [0x80, 0x80, 0x00, 0x80, 0x80, 0x80, 0x00, 0x00, 0x20, 0x3F, 0x21, 0x00, 0x00, 0x20, 0x3F, 0x20],
     [0x00, 0x00, 0x80, 0x80, 0x80, 0x80, 0x00, 0x00, 0x00, 0x1F, 0x20, 0x20, 0x20, 0x20, 0x1F, 0x00],
     [0x80, 0x80, 0x00, 0x80, 0x80, 0x00, 0x00, 0x00, 0x80, 0xFF, 0xA1, 0x20, 0x20, 0x11, 0x0E, 0x00],
     [0x00, 0x00, 0x00, 0x80, 0x80, 0x80, 0x80, 0x00, 0x00, 0x0E, 0x11, 0x20, 0x20, 0xA0, 0xFF, 0x80],
     [0x80, 0x80, 0x80, 0x00, 0x80, 0x80, 0x80, 0x00, 0x20, 0x20, 0x3F, 0x21, 0x20, 0x00, 0x01, 0x00],
     [0x00, 0x00, 0x80, 0x80, 0x80, 0x80, 0x80, 0x00, 0x00, 0x33, 0x24, 0x24, 0x24, 0x24, 0x19, 0x00],
     [0x00, 0x80, 0x80, 0xE0, 0x80, 0x80, 0x00, 0x00, 0x00, 0x00, 0x00, 0x1F, 0x20, 0x20, 0x00, 0x00],
     [0x80, 0x80, 0x00, 0x00, 0x00, 0x80, 0x80, 0x00, 0x00, 0x1F, 0x20, 0x20, 0x20, 0x10, 0x3F, 0x20],
     [0x80, 0x80, 0x80, 0x00, 0x00, 0x80, 0x80, 0x80, 0x00, 0x01, 0x0E, 0x30, 0x08, 0x06, 0x01, 0x00],
     [0x80, 0x80, 0x00, 0x80, 0x00, 0x80, 0x80, 0x80, 0x0F, 0x30, 0x0C, 0x03, 0x0C, 0x30, 0x0F, 0x00],
     [0x00, 0x80, 0x80, 0x00, 0x80, 0x80, 0x80, 0x00, 0x00, 0x20, 0x31, 0x2E, 0x0E, 0x31, 0x20, 0x00],
     [0x80, 0x80, 0x80, 0x00, 0x00, 0x80, 0x80, 0x80, 0x80, 0x81, 0x8E, 0x70, 0x18, 0x06, 0x01, 0x00],
     [0x00, 0x80, 0x80, 0x80, 0x80, 0x80, 0x80, 0x00, 0x00, 0x21, 0x30, 0x2C, 0x22, 0x21, 0x30, 0x00],
     [0x00, 0x00, 0x00, 0x00, 0x80, 0x7C, 0x02, 0x02, 0x00, 0x00, 0x00, 0x00, 0x00, 0x3F, 0x40, 0x40],
     [0x00, 0x00, 0x00, 0x00, 0xFF, 0x00, 0x00, 0x00, 0x00, 0x00, 0x00, 0x00, 0xFF, 0x00, 0x00, 0x00],
     [0x00, 0x02, 0x02, 0x7C, 0x80, 0x00, 0x00, 0x00, 0x00, 0x40, 0x40, 0x3F, 0x00, 0x00, 0x00, 0x00],
     [0x00, 0x06, 0x01, 0x01, 0x02, 0x02, 0x04, 0x04, 0x00, 0x00, 0x00, 0x00, 0x00, 0x00, 0x00, 0x00]]"

definition F8X16 :: "u8 list" where
  "F8X16 = concat F8X16_rows"

text \<open>The columns of a glyph; \<open>None\<close> is an index outside the table.\<close>

definition glyph :: "u8 \<Rightarrow> u8 \<Rightarrow> u8 list option" where
  "glyph chr font =
     (let c = unat (chr - 0x20) in
      if font = 16 then (if c * 16 + 15 < length F8X16 then Some (take 16 (drop (c * 16) F8X16)) else None)
      else (if c < length F6x8 then Some (F6x8 ! c) else None))"

definition SSD1306_ShowChar :: "ssd_state \<Rightarrow> u8 \<Rightarrow> u8 \<Rightarrow> u8 \<Rightarrow> u8 \<Rightarrow> effect list option" where
  "SSD1306_ShowChar st x0 y0 chr font =
     (let (x, y) = (if uint x0 > uint (ssd1306_width st) - 1 then (0, y0 + 2) else (x0, y0)) in
      map_option (\<lambda>g.
        if font = 16 then
          SSD1306_SetPos st x y @ write_bytes st SSD1306_DATA (take 8 g) @
          SSD1306_SetPos st x (y + 1) @ write_bytes st SSD1306_DATA (drop 8 g)
        else SSD1306_SetPos st x (y + 1) @ write_bytes st SSD1306_DATA g)
      (glyph chr font))"

text \<open>The index \<open>j\<close> is an \<open>unsigned char\<close>.\<close>

partial_function (option) show_loop :: "ssd_state \<Rightarrow> cstr \<Rightarrow> u8 \<Rightarrow> u8 \<Rightarrow> u8 \<Rightarrow> u8 \<Rightarrow> effect list option" where
  "show_loop st chr j x y font =
     (if unat j < length chr then
        Option.bind (SSD1306_ShowChar st x y (byte (chr ! unat j)) font) (\<lambda>out.
        let x' = x + 8; (x2, y2) = (if x' > 120 then (0, y + 2) else (x', y)) in
        Option.bind (show_loop st chr (j + 1) x2 y2 font) (\<lambda>rest. Some (out @ rest)))
      else Some [])"

definition SSD1306_ShowString :: "ssd_state \<Rightarrow> u8 \<Rightarrow> u8 \<Rightarrow> cstr \<Rightarrow> u8 \<Rightarrow> effect list option" where
  "SSD1306_ShowString st x y chr font = show_loop st chr 0 x y font"

section \<open>Pictures\<close>

text \<open>Both loops count in an \<open>unsigned char\<close>; the picture is what is left of it.\<close>

fun bmp_row :: "ssd_state \<Rightarrow> u8 \<Rightarrow> u8 \<Rightarrow> u8 list \<Rightarrow> (u8 list \<times> effect list) option" where
  "bmp_row st x x1 bmp =
     (if x \<le> x1 then
        (case bmp of
           [] \<Rightarrow> None
         | b # bs \<Rightarrow> map_option (\<lambda>(rest, out). (rest, SSD1306_WriteByte st b SSD1306_DATA @ out)) (bmp_row st (x + 1) x1 bs))
      else Some (bmp, []))"

partial_function (option) bmp_rows :: "ssd_state \<Rightarrow> u8 \<Rightarrow> u8 \<Rightarrow> u8 \<Rightarrow> u8 \<Rightarrow> u8 list \<Rightarrow> effect list option" where
  "bmp_rows st x0 x1 y y1 bmp =
     (if y \<le> y1 then
        Option.bind (bmp_row st x0 x1 bmp) (\<lambda>(rest, out).
        Option.bind (bmp_rows st x0 x1 (y + 1) y1 rest) (\<lambda>out2. Some (SSD1306_SetPos st x0 y @ out @ out2)))
      else Some [])"

definition SSD1306_DrawBMP :: "ssd_state \<Rightarrow> u8 \<Rightarrow> u8 \<Rightarrow> u8 \<Rightarrow> u8 \<Rightarrow> u8 list \<Rightarrow> effect list option" where
  "SSD1306_DrawBMP st x0 x1 y0 y1 bmp = bmp_rows st x0 x1 y0 y1 bmp"

text \<open>The whole screen: page \<open>i\<close> is the next \<open>ssd1306_width\<close> bytes of the data.\<close>

definition SSD1306_Show :: "ssd_state \<Rightarrow> u8 list \<Rightarrow> effect list option" where
  "SSD1306_Show st data =
     (let w = unat (ssd1306_width st); h = unat (ssd1306_height st) div 8 in
      if h * w \<le> length data then
        Some (concat (map (\<lambda>i. SSD1306_SetPos st 0 (word_of_nat i) @ [SSD1306_DC_DATA st] @
          concat (map (\<lambda>j. SPI_WriteReadByte (ssd1306_spi st) (data ! (i * w + j))) [0..<w])) [0..<h]) @ [SSD1306_DC_CMD st])
      else None)"

section \<open>Start-up\<close>

fun power_index :: "Power_Type_t \<Rightarrow> int" where
  "power_index POWER_TYPE_VPAD = 0"
| "power_index POWER_TYPE_MMC = 1"
| "power_index POWER_TYPE_LCD = 2"
| "power_index POWER_TYPE_CAM = 3"
| "power_index POWER_TYPE_MAX = 4"

definition power_effects :: "nat \<Rightarrow> effect list" where
  "power_effects pin = map (\<lambda>(t, on). Sdk ''PM_PowerEnable'' [power_index t, if on then 1 else 0]) (GPIO_EnablePower pin True)"

definition init_commands :: "u8 list" where
  "init_commands = [0xAE, 0x00, 0x10, 0x40, 0x81, 0xCF, 0xA1, 0xC8, 0xA6, 0xA8, 0x3f, 0xD3, 0x00, 0xd5, 0x80,
     0xD9, 0xF1, 0xDA, 0x12, 0xDB, 0x40, 0x20, 0x02, 0x8D, 0x14, 0xA4, 0xA6, 0xAF]"

text \<open>\<open>spiConfig\<close> is only known to be given or NULL.\<close>

definition SSD1306_Init :: "u16 \<Rightarrow> u16 \<Rightarrow> nat \<Rightarrow> bool \<Rightarrow> nat \<Rightarrow> nat \<Rightarrow> ssd_state \<Rightarrow> bool \<times> ssd_state \<times> effect list" where
  "SSD1306_Init width height spiN spiConfig rst dc st0 =
     (if SPI_MAX = spiN \<or> \<not> spiConfig \<or> width = 0 \<or> height = 0 then (False, st0, [])
      else
        let st = \<lparr>ssd1306_width = width, ssd1306_height = height, ssd1306_spi = spiN, ssd1306_rst = rst, ssd1306_dc = dc\<rparr> in
        (True, st,
         power_effects rst @ power_effects dc @
         [Sdk ''GPIO_Init'' [int rst], Sdk ''GPIO_Init'' [int dc], Sdk ''SPI_Init'' [int spiN],
          SSD1306_SET_RST st False, Sdk ''OS_Sleep'' [100], SSD1306_SET_RST st True, Sdk ''OS_Sleep'' [200],
          SSD1306_SET_RST st False] @
         write_bytes st SSD1306_CMD init_commands @
         SSD1306_Clear st @ SSD1306_SetPos st 0 0))"

section \<open>What the panel receives\<close>

text \<open>The bytes on the bus with the level of the command/data pin when each is sent.\<close>

fun bus :: "ssd_state \<Rightarrow> bool \<Rightarrow> effect list \<Rightarrow> (bool \<times> u8) list" where
  "bus st lv [] = []"
| "bus st lv (GpioSet p l # es) = bus st (if p = ssd1306_dc st then l = GPIO_LEVEL_HIGH else lv) es"
| "bus st lv (Sdk f args # es) =
     (if f = ''SPI_Write'' then (lv, word_of_int (args ! 1)) # bus st lv es else bus st lv es)"
| "bus st lv (e # es) = bus st lv es"

lemma bus_spi [simp]: "bus st lv (SPI_WriteReadByte s b @ es) = (lv, b) # bus st lv es"
  by (simp add: SPI_WriteReadByte_def)

lemma bus_dc [simp]:
  "bus st lv (SSD1306_DC_CMD st # es) = bus st False es" "bus st lv (SSD1306_DC_DATA st # es) = bus st True es"
  by (simp_all add: SSD1306_DC_CMD_def SSD1306_DC_DATA_def)

lemma bus_byte [simp]: "bus st lv (SSD1306_WriteByte st b c @ es) = (c \<noteq> SSD1306_CMD, b) # bus st False es"
  by (simp add: SSD1306_WriteByte_def)

lemma bus_bytes [simp]:
  "bus st False (write_bytes st c bs @ es) = map (\<lambda>b. (c \<noteq> SSD1306_CMD, b)) bs @ bus st False es"
  by (induction bs) (simp_all add: write_bytes_def)

lemma bus_bytes_last [simp]: "bus st False (write_bytes st c bs) = map (\<lambda>b. (c \<noteq> SSD1306_CMD, b)) bs"
  using bus_bytes [of st c bs "[]"] by simp

definition pos_bytes :: "u8 \<Rightarrow> u8 \<Rightarrow> (bool \<times> u8) list" where
  "pos_bytes x y = [(False, 0xb0 + y), (False, drop_bit 4 (x AND 0xf0) OR 0x10), (False, (x AND 0x0f) OR 0x01)]"

lemma bus_pos [simp]: "bus st lv (SSD1306_SetPos st x y @ es) = pos_bytes x y @ bus st False es"
  by (simp add: SSD1306_SetPos_def pos_bytes_def)

lemma bus_spis:
  "bus st lv (concat (map (\<lambda>j. SPI_WriteReadByte s (f j)) js) @ es) = map (\<lambda>j. (lv, f j)) js @ bus st lv es"
  by (induction js) simp_all

text \<open>
  The panel's memory of eight pages of 128 columns, as its data sheet describes the page
  addressing mode that \<open>SSD1306_Init\<close> selects: commands \<open>B0\<close> to \<open>B7\<close> set the page, \<open>00\<close> to \<open>0F\<close> and
  \<open>10\<close> to \<open>17\<close> the low and high half of the column, a data byte goes to the cursor and moves it one
  column, from the last one back to the first of the same page. A command with a parameter takes
  the next byte.
\<close>

record panel =
  p_ram :: "nat \<Rightarrow> nat \<Rightarrow> u8"
  p_page :: nat
  p_col :: nat
  p_param :: bool

definition param_command :: "u8 \<Rightarrow> bool" where
  "param_command b \<longleftrightarrow> b \<in> set [0x20, 0x81, 0x8D, 0xA8, 0xD3, 0xD5, 0xD9, 0xDA, 0xDB]"

definition panel_byte :: "bool \<times> u8 \<Rightarrow> panel \<Rightarrow> panel" where
  "panel_byte b p =
     (let d = snd b; n = unat d in
      if fst b then p\<lparr>p_ram := (p_ram p)(p_page p := (p_ram p (p_page p))(p_col p := d)), p_col := (p_col p + 1) mod 128\<rparr>
      else if p_param p then p\<lparr>p_param := False\<rparr>
      else if param_command d then p\<lparr>p_param := True\<rparr>
      else if 0xB0 \<le> n \<and> n \<le> 0xB7 then p\<lparr>p_page := n - 0xB0\<rparr>
      else if n < 0x10 then p\<lparr>p_col := p_col p div 16 * 16 + n\<rparr>
      else if n < 0x18 then p\<lparr>p_col := (n - 0x10) * 16 + p_col p mod 16\<rparr>
      else p)"

definition panel_run :: "(bool \<times> u8) list \<Rightarrow> panel \<Rightarrow> panel" where
  "panel_run bs p = fold panel_byte bs p"

lemma panel_run_simps [simp]:
  "panel_run [] p = p" "panel_run (b # bs) p = panel_run bs (panel_byte b p)"
  "panel_run (xs @ ys) p = panel_run ys (panel_run xs p)"
  by (simp_all add: panel_run_def)

text \<open>Data bytes fill the page from the cursor on.\<close>

lemma panel_data_frame:
  assumes "p_col p < 128"
  shows "p_page (panel_run (map (Pair True) bs) p) = p_page p \<and> p_param (panel_run (map (Pair True) bs) p) = p_param p \<and>
    p_col (panel_run (map (Pair True) bs) p) = (p_col p + length bs) mod 128 \<and>
    (\<forall>r. r = p_page p \<or> p_ram (panel_run (map (Pair True) bs) p) r = p_ram p r)"
  using assms by (induction bs rule: rev_induct) (auto simp: panel_byte_def Let_def mod_Suc_eq)

lemma column_distinct: "j < n \<Longrightarrow> n < 128 \<Longrightarrow> (c + j) mod 128 \<noteq> (c + n) mod (128 :: nat)"
  using mod_eq_dvd_iff_nat [of "c + j" "c + n" 128] by (auto dest: dvd_imp_le)

lemma panel_data:
  assumes "p_col p < 128" "length bs \<le> 128" "j < length bs"
  shows "p_ram (panel_run (map (Pair True) bs) p) (p_page p) ((p_col p + j) mod 128) = bs ! j"
  using assms(2,3)
proof (induction bs rule: rev_induct)
  case (snoc b bs)
  let ?q = "panel_run (map (Pair True) bs) p"
  have q: "p_page ?q = p_page p" "p_col ?q = (p_col p + length bs) mod 128" using panel_data_frame [OF assms(1)] by blast+
  have s: "panel_run (map (Pair True) (bs @ [b])) p = panel_byte (True, b) ?q" by simp
  show ?case
  proof (cases "j = length bs")
    case True
    then show ?thesis unfolding s by (simp add: panel_byte_def q Let_def)
  next
    case False
    then have "j < length bs" using snoc.prems by simp
    then show ?thesis unfolding s using snoc column_distinct [of j "length bs" "p_col p"]
      by (simp add: panel_byte_def q Let_def nth_append)
  qed
qed simp

lemma param_command_range: "param_command d \<Longrightarrow> 32 \<le> unat d"
  by (auto simp: param_command_def)

lemma column_bytes: "\<forall>n \<in> set [0..<128].
    unat (drop_bit 4 ((word_of_nat n :: u8) AND 0xf0) OR 0x10) = 16 + n div 16 \<and>
    unat ((word_of_nat n :: u8) AND 0x0f OR 0x01) = (if even n then n mod 16 + 1 else n mod 16)"
  by code_simp

lemma page_bytes: "\<forall>n \<in> set [0..<8]. unat (0xb0 + word_of_nat n :: u8) = 0xb0 + n \<and> \<not> param_command (0xb0 + word_of_nat n)"
  by code_simp

text \<open>The cursor after \<open>SSD1306_SetPos\<close>: the page asked for, and the column with its lowest bit set.\<close>

lemma panel_pos:
  assumes "unat x < 128" "unat y < 8" "\<not> p_param p"
  shows "panel_run (pos_bytes x y) p = p\<lparr>p_page := unat y, p_col := (if even (unat x) then unat x + 1 else unat x)\<rparr>"
proof -
  have y: "unat (0xb0 + y) = 0xb0 + unat y" "\<not> param_command (0xb0 + y)"
    using page_bytes [rule_format, of "unat y"] assms(2) by simp_all
  let ?h = "drop_bit 4 (x AND 0xf0) OR 0x10" and ?l = "(x AND 0x0f) OR 0x01"
  have h: "unat ?h = 16 + unat x div 16" and l: "unat ?l = (if even (unat x) then unat x mod 16 + 1 else unat x mod 16)"
    using column_bytes [rule_format, of "unat x"] assms(1) by simp_all
  have l16: "unat ?l < 16"
  proof (cases "even (unat x)")
    case True
    then have "even (unat x mod 16)" by presburger
    then have "unat x mod 16 \<noteq> 15" by (metis odd_numeral)
    moreover have "unat x mod 16 < 16" by simp
    moreover have "unat ?l = unat x mod 16 + 1" by (simp only: l True if_True)
    ultimately show ?thesis by linarith
  qed (simp add: l)
  have h24: "unat ?h < 24" using h assms(1) by linarith
  have c: "\<not> param_command ?h" "\<not> param_command ?l"
    using param_command_range [of ?h] param_command_range [of ?l] h24 l16 by linarith+
  have s1: "panel_byte (False, 0xb0 + y) p = p\<lparr>p_page := unat y\<rparr>"
    unfolding panel_byte_def using y assms(2,3) by simp
  have s2: "panel_byte (False, ?h) (p\<lparr>p_page := unat y\<rparr>) = p\<lparr>p_page := unat y, p_col := unat x div 16 * 16 + p_col p mod 16\<rparr>"
    unfolding panel_byte_def using h h24 c(1) assms(3) by simp
  have s3: "panel_byte (False, ?l) (p\<lparr>p_page := unat y, p_col := unat x div 16 * 16 + p_col p mod 16\<rparr>) =
      p\<lparr>p_page := unat y, p_col := unat x div 16 * 16 + unat ?l\<rparr>"
    unfolding panel_byte_def using l16 c(2) assms(3) by simp
  have "unat x div 16 * 16 + unat ?l = (if even (unat x) then unat x + 1 else unat x)"
    using div_mult_mod_eq [of "unat x" 16] by (simp only: l) (simp split: if_splits)
  then show ?thesis by (simp only: pos_bytes_def panel_run_simps s1 s2 s3)
qed

section \<open>The picture on the panel\<close>

text \<open>A page that is positioned at column 0 and written in full: its bytes start at column 1, and the
  last one comes back to column 0.\<close>

definition page_out :: "nat \<Rightarrow> u8 list \<Rightarrow> (bool \<times> u8) list" where
  "page_out i bs = pos_bytes 0 (word_of_nat i) @ map (Pair True) bs"

lemma panel_page:
  assumes "i < 8" "\<not> p_param p" "length bs = 128" "q = panel_run (page_out i bs) p"
  shows "\<not> p_param q" "c < 128 \<Longrightarrow> p_ram q i ((c + 1) mod 128) = bs ! c" "r \<noteq> i \<Longrightarrow> p_ram q r = p_ram p r"
proof -
  let ?p = "p\<lparr>p_page := i, p_col := 1\<rparr>"
  have n: "unat (word_of_nat i :: u8) = i" using assms(1) by (simp add: unat_of_nat)
  have e: "q = panel_run (map (Pair True) bs) ?p"
    using panel_pos [of 0 "word_of_nat i" p] assms(1,2) n by (simp add: page_out_def assms(4))
  have c: "p_col ?p < 128" by simp
  note F = panel_data_frame [OF c, of bs]
  show "\<not> p_param q" using F assms(2) by (simp add: e)
  show "r \<noteq> i \<Longrightarrow> p_ram q r = p_ram p r" using F by (auto simp: e)
  show "c < 128 \<Longrightarrow> p_ram q i ((c + 1) mod 128) = bs ! c"
    using panel_data [OF c, of bs c] assms(3) by (simp add: e add.commute)
qed

lemma panel_pages:
  assumes "n \<le> 8" "\<not> p_param p" "\<And>i. i < n \<Longrightarrow> length (f i) = 128"
  shows "\<not> p_param (panel_run (concat (map (\<lambda>i. page_out i (f i)) [0..<n])) p) \<and>
    (\<forall>r < n. \<forall>c < 128. p_ram (panel_run (concat (map (\<lambda>i. page_out i (f i)) [0..<n])) p) r ((c + 1) mod 128) = f r ! c)"
  using assms
proof (induction n)
  case (Suc n)
  let ?q = "panel_run (concat (map (\<lambda>i. page_out i (f i)) [0..<n])) p"
  have q: "\<not> p_param ?q" "\<forall>r < n. \<forall>c < 128. p_ram ?q r ((c + 1) mod 128) = f r ! c" using Suc by auto
  define q2 where "q2 = panel_run (page_out n (f n)) ?q"
  have e: "panel_run (concat (map (\<lambda>i. page_out i (f i)) [0..<Suc n])) p = q2" by (simp add: q2_def)
  have n: "n < 8" "length (f n) = 128" using Suc.prems by simp_all
  note P = panel_page [OF n(1) q(1) n(2) q2_def]
  have "p_ram q2 r ((c + 1) mod 128) = f r ! c" if "r < Suc n" "c < 128" for r c
    using P(2) [OF that(2)] P(3) [of r] q(2) that by (cases "r = n") auto
  then show ?case unfolding e using P(1) by blast
qed simp

lemma bus_pages: "bus st lv (concat (map (\<lambda>i. SSD1306_SetPos st 0 (word_of_nat i) @ SSD1306_DC_DATA st #
      concat (map (\<lambda>j. SPI_WriteReadByte s (g i j)) [0..<w])) is) @ [SSD1306_DC_CMD st]) =
    concat (map (\<lambda>i. page_out i (map (g i) [0..<w])) is)"
proof (induction "is" arbitrary: lv)
  case (Cons i "is")
  have "bus st True (concat (map (\<lambda>j. SPI_WriteReadByte s (g i j)) [0..<w]) @ es) =
      map (Pair True) (map (g i) [0..<w]) @ bus st True es" for es
    by (simp add: bus_spis comp_def)
  then show ?case using Cons by (simp add: page_out_def)
qed simp

text \<open>C40. \<open>SSD1306_Show\<close> on a panel of 128 by 64 shows the whole picture, turned by one column. It
  returns exactly when the data holds the screen, and then every byte of it reaches the panel: the
  byte of page \<open>r\<close> and column \<open>c\<close> is stored in page \<open>r\<close>, but in column \<open>c + 1\<close>, and the last column
  of the picture in column 0, because \<open>SSD1306_SetPos\<close> sets the lowest bit of every column.\<close>

theorem SSD1306_Show_turned:
  assumes "ssd1306_width st = 128" "ssd1306_height st = 64" "\<not> p_param p"
  shows "if length data < 1024 then SSD1306_Show st data = None
     else \<exists>out. SSD1306_Show st data = Some out \<and>
       (\<forall>r < 8. \<forall>c < 128. p_ram (panel_run (bus st lv out) p) r ((c + 1) mod 128) = data ! (r * 128 + c))"
proof (cases "length data < 1024")
  case True
  then show ?thesis using assms by (simp add: SSD1306_Show_def)
next
  case False
  define f where "f i = map (\<lambda>j. data ! (i * 128 + j)) [0..<128]" for i
  have "\<exists>out. SSD1306_Show st data = Some out \<and> bus st lv out = concat (map (\<lambda>i. page_out i (f i)) [0..<8])"
    using False assms(1,2) bus_pages [of st lv _ "\<lambda>i j. data ! (i * 128 + j)" 128 "[0..<8]"]
    by (simp add: SSD1306_Show_def f_def)
  then show ?thesis using panel_pages [of 8 p f] assms(3) False by (auto simp: f_def)
qed

theorem SSD1306_Show_turned_witness:
  "\<exists>out. SSD1306_Show \<lparr>ssd1306_width = 128, ssd1306_height = 64, ssd1306_spi = 1, ssd1306_rst = 3, ssd1306_dc = 4\<rparr>
       (replicate 127 0 @ 0xFF # replicate 896 0) = Some out \<and>
     p_ram (panel_run (bus \<lparr>ssd1306_width = 128, ssd1306_height = 64, ssd1306_spi = 1, ssd1306_rst = 3, ssd1306_dc = 4\<rparr> False out)
       \<lparr>p_ram = \<lambda>_ _. 0, p_page = 0, p_col = 0, p_param = False\<rparr>) 0 0 = 0xFF"
proof -
  let ?st = "\<lparr>ssd1306_width = 128, ssd1306_height = 64, ssd1306_spi = 1, ssd1306_rst = 3, ssd1306_dc = 4\<rparr>"
  let ?d = "replicate 127 0 @ 0xFF # replicate 896 0 :: u8 list"
  obtain out where o: "SSD1306_Show ?st ?d = Some out"
    "\<forall>r < 8. \<forall>c < 128. p_ram (panel_run (bus ?st False out) \<lparr>p_ram = \<lambda>_ _. 0, p_page = 0, p_col = 0, p_param = False\<rparr>) r
       ((c + 1) mod 128) = ?d ! (r * 128 + c)"
    using SSD1306_Show_turned [of ?st "\<lparr>p_ram = \<lambda>_ _. 0, p_page = 0, p_col = 0, p_param = False\<rparr>" ?d False] by auto
  then show ?thesis using o(2) [rule_format, of 0 127] by (simp add: nth_append)
qed

text \<open>After \<open>SSD1306_Clear\<close> the memory is blank.\<close>

lemma panel_clear_page:
  assumes "i < 8" "\<not> p_param p"
    "q = panel_run ([(False, 0xb0 + word_of_nat i), (False, 0x00), (False, 0x10)] @ map (Pair True) (replicate 128 0)) p"
  shows "\<not> p_param q" "c < 128 \<Longrightarrow> p_ram q i c = 0" "r \<noteq> i \<Longrightarrow> p_ram q r = p_ram p r"
proof -
  let ?p = "p\<lparr>p_page := i, p_col := 0\<rparr>"
  have y: "unat (0xb0 + word_of_nat i :: u8) = 0xb0 + i" "\<not> param_command (0xb0 + word_of_nat i)"
    using page_bytes [rule_format, of i] assms(1) by simp_all
  have c0: "\<not> param_command 0" "\<not> param_command 0x10" by (simp_all add: param_command_def)
  have "panel_byte (False, 0xb0 + word_of_nat i) p = p\<lparr>p_page := i\<rparr>"
    unfolding panel_byte_def using y assms(1,2) by simp
  moreover have "panel_byte (False, 0) (p\<lparr>p_page := i\<rparr>) = p\<lparr>p_page := i, p_col := p_col p div 16 * 16\<rparr>"
    unfolding panel_byte_def using c0 assms(2) by simp
  moreover have "panel_byte (False, 0x10) (p\<lparr>p_page := i, p_col := p_col p div 16 * 16\<rparr>) = ?p"
    unfolding panel_byte_def using c0 assms(2) by simp
  ultimately have e: "q = panel_run (map (Pair True) (replicate 128 0)) ?p"
    by (simp only: assms(3) panel_run_simps)
  have c: "p_col ?p < 128" by simp
  note F = panel_data_frame [OF c, of "replicate 128 0"]
  show "\<not> p_param q" using F assms(2) by (simp add: e)
  show "r \<noteq> i \<Longrightarrow> p_ram q r = p_ram p r" using F by (auto simp: e)
  show "c < 128 \<Longrightarrow> p_ram q i c = 0" using panel_data [OF c, of "replicate 128 0" c] by (simp add: e)
qed

lemma SSD1306_Clear_blank:
  assumes "\<not> p_param p" "r < 8" "c < 128"
  shows "p_ram (panel_run (bus st lv (SSD1306_Clear st)) p) r c = 0"
proof -
  let ?pg = "\<lambda>i. [(False, 0xb0 + word_of_nat i :: u8), (False, 0x00), (False, 0x10)] @ map (Pair True) (replicate 128 0)"
  have b: "bus st lv (concat (map (\<lambda>i. SSD1306_WriteByte st (0xb0 + i) SSD1306_CMD @ SSD1306_WriteByte st 0x00 SSD1306_CMD @
      SSD1306_WriteByte st 0x10 SSD1306_CMD @ write_bytes st SSD1306_DATA (replicate 128 0)) (map word_of_nat is))) =
    concat (map ?pg is)" for "is" lv
    by (induction "is" arbitrary: lv) (simp_all del: map_replicate replicate.simps)
  have "\<not> p_param (panel_run (concat (map ?pg [0..<n])) p) \<and>
      (\<forall>r < n. \<forall>c < 128. p_ram (panel_run (concat (map ?pg [0..<n])) p) r c = 0)" if "n \<le> 8" for n
    using that
  proof (induction n)
    case (Suc n)
    let ?q = "panel_run (concat (map ?pg [0..<n])) p"
    have q: "\<not> p_param ?q" "\<forall>r < n. \<forall>c < 128. p_ram ?q r c = 0" using Suc by auto
    define q2 where "q2 = panel_run (?pg n) ?q"
    have e: "panel_run (concat (map ?pg [0..<Suc n])) p = q2" by (simp add: q2_def)
    have n: "n < 8" using Suc.prems by simp
    note P = panel_clear_page [OF n q(1) q2_def]
    have "p_ram q2 r c = 0" if "r < Suc n" "c < 128" for r c
      using P(2) [OF that(2)] P(3) [of r] q(2) that by (cases "r = n") auto
    then show ?case unfolding e using P(1) by blast
  qed (use assms in simp)
  then show ?thesis using assms(2,3) unfolding SSD1306_Clear_def b by blast
qed

section \<open>When drawing returns\<close>

lemma font_sizes: "length F6x8 = 92" "length F8X16 = 1520"
  by (simp_all add: F6x8_def F8X16_def F8X16_rows_def)

text \<open>The characters of the two fonts.\<close>

definition in_font :: "u8 \<Rightarrow> char \<Rightarrow> bool" where
  "in_font font c \<longleftrightarrow> 32 \<le> code c \<and> code c \<le> (if font = 16 then 126 else 123)"

lemma char_offset: "\<forall>n \<in> set [0..<256]. unat (word_of_nat n - 0x20 :: u8) = (if 32 \<le> n then n - 32 else n + 224)"
  by code_simp

lemma glyph_None: "glyph (byte c) font = None \<longleftrightarrow> \<not> in_font font c"
proof -
  have "byte c = word_of_nat (code c)" by (simp add: of_nat_of_char)
  moreover note code_less_256 [of c]
  ultimately have "unat (byte c - 0x20) = (if 32 \<le> code c then code c - 32 else code c + 224)"
    using char_offset [rule_format, of "code c"] by simp
  then show ?thesis by (auto simp: glyph_def font_sizes in_font_def Let_def)
qed

lemma ShowChar_None: "SSD1306_ShowChar st x y (byte c) font = None \<longleftrightarrow> \<not> in_font font c"
  by (simp add: SSD1306_ShowChar_def glyph_None split: prod.split)

text \<open>A string of 256 characters or more brings the index back to its start.\<close>

lemma show_loop_short:
  assumes "show_loop st chr j x y font = Some out"
  shows "length chr \<le> 255"
proof (rule show_loop.raw_induct [where P = "\<lambda>_ chr _ _ _ _ _. length chr \<le> 255"
      and xa = "(((((st, chr), j), x), y), font)", simplified prod.case, OF _ assms], goal_cases)
  case (1 loop st chr j x y font out)
  show ?case
  proof (cases "unat j < length chr")
    case True
    then show ?thesis using 1(2) by (auto simp: bind_eq_Some_conv Let_def dest!: 1(1) split: if_splits prod.splits)
  next
    case False
    then show ?thesis using u8_le [of j] by simp
  qed
qed

lemma show_loop_None:
  assumes "length chr \<le> 255" "unat j \<le> length chr"
  shows "show_loop st chr j x y font = None \<longleftrightarrow> \<not> list_all (in_font font) (drop (unat j) chr)"
  using assms(2)
proof (induction "length chr - unat j" arbitrary: j x y)
  case 0
  then show ?case by (simp add: show_loop.simps [of st chr j])
next
  case (Suc n)
  have l: "unat j < length chr" using Suc.hyps(2) by linarith
  then have "unat j < 255" using assms(1) by linarith
  then have j: "unat (j + 1) = unat j + 1" using unat_inc_u8 [of j 255] by simp
  have IH: "show_loop st chr (j + 1) x' y' font = None \<longleftrightarrow> \<not> list_all (in_font font) (drop (Suc (unat j)) chr)" for x' y'
    using Suc.hyps(1) [of "j + 1" x' y'] Suc.hyps(2) j l by simp
  have d: "drop (unat j) chr = chr ! unat j # drop (Suc (unat j)) chr" using l by (simp add: Cons_nth_drop_Suc)
  show ?case unfolding d
    using l IH by (cases "in_font font (chr ! unat j)")
      (auto simp: show_loop.simps [of st chr j] ShowChar_None bind_eq_None_conv Let_def not_None_eq split: prod.splits)
qed

lemma ShowString_None:
  "SSD1306_ShowString st x y chr font = None \<longleftrightarrow> 255 < length chr \<or> \<not> list_all (in_font font) chr"
proof (cases "length chr \<le> 255")
  case True
  then show ?thesis using show_loop_None [OF True, of 0 st x y font] by (simp add: SSD1306_ShowString_def)
next
  case False
  then show ?thesis using show_loop_short [of st chr 0 x y font] by (cases "show_loop st chr 0 x y font") (auto simp: SSD1306_ShowString_def)
qed

text \<open>A row of a picture.\<close>

definition span :: "u8 \<Rightarrow> u8 \<Rightarrow> nat" where
  "span a b = (if a \<le> b then unat b - unat a + 1 else 0)"

lemma span_step: "a \<le> b \<Longrightarrow> b \<noteq> 255 \<Longrightarrow> span (a + 1) b + 1 = span a b"
proof -
  assume ab: "a \<le> b" "b \<noteq> 255"
  then have "unat a \<le> unat b" "unat b \<noteq> 255" by (auto simp: word_le_nat_alt word_unat_eq_iff)
  then have "unat (a + 1) = unat a + 1" using u8_le [of b] unat_inc_u8 [of a 255] by simp
  then show ?thesis using ab by (auto simp: span_def word_le_nat_alt)
qed

lemma top_u8: "(x :: u8) \<le> 255"
  using u8_le [of x] by (simp add: word_le_nat_alt)

declare bmp_row.simps [simp del]

lemma bmp_row_simps [simp]:
  "bmp_row st x x1 [] = (if x \<le> x1 then None else Some ([], []))"
  "bmp_row st x x1 (b # bs) = (if x \<le> x1
     then map_option (\<lambda>(rest, out). (rest, SSD1306_WriteByte st b SSD1306_DATA @ out)) (bmp_row st (x + 1) x1 bs)
     else Some (b # bs, []))"
  by (simp_all add: bmp_row.simps)

lemma bmp_row_endless: "bmp_row st x 255 bmp = None"
  by (induction bmp arbitrary: x) (simp_all add: top_u8)

lemma bmp_row_spec:
  "x1 \<noteq> 255 \<Longrightarrow> bmp_row st x x1 bmp =
     (if span x x1 \<le> length bmp then Some (drop (span x x1) bmp, write_bytes st SSD1306_DATA (take (span x x1) bmp)) else None)"
proof (induction bmp arbitrary: x)
  case (Cons b bs)
  show ?case
  proof (cases "x \<le> x1")
    case True
    then have s: "span x x1 = Suc (span (x + 1) x1)" using span_step [OF True Cons.prems] by simp
    show ?thesis using True by (simp add: Cons.IH [OF Cons.prems] s write_bytes_def)
  qed (simp add: span_def write_bytes_def)
qed (auto simp: span_def write_bytes_def)

lemma bmp_rows_endless:
  assumes "bmp_rows st x0 x1 y y1 bmp = Some out"
  shows "y1 \<noteq> 255"
proof (rule bmp_rows.raw_induct [where P = "\<lambda>_ _ _ _ y1 _ _. y1 \<noteq> 255", OF _ assms], goal_cases)
  case (1 rows st x0 x1 y y1 bmp out)
  show ?case
  proof (cases "y \<le> y1")
    case True
    then show ?thesis using 1(2) by (auto simp: bind_eq_Some_conv dest: 1(1))
  qed (use top_u8 [of y] in auto)
qed

text \<open>The bytes of a picture of \<open>n\<close> columns, page by page from \<open>y\<close> on.\<close>

definition bmp_bytes :: "u8 \<Rightarrow> nat \<Rightarrow> u8 \<Rightarrow> nat \<Rightarrow> u8 list \<Rightarrow> (bool \<times> u8) list" where
  "bmp_bytes x0 n y m bmp =
     concat (map (\<lambda>k. pos_bytes x0 (y + word_of_nat k) @ map (Pair True) (take n (drop (k * n) bmp))) [0..<m])"

lemma bmp_bytes_Suc: "bmp_bytes x0 n y (Suc m) bmp =
    pos_bytes x0 y @ map (Pair True) (take n bmp) @ bmp_bytes x0 n (y + 1) m (drop n bmp)"
  by (simp add: bmp_bytes_def upt_conv_Cons map_Suc_upt [symmetric] comp_def add_ac del: upt_Suc)

lemma bmp_rows_spec:
  assumes "x1 \<noteq> 255" "y1 \<noteq> 255"
  shows "if span y y1 * span x0 x1 \<le> length bmp
    then \<exists>out. bmp_rows st x0 x1 y y1 bmp = Some out \<and> (\<forall>lv es. bus st lv (out @ es) = bmp_bytes x0 (span x0 x1) y (span y y1) bmp @ bus st (if y \<le> y1 then False else lv) es)
    else bmp_rows st x0 x1 y y1 bmp = None"
proof (induction "span y y1" arbitrary: y bmp)
  case 0
  then have "\<not> y \<le> y1" by (auto simp: span_def split: if_splits)
  then show ?case by (simp add: bmp_rows.simps [of st x0 x1 y] bmp_bytes_def span_def)
next
  case (Suc m)
  then have y: "y \<le> y1" by (auto simp: span_def split: if_splits)
  have s: "span y y1 = Suc m" "span (y + 1) y1 = m" using Suc.hyps(2) span_step [OF y assms(2)] by simp_all
  let ?n = "span x0 x1"
  note IH = Suc.hyps(1) [of "y + 1" "drop ?n bmp", unfolded s, OF refl]
  show ?case
  proof (cases "?n \<le> length bmp")
    case True
    have "m * ?n \<le> length (drop ?n bmp) \<longleftrightarrow> Suc m * ?n \<le> length bmp" using True by auto
    then show ?thesis using IH y True
      by (auto simp: bmp_rows.simps [of st x0 x1 y] bmp_row_spec [OF assms(1)] s bmp_bytes_Suc)
  next
    case False
    then have "\<not> Suc m * ?n \<le> length bmp" by simp
    then show ?thesis unfolding s using y False by (simp add: bmp_rows.simps [of st x0 x1 y] bmp_row_spec [OF assms(1)])
  qed
qed

text \<open>C39. When drawing returns, and that it does not always. Text returns exactly when it has at most
  255 characters, its index being an \<open>unsigned char\<close>, and all of them are in the chosen font; the
  small font ends before \<open>|\<close>, \<open>}\<close> and \<open>~\<close>, and the others are read past its end. A picture returns
  exactly when it is empty or its last column and its last page are not 255, which the counters of
  its loops never exceed, and its data is long enough. Then the panel receives, for each page in
  order, the cursor and the next row of the data.\<close>

theorem SSD1306_draw_returns:
  "(SSD1306_ShowString st x y chr font \<noteq> None \<longleftrightarrow> length chr \<le> 255 \<and> list_all (in_font font) chr) \<and>
   map_option (bus st False) (SSD1306_DrawBMP st x0 x1 y0 y1 bmp) =
     (if y0 \<le> y1 \<and> (y1 = 255 \<or> x1 = 255 \<or> length bmp < span y0 y1 * span x0 x1) then None
      else Some (bmp_bytes x0 (span x0 x1) y0 (span y0 y1) bmp))"
proof -
  have "map_option (bus st False) (bmp_rows st x0 x1 y0 y1 bmp) =
     (if y0 \<le> y1 \<and> (y1 = 255 \<or> x1 = 255 \<or> length bmp < span y0 y1 * span x0 x1) then None
      else Some (bmp_bytes x0 (span x0 x1) y0 (span y0 y1) bmp))"
  proof (cases "y0 \<le> y1")
    case y: True
    show ?thesis
    proof (cases "x1 = 255 \<or> y1 = 255")
      case wide: True
      have "bmp_rows st x0 x1 y0 y1 bmp = None"
      proof (cases "y1 = 255")
        case True
        then show ?thesis using bmp_rows_endless [of st x0 x1 y0 y1 bmp] by (cases "bmp_rows st x0 x1 y0 y1 bmp") auto
      next
        case False
        then have "bmp_row st x0 x1 bmp = None" using wide bmp_row_endless by simp
        then show ?thesis using y by (simp add: bmp_rows.simps [of st x0 x1 y0])
      qed
      then show ?thesis using y wide by auto
    next
      case False
      show ?thesis
      proof (cases "span y0 y1 * span x0 x1 \<le> length bmp")
        case True
        then obtain out where o: "bmp_rows st x0 x1 y0 y1 bmp = Some out"
          "\<forall>lv es. bus st lv (out @ es) = bmp_bytes x0 (span x0 x1) y0 (span y0 y1) bmp @ bus st (if y0 \<le> y1 then False else lv) es"
          using bmp_rows_spec [of x1 y1 y0 x0 bmp st] False by auto
        have "bus st False out = bmp_bytes x0 (span x0 x1) y0 (span y0 y1) bmp" using o(2) [rule_format, of False "[]"] by simp
        then show ?thesis using o(1) True False by auto
      next
        case short: False
        then show ?thesis using bmp_rows_spec [of x1 y1 y0 x0 bmp st] False y by auto
      qed
    qed
  qed (simp add: bmp_rows.simps [of st x0 x1 y0] span_def bmp_bytes_def)
  then show ?thesis using ShowString_None [of st x y chr font] by (auto simp: SSD1306_DrawBMP_def)
qed

end
