(* ===== verification/Libm.thy ===== *)
theory Libm
  imports C_Float
begin

text \<open>
  The routines of \<open>libs/utils/src/math.c\<close> that work on the bits of a floating-point number:
  classification, sign, truncation and rounding to an integer. A \<open>float\<close> or \<open>double\<close> is its bit
  pattern here; \<open>fp_value\<close> is the value the IEEE format gives it. The other functions of the file
  hand their arguments to the SDK.
\<close>

type_synonym u64 = "64 word"

section \<open>The value of a bit pattern\<close>

text \<open>\<open>mb\<close> bits of the significand, \<open>eb\<close> bits of the exponent.\<close>

definition fp_sign :: "nat \<Rightarrow> nat \<Rightarrow> nat \<Rightarrow> bool" where
  "fp_sign mb eb n \<longleftrightarrow> odd (n div 2 ^ (mb + eb))"

definition fp_expo :: "nat \<Rightarrow> nat \<Rightarrow> nat \<Rightarrow> nat" where
  "fp_expo mb eb n = n div 2 ^ mb mod 2 ^ eb"

definition fp_frac :: "nat \<Rightarrow> nat \<Rightarrow> nat" where
  "fp_frac mb n = n mod 2 ^ mb"

definition fp_bias :: "nat \<Rightarrow> nat" where
  "fp_bias eb = 2 ^ (eb - 1) - 1"

definition fp_mag :: "nat \<Rightarrow> nat \<Rightarrow> nat \<Rightarrow> rat" where
  "fp_mag mb eb n =
     (if fp_expo mb eb n = 0 then of_nat (fp_frac mb n) * pow2 (1 - int (fp_bias eb) - int mb)
      else of_nat (2 ^ mb + fp_frac mb n) * pow2 (int (fp_expo mb eb n) - int (fp_bias eb) - int mb))"

definition fp_value :: "nat \<Rightarrow> nat \<Rightarrow> nat \<Rightarrow> fpv" where
  "fp_value mb eb n =
     (if fp_expo mb eb n = 2 ^ eb - 1 then (if fp_frac mb n = 0 then FInf (fp_sign mb eb n) else FNaN)
      else FFin (if fp_sign mb eb n then - fp_mag mb eb n else fp_mag mb eb n))"

abbreviation f32_value :: "u32 \<Rightarrow> fpv" where "f32_value u \<equiv> fp_value 23 8 (unat u)"
abbreviation f64_value :: "u64 \<Rightarrow> fpv" where "f64_value u \<equiv> fp_value 52 11 (unat u)"

section \<open>The routines\<close>

datatype fp_class = FP_NAN | FP_INFINITE | FP_ZERO | FP_SUBNORMAL | FP_NORMAL

definition fpclassify :: "u64 \<Rightarrow> fp_class" where
  "fpclassify u =
     (let e = drop_bit 52 u AND 0x7ff in
      if e = 0 then (if push_bit 1 u \<noteq> 0 then FP_SUBNORMAL else FP_ZERO)
      else if e = 0x7ff then (if push_bit 12 u \<noteq> 0 then FP_NAN else FP_INFINITE)
      else FP_NORMAL)"

definition fpclassifyf :: "u32 \<Rightarrow> fp_class" where
  "fpclassifyf u =
     (let e = drop_bit 23 u AND 0xff in
      if e = 0 then (if push_bit 1 u \<noteq> 0 then FP_SUBNORMAL else FP_ZERO)
      else if e = 0xff then (if push_bit 9 u \<noteq> 0 then FP_NAN else FP_INFINITE)
      else FP_NORMAL)"

definition signbit :: "u64 \<Rightarrow> int" where "signbit u = uint (drop_bit 63 u)"
definition signbitf :: "u32 \<Rightarrow> int" where "signbitf u = uint (drop_bit 31 u)"

definition nan :: "cstr \<Rightarrow> fpv" where "nan s = FNaN"
definition nanf :: "cstr \<Rightarrow> fpv" where "nanf s = FNaN"

definition trunc :: "u64 \<Rightarrow> u64" where
  "trunc u =
     (let e0 = uint (drop_bit 52 u AND 0x7ff) - 0x3ff + 12 in
      if e0 \<ge> 52 + 12 then u
      else
        let e = (if e0 < 12 then 1 else e0); m = drop_bit (nat e) (- 1) in
        if u AND m = 0 then u else u AND NOT m)"

definition truncf :: "u32 \<Rightarrow> u32" where
  "truncf u =
     (let e0 = uint (drop_bit 23 u AND 0xff) - 0x7f + 9 in
      if e0 \<ge> 23 + 9 then u
      else
        let e = (if e0 < 9 then 1 else e0); m = drop_bit (nat e) (- 1) in
        if u AND m = 0 then u else u AND NOT m)"

text \<open>
  \<open>rintf\<close> computes with values. Its result is a sign bit and a value: \<open>-0.0f\<close> and \<open>0.0f\<close> have the
  same value, and a result that is not zero and not the argument itself has the sign of its value.
\<close>

definition toint :: fpv where "toint = FFin (2 ^ 23)"

fun f32_neg :: "fpv \<Rightarrow> fpv" where
  "f32_neg (FFin x) = FFin (- x)"
| "f32_neg (FInf s) = FInf (\<not> s)"
| "f32_neg FNaN = FNaN"

definition f32_sub :: "fpv \<Rightarrow> fpv \<Rightarrow> fpv" where "f32_sub x y = f32_add x (f32_neg y)"

definition rintf :: "u32 \<Rightarrow> bool \<times> fpv" where
  "rintf u =
     (let x = f32_value u; e = uint (drop_bit 23 u AND 0xff); s = drop_bit 31 u in
      if e \<ge> 0x7f + 23 then (s \<noteq> 0, x)
      else
        let y = (if s \<noteq> 0 then f32_add (f32_sub x toint) toint else f32_sub (f32_add x toint) toint) in
        if f32_eq y (FFin 0) then (s \<noteq> 0, FFin 0) else (f32_less y (FFin 0), y))"

text \<open>\<open>rint\<close> is a function of the SDK.\<close>

definition nearbyint :: "('a \<Rightarrow> 'a) \<Rightarrow> 'a \<Rightarrow> 'a" where "nearbyint rint x = rint x"
definition nearbyintf :: "u32 \<Rightarrow> bool \<times> fpv" where "nearbyintf u = rintf u"

section \<open>Bits and fields\<close>

lemma unat_field: "unat (drop_bit n w AND mask k :: 'a::len word) = unat w div 2 ^ n mod 2 ^ k"
  by (simp only: take_bit_eq_mask [symmetric] unsigned_take_bit_eq unat_drop_bit_eq)
    (simp add: take_bit_eq_mod drop_bit_eq_div)

lemma unat_and_not_mask: "unat (w AND NOT (mask k) :: 'a::len word) = unat w div 2 ^ k * 2 ^ k"
proof -
  have "unat (w AND NOT (mask k)) = push_bit k (drop_bit k (unat w))"
    by (rule bit_eqI) (auto simp: bit_simps dest: bit_imp_le_length)
  then show ?thesis by (simp add: push_bit_eq_mult drop_bit_eq_div)
qed

lemma and_mask_zero: "w AND mask k = (0 :: 'a::len word) \<longleftrightarrow> unat w mod 2 ^ k = 0"
proof -
  have "unat (w AND mask k) = unat w mod 2 ^ k" using unat_field [of 0 w k] by simp
  then show ?thesis by (metis unat_0_iff)
qed

lemma drop_bit_ones: "k \<le> LENGTH('a) \<Longrightarrow> drop_bit k (- 1 :: 'a::len word) = mask (LENGTH('a) - k)"
  by (rule bit_word_eqI) (auto simp: bit_simps)

text \<open>Clearing the bits a mask selects, if any is set.\<close>

lemma clear_mask: "unat (if w AND mask k = 0 then w else w AND NOT (mask k) :: 'a::len word) = unat w div 2 ^ k * 2 ^ k"
proof (cases "w AND mask k = 0")
  case True
  then have "unat w mod 2 ^ k = 0" by (simp add: and_mask_zero)
  then show ?thesis using True by (metis add.right_neutral div_mult_mod_eq)
next
  case False
  then show ?thesis by (simp add: unat_and_not_mask)
qed

lemma expo32: "unat (drop_bit 23 (u :: u32) AND 0xff) = fp_expo 23 8 (unat u)"
  using unat_field [of 23 u 8] by (simp add: fp_expo_def mask_eq_exp_minus_1)

lemma expo64: "unat (drop_bit 52 (u :: u64) AND 0x7ff) = fp_expo 52 11 (unat u)"
  using unat_field [of 52 u 11] by (simp add: fp_expo_def mask_eq_exp_minus_1)

text \<open>The sign bit is the top bit.\<close>

lemma unat_drop_top: "unat (drop_bit (LENGTH('a) - 1) w :: 'a::len word) = unat w div 2 ^ (LENGTH('a) - 1) \<and>
    unat w div 2 ^ (LENGTH('a) - 1) < 2"
proof -
  have "unat w < 2 ^ LENGTH('a)" by (rule unsigned_less)
  also have "\<dots> = 2 * 2 ^ (LENGTH('a) - 1)" by (metis Suc_diff_1 len_gt_0 power_Suc)
  finally have "unat w div 2 ^ (LENGTH('a) - 1) < 2" by (rule less_mult_imp_div_less)
  moreover have "unat (drop_bit (LENGTH('a) - 1) w) = unat w div 2 ^ (LENGTH('a) - 1)"
    unfolding unat_drop_bit_eq by (rule drop_bit_eq_div)
  ultimately show ?thesis by blast
qed

lemma sign32: "uint (drop_bit 31 (u :: u32)) = (if fp_sign 23 8 (unat u) then 1 else 0)"
proof -
  have d: "unat (drop_bit 31 u) = unat u div 2 ^ 31" "unat u div 2 ^ 31 < 2" using unat_drop_top [of u] by simp_all
  then have "int (unat (drop_bit 31 u)) = (if fp_sign 23 8 (unat u) then 1 else 0)"
    by (auto simp: fp_sign_def less_2_cases_iff)
  then show ?thesis by simp
qed

lemma sign64: "uint (drop_bit 63 (u :: u64)) = (if fp_sign 52 11 (unat u) then 1 else 0)"
proof -
  have d: "unat (drop_bit 63 u) = unat u div 2 ^ 63" "unat u div 2 ^ 63 < 2" using unat_drop_top [of u] by simp_all
  then have "int (unat (drop_bit 63 u)) = (if fp_sign 52 11 (unat u) then 1 else 0)"
    by (auto simp: fp_sign_def less_2_cases_iff)
  then show ?thesis by simp
qed

section \<open>Truncation\<close>

definition trunc_bits :: "nat \<Rightarrow> nat \<Rightarrow> nat \<Rightarrow> nat" where
  "trunc_bits mb eb n =
     (let e = fp_expo mb eb n; k = (if e < fp_bias eb then mb + eb else fp_bias eb + mb - e) in
      if e \<ge> fp_bias eb + mb then n else n div 2 ^ k * 2 ^ k)"

lemma truncf_bits: "unat (truncf u) = trunc_bits 23 8 (unat u)"
proof -
  let ?e = "fp_expo 23 8 (unat u)"
  have e: "uint (drop_bit 23 u AND 0xff) = int ?e" unfolding expo32 [symmetric] by simp
  show ?thesis
  proof (cases "?e \<ge> 150")
    case True
    then show ?thesis by (simp add: truncf_def e trunc_bits_def fp_bias_def)
  next
    case False
    define k where "k = (if ?e < 127 then 31 else 150 - ?e)"
    have k: "nat (if int ?e - 127 + 9 < 9 then 1 else int ?e - 127 + 9) = 32 - k" using False by (auto simp: k_def)
    have m: "drop_bit (32 - k) (- 1 :: u32) = mask k" using False by (subst drop_bit_ones) (auto simp: k_def)
    have l: "\<not> 23 + 9 \<le> int ?e - 127 + 9" using False by simp
    have "truncf u = (if u AND mask k = 0 then u else u AND NOT (mask k))"
      by (simp only: truncf_def Let_def e k m l if_False)
    then have "unat (truncf u) = unat u div 2 ^ k * 2 ^ k" by (simp only: clear_mask)
    moreover have "trunc_bits 23 8 (unat u) = unat u div 2 ^ k * 2 ^ k"
      using False by (simp add: trunc_bits_def fp_bias_def k_def Let_def)
    ultimately show ?thesis by simp
  qed
qed

lemma trunc_bits64: "unat (trunc u) = trunc_bits 52 11 (unat u)"
proof -
  let ?e = "fp_expo 52 11 (unat u)"
  have e: "uint (drop_bit 52 u AND 0x7ff) = int ?e" unfolding expo64 [symmetric] by simp
  show ?thesis
  proof (cases "?e \<ge> 1075")
    case True
    then show ?thesis by (simp add: trunc_def e trunc_bits_def fp_bias_def)
  next
    case False
    define k where "k = (if ?e < 1023 then 63 else 1075 - ?e)"
    have k: "nat (if int ?e - 1023 + 12 < 12 then 1 else int ?e - 1023 + 12) = 64 - k" using False by (auto simp: k_def)
    have m: "drop_bit (64 - k) (- 1 :: u64) = mask k" using False by (subst drop_bit_ones) (auto simp: k_def)
    have l: "\<not> 52 + 12 \<le> int ?e - 1023 + 12" using False by simp
    have "trunc u = (if u AND mask k = 0 then u else u AND NOT (mask k))"
      by (simp only: trunc_def Let_def e k m l if_False)
    then have "unat (trunc u) = unat u div 2 ^ k * 2 ^ k" by (simp only: clear_mask)
    moreover have "trunc_bits 52 11 (unat u) = unat u div 2 ^ k * 2 ^ k"
      using False by (simp add: trunc_bits_def fp_bias_def k_def Let_def)
    ultimately show ?thesis by simp
  qed
qed

text \<open>Rounding towards zero, and its value on a number with its sign apart.\<close>

fun toward_zero :: "fpv \<Rightarrow> fpv" where
  "toward_zero (FFin v) = FFin (of_int (if v < 0 then - \<lfloor>- v\<rfloor> else \<lfloor>v\<rfloor>))"
| "toward_zero v = v"

lemma toward_zero_sign: "0 \<le> x \<Longrightarrow> toward_zero (FFin (if s then - x else x)) =
    FFin (if s then - of_int \<lfloor>x\<rfloor> else of_int \<lfloor>x\<rfloor>)"
  by (cases "x = 0") auto

lemma fp_mag_nonneg: "0 \<le> fp_mag mb eb n"
  by (simp add: fp_mag_def)

lemma frac_less: "fp_frac mb n < 2 ^ mb"
  by (simp add: fp_frac_def)

lemma frac_less_rat: "of_nat (fp_frac mb n) < (2 ^ mb :: rat)"
proof -
  have "of_nat (fp_frac mb n) < (of_nat (2 ^ mb) :: rat)" by (simp only: of_nat_less_iff frac_less)
  then show ?thesis by simp
qed

lemma pow2_nat: "pow2 (int k) = 2 ^ k" "pow2 (- int k) = 1 / 2 ^ k"
  by (auto simp: pow2_def)

lemma fp_mag_bound: "fp_mag mb eb n < pow2 (int (max 1 (fp_expo mb eb n)) - int (fp_bias eb) + 1)"
proof -
  let ?d = "int (max 1 (fp_expo mb eb n)) - int (fp_bias eb)"
  have "fp_mag mb eb n \<le> of_nat (2 ^ mb + fp_frac mb n) * pow2 (?d - int mb)"
    by (auto simp: fp_mag_def max_def intro!: mult_right_mono)
  also have "\<dots> < 2 ^ (mb + 1) * pow2 (?d - int mb)" using frac_less_rat [of mb n] by (intro mult_strict_right_mono) simp_all
  also have "\<dots> = 2 * (pow2 (?d - int mb) * pow2 (int mb))" by (simp add: pow2_nat)
  also have "\<dots> = pow2 (?d + 1)" using pow2_diff [of ?d "int mb"] pow2_Suc [of ?d] by simp
  finally show ?thesis .
qed

text \<open>Below the bias a number is less than one.\<close>

lemma fp_mag_small:
  assumes "fp_expo mb eb n < fp_bias eb"
  shows "fp_mag mb eb n < 1"
proof (cases "fp_expo mb eb n = 0")
  case True
  have "fp_mag mb eb n < 2 ^ mb * pow2 (1 - int (fp_bias eb) - int mb)"
    using True frac_less_rat [of mb n] by (simp add: fp_mag_def)
  also have "\<dots> = pow2 (1 - int (fp_bias eb))" using pow2_diff [of "1 - int (fp_bias eb)" "int mb"] by (simp add: pow2_nat mult.commute)
  also have "\<dots> \<le> pow2 0" by (rule pow2_mono) (use assms True in simp)
  finally show ?thesis by (simp add: pow2_def)
next
  case False
  have "fp_mag mb eb n < pow2 (int (max 1 (fp_expo mb eb n)) - int (fp_bias eb) + 1)" by (rule fp_mag_bound)
  also have "\<dots> \<le> pow2 0" by (rule pow2_mono) (use assms False in simp)
  finally show ?thesis by (simp add: pow2_def)
qed

lemma clear_low: "k \<le> m \<Longrightarrow> n div 2 ^ k * 2 ^ k = n div 2 ^ m * 2 ^ m + n mod 2 ^ m div 2 ^ k * 2 ^ (k :: nat)" for n :: nat
proof -
  assume k: "k \<le> m"
  have p: "(2 :: nat) ^ m = 2 ^ (m - k) * 2 ^ k" using k by (simp flip: power_add)
  have "n = n div 2 ^ m * 2 ^ m + n mod 2 ^ m" by (rule div_mult_mod_eq [symmetric])
  then have "n div 2 ^ k = (n mod 2 ^ m + n div 2 ^ m * 2 ^ (m - k) * 2 ^ k) div 2 ^ k" by (simp add: p mult.assoc add.commute)
  also have "\<dots> = n div 2 ^ m * 2 ^ (m - k) + n mod 2 ^ m div 2 ^ k" by (simp add: div_mult_self1)
  finally show ?thesis by (simp add: p algebra_simps)
qed

text \<open>The fields of a number whose \<open>k\<close> low bits are cleared.\<close>

lemma clear_fields:
  assumes "k \<le> mb" "n' = n div 2 ^ k * 2 ^ k"
  shows "fp_expo mb eb n' = fp_expo mb eb n" "fp_sign mb eb n' = fp_sign mb eb n"
    "fp_frac mb n' = fp_frac mb n div 2 ^ k * 2 ^ k"
proof -
  let ?f = "fp_frac mb n div 2 ^ k * 2 ^ k"
  have f: "?f < 2 ^ mb" using frac_less [of mb n] by (meson div_times_less_eq_dividend le_less_trans)
  have n': "n' = n div 2 ^ mb * 2 ^ mb + ?f" unfolding assms(2) fp_frac_def by (rule clear_low [OF assms(1)])
  have d: "n' div 2 ^ mb = n div 2 ^ mb" using f by (simp add: n')
  then show "fp_expo mb eb n' = fp_expo mb eb n" by (simp add: fp_expo_def)
  show "fp_sign mb eb n' = fp_sign mb eb n" using d by (simp add: fp_sign_def power_add div_mult2_eq)
  have "n' mod 2 ^ mb = ?f" using f by (simp only: n' mod_mult_self3 mod_less)
  then show "fp_frac mb n' = ?f" by (simp add: fp_frac_def [of mb n'])
qed

lemma trunc_bits_correct:
  assumes "1 \<le> fp_bias eb" "fp_bias eb + mb < 2 ^ eb - 1"
  shows "fp_value mb eb (trunc_bits mb eb n) = toward_zero (fp_value mb eb n)"
    "fp_sign mb eb (trunc_bits mb eb n) = fp_sign mb eb n"
proof -
  let ?e = "fp_expo mb eb n" and ?f = "fp_frac mb n"
  consider "fp_bias eb + mb \<le> ?e" | "?e < fp_bias eb" | "fp_bias eb \<le> ?e" "?e < fp_bias eb + mb" by linarith
  then have "fp_value mb eb (trunc_bits mb eb n) = toward_zero (fp_value mb eb n) \<and>
    fp_sign mb eb (trunc_bits mb eb n) = fp_sign mb eb n"
  proof cases
    case 1
    then have t: "trunc_bits mb eb n = n" by (simp add: trunc_bits_def Let_def)
    define d where "d = ?e - (fp_bias eb + mb)"
    have "int ?e - int (fp_bias eb) - int mb = int d" using 1 by (simp add: d_def)
    then have "fp_mag mb eb n = of_nat (2 ^ mb + ?f) * 2 ^ d" using 1 assms(1) by (simp add: fp_mag_def pow2_nat)
    also have "\<dots> = of_int (int ((2 ^ mb + ?f) * 2 ^ d))" by simp
    finally have "of_int \<lfloor>fp_mag mb eb n\<rfloor> = fp_mag mb eb n" by (metis floor_of_int)
    then have "toward_zero (FFin (if fp_sign mb eb n then - fp_mag mb eb n else fp_mag mb eb n)) =
        FFin (if fp_sign mb eb n then - fp_mag mb eb n else fp_mag mb eb n)"
      using toward_zero_sign [OF fp_mag_nonneg [of mb eb n]] by (simp only:)
    then show ?thesis unfolding t fp_value_def by (simp del: toward_zero.simps add: toward_zero.simps(2,3))
  next
    case 2
    let ?n = "n div 2 ^ (mb + eb) * 2 ^ (mb + eb)"
    have t: "trunc_bits mb eb n = ?n" using 2 by (simp add: trunc_bits_def Let_def)
    have z: "fp_expo mb eb ?n = 0" "fp_frac mb ?n = 0" "fp_sign mb eb ?n = fp_sign mb eb n"
      by (simp_all add: fp_expo_def fp_frac_def fp_sign_def power_add mult.assoc [symmetric])
    have "\<lfloor>fp_mag mb eb n\<rfloor> = 0" using fp_mag_small [OF 2] fp_mag_nonneg [of mb eb n] by (simp add: floor_eq_iff)
    moreover have "?e \<noteq> 2 ^ eb - 1" "2 ^ eb - 1 \<noteq> (0 :: nat)" using 2 assms by linarith+
    ultimately show ?thesis unfolding t using toward_zero_sign [OF fp_mag_nonneg [of mb eb n], of "fp_sign mb eb n"]
      by (auto simp: fp_value_def z fp_mag_def)
  next
    case 3
    define k where "k = fp_bias eb + mb - ?e"
    have k: "k \<le> mb" "0 < k" using 3 by (auto simp: k_def)
    let ?n = "n div 2 ^ k * 2 ^ k"
    have t: "trunc_bits mb eb n = ?n" using 3 by (simp add: trunc_bits_def Let_def k_def)
    note C = clear_fields(1,2) [OF k(1) refl, where n = n and eb = eb] clear_fields(3) [OF k(1) refl, where n = n]
    have p: "int ?e - int (fp_bias eb) - int mb = - int k" using 3 by (simp add: k_def)
    have e0: "?e \<noteq> 0" using 3 assms(1) by linarith
    have m: "fp_mag mb eb n = of_nat (2 ^ mb + ?f) / of_nat (2 ^ k)" using e0 by (simp add: fp_mag_def p pow2_nat)
    have q: "(2 :: nat) ^ mb = 2 ^ (mb - k) * 2 ^ k" using k by (simp flip: power_add)
    have "\<lfloor>fp_mag mb eb n\<rfloor> = int ((2 ^ mb + ?f) div 2 ^ k)" unfolding m by (rule floor_divide_of_nat_eq)
    also have "(2 ^ mb + ?f) div 2 ^ k = 2 ^ (mb - k) + ?f div 2 ^ k" by (simp add: q)
    finally have fl: "of_int \<lfloor>fp_mag mb eb n\<rfloor> = (of_nat (2 ^ (mb - k) + ?f div 2 ^ k) :: rat)" by simp
    have "fp_mag mb eb ?n = of_nat (2 ^ mb + ?f div 2 ^ k * 2 ^ k) / of_nat (2 ^ k)"
      using e0 by (simp add: fp_mag_def C p pow2_nat)
    also have "2 ^ mb + ?f div 2 ^ k * 2 ^ k = (2 ^ (mb - k) + ?f div 2 ^ k) * 2 ^ k" by (simp add: q algebra_simps)
    finally have "fp_mag mb eb ?n = of_int \<lfloor>fp_mag mb eb n\<rfloor>" unfolding fl by simp
    moreover have "?e \<noteq> 2 ^ eb - 1" using 3 assms by linarith
    ultimately show ?thesis unfolding t using toward_zero_sign [OF fp_mag_nonneg [of mb eb n], of "fp_sign mb eb n"]
      by (simp add: fp_value_def C)
  qed
  then show "fp_value mb eb (trunc_bits mb eb n) = toward_zero (fp_value mb eb n)"
    "fp_sign mb eb (trunc_bits mb eb n) = fp_sign mb eb n" by blast+
qed

text \<open>\<open>truncf\<close> and \<open>trunc\<close> round towards zero and keep the sign, of a zero too, for every bit pattern.\<close>

lemma truncf_correct:
  "f32_value (truncf u) = toward_zero (f32_value u)" "signbitf (truncf u) = signbitf u"
  using trunc_bits_correct [of 8 23 "unat u"]
  by (simp_all add: truncf_bits fp_bias_def signbitf_def sign32 del: toward_zero.simps)

lemma trunc_correct:
  "f64_value (trunc u) = toward_zero (f64_value u)" "signbit (trunc u) = signbit u"
  using trunc_bits_correct [of 11 52 "unat u"]
  by (simp_all add: trunc_bits64 fp_bias_def signbit_def sign64 del: toward_zero.simps)

section \<open>Classification\<close>

text \<open>The class of a value; \<open>emin\<close> is the exponent of the smallest normal number.\<close>

fun class_of :: "int \<Rightarrow> fpv \<Rightarrow> fp_class" where
  "class_of emin FNaN = FP_NAN"
| "class_of emin (FInf _) = FP_INFINITE"
| "class_of emin (FFin v) = (if v = 0 then FP_ZERO else if \<bar>v\<bar> < pow2 emin then FP_SUBNORMAL else FP_NORMAL)"

definition class_bits :: "nat \<Rightarrow> nat \<Rightarrow> nat \<Rightarrow> fp_class" where
  "class_bits mb eb n =
     (if fp_expo mb eb n = 0 then (if fp_frac mb n \<noteq> 0 then FP_SUBNORMAL else FP_ZERO)
      else if fp_expo mb eb n = 2 ^ eb - 1 then (if fp_frac mb n \<noteq> 0 then FP_NAN else FP_INFINITE)
      else FP_NORMAL)"

lemma class_bits_correct:
  assumes "2 \<le> eb"
  shows "class_bits mb eb n = class_of (1 - int (fp_bias eb)) (fp_value mb eb n)"
proof -
  have "(2 :: nat) ^ 2 \<le> 2 ^ eb" by (rule power_increasing) (use assms in simp_all)
  then have eb: "2 ^ eb - 1 \<noteq> (0 :: nat)" by simp
  have v: "class_of em (FFin (if s then - x else x)) = class_of em (FFin x)" for em s and x :: rat by simp
  consider "fp_expo mb eb n = 0" | "fp_expo mb eb n = 2 ^ eb - 1" | "fp_expo mb eb n \<noteq> 0" "fp_expo mb eb n \<noteq> 2 ^ eb - 1"
    by blast
  then show ?thesis
  proof cases
    case 1
    let ?m = "fp_mag mb eb n"
    have m: "?m = of_nat (fp_frac mb n) * pow2 (1 - int (fp_bias eb) - int mb)" using 1 by (simp add: fp_mag_def)
    have "?m < 2 ^ mb * pow2 (1 - int (fp_bias eb) - int mb)" using frac_less_rat [of mb n] by (simp add: m)
    also have "\<dots> = pow2 (1 - int (fp_bias eb))"
      using pow2_diff [of "1 - int (fp_bias eb)" "int mb"] by (simp add: pow2_nat mult.commute)
    finally have "class_of (1 - int (fp_bias eb)) (FFin ?m) = (if fp_frac mb n \<noteq> 0 then FP_SUBNORMAL else FP_ZERO)"
      using fp_mag_nonneg [of mb eb n] by (simp add: m)
    then show ?thesis using 1 eb unfolding class_bits_def fp_value_def by (simp add: v del: class_of.simps)
  next
    case 2
    then show ?thesis using eb by (simp add: class_bits_def fp_value_def)
  next
    case 3
    let ?m = "fp_mag mb eb n"
    have "(2 ^ mb :: rat) * pow2 (1 - int (fp_bias eb) - int mb) \<le>
        of_nat (2 ^ mb + fp_frac mb n) * pow2 (int (fp_expo mb eb n) - int (fp_bias eb) - int mb)"
      by (rule mult_mono) (use 3 in \<open>auto intro: pow2_mono\<close>)
    then have "pow2 (1 - int (fp_bias eb)) \<le> ?m"
      using 3 pow2_diff [of "1 - int (fp_bias eb)" "int mb"] by (simp add: fp_mag_def pow2_nat mult.commute)
    then have "0 < ?m" "\<not> \<bar>?m\<bar> < pow2 (1 - int (fp_bias eb))" using pow2_pos [of "1 - int (fp_bias eb)"] by linarith+
    then have "class_of (1 - int (fp_bias eb)) (FFin ?m) = FP_NORMAL" by simp
    then show ?thesis using 3 unfolding class_bits_def fp_value_def by (simp add: v del: class_of.simps)
  qed
qed

text \<open>Shifting the other fields out leaves the significand.\<close>

lemma shift_out:
  fixes w :: "'a::len word"
  assumes "s + mb = LENGTH('a)"
  shows "push_bit s w \<noteq> 0 \<longleftrightarrow> unat w mod 2 ^ mb \<noteq> 0"
proof -
  have "unat (push_bit s w) = take_bit LENGTH('a) (push_bit s (unat w))" by (simp add: unsigned_push_bit_eq)
  also have "\<dots> = push_bit s (take_bit (LENGTH('a) - s) (unat w))" by (simp add: take_bit_push_bit)
  also have "LENGTH('a) - s = mb" using assms by simp
  finally have "unat (push_bit s w) = unat w mod 2 ^ mb * 2 ^ s" by (simp add: push_bit_eq_mult take_bit_eq_mod)
  then show ?thesis by (metis mult_eq_0_iff power_not_zero unat_0_iff zero_neq_numeral)
qed

text \<open>The exponent field is zero or not by the bits below the sign.\<close>

lemma zero_below_sign:
  "fp_expo mb eb n = 0 \<Longrightarrow> n mod 2 ^ (mb + eb) \<noteq> 0 \<longleftrightarrow> fp_frac mb n \<noteq> 0"
  unfolding fp_expo_def fp_frac_def by (simp add: power_add mod_mult2_eq)

lemma fpclassifyf_correct: "fpclassifyf u = class_of (- 126) (f32_value u)"
proof -
  let ?e = "drop_bit 23 u AND 0xff"
  have e: "?e = 0 \<longleftrightarrow> fp_expo 23 8 (unat u) = 0" "?e = 0xff \<longleftrightarrow> fp_expo 23 8 (unat u) = 255"
    unfolding expo32 [symmetric] by (simp_all add: word_unat_eq_iff)
  have s: "push_bit 1 u \<noteq> 0 \<longleftrightarrow> unat u mod 2 ^ 31 \<noteq> 0" "push_bit 9 u \<noteq> 0 \<longleftrightarrow> unat u mod 2 ^ 23 \<noteq> 0"
    by (rule shift_out, simp)+
  have "fpclassifyf u = class_bits 23 8 (unat u)"
    using zero_below_sign [of 23 8 "unat u"] unfolding fpclassifyf_def class_bits_def Let_def e s by (auto simp: fp_frac_def)
  then show ?thesis using class_bits_correct [of 8 23 "unat u"] by (simp add: fp_bias_def del: class_of.simps)
qed

lemma fpclassify_correct: "fpclassify u = class_of (- 1022) (f64_value u)"
proof -
  let ?e = "drop_bit 52 u AND 0x7ff"
  have e: "?e = 0 \<longleftrightarrow> fp_expo 52 11 (unat u) = 0" "?e = 0x7ff \<longleftrightarrow> fp_expo 52 11 (unat u) = 2047"
    unfolding expo64 [symmetric] by (simp_all add: word_unat_eq_iff)
  have s: "push_bit 1 u \<noteq> 0 \<longleftrightarrow> unat u mod 2 ^ 63 \<noteq> 0" "push_bit 12 u \<noteq> 0 \<longleftrightarrow> unat u mod 2 ^ 52 \<noteq> 0"
    by (rule shift_out, simp)+
  have "fpclassify u = class_bits 52 11 (unat u)"
    using zero_below_sign [of 52 11 "unat u"] unfolding fpclassify_def class_bits_def Let_def e s by (auto simp: fp_frac_def)
  then show ?thesis using class_bits_correct [of 11 52 "unat u"] by (simp add: fp_bias_def del: class_of.simps)
qed

section \<open>Rounding to an integer\<close>

text \<open>Between \<open>2 ^ 23\<close> and \<open>2 ^ 24\<close> the floats are the integers, so adding \<open>2 ^ 23\<close> rounds.\<close>

lemma round_unit:
  assumes "2 ^ 23 \<le> \<bar>y\<bar>" "\<bar>y\<bar> < 2 ^ 24"
  shows "f32_round y = FFin (of_int (rne y))"
proof -
  have y: "0 < \<bar>y\<bar>" by (rule less_le_trans [OF _ assms(1)]) simp
  have "ilog2 \<bar>y\<bar> < 24" by (rule ilog2_less [OF y]) (use assms(2) in \<open>simp add: pow2_def\<close>)
  moreover have "\<not> ilog2 \<bar>y\<bar> < 23"
  proof
    assume "ilog2 \<bar>y\<bar> < 23"
    then have "pow2 (ilog2 \<bar>y\<bar> + 1) \<le> pow2 23" by (intro pow2_mono) simp
    then show False using ilog2_bounds [OF y] assms(1) by (simp add: pow2_def)
  qed
  ultimately have i: "ilog2 \<bar>y\<bar> = 23" by linarith
  have "\<bar>of_int (rne y)\<bar> < \<bar>y\<bar> + 1" using rne_error [of y] by linarith
  also have "\<dots> < 2 ^ 24 + 1" using assms(2) by simp
  also have "\<dots> \<le> pow2 128" by (simp add: pow2_def)
  finally have "\<bar>of_int (rne y)\<bar> < pow2 128" .
  then show ?thesis using y i by (simp add: f32_round_def fp_round_def Let_def pow2_def)
qed

lemma rne_shift: "even k \<Longrightarrow> rne (x + of_int k) = rne x + k"
  unfolding rne_def Let_def floor_add_int by simp

lemma rne_less: "\<bar>x\<bar> < 2 ^ 23 \<Longrightarrow> \<bar>rne x\<bar> < 2 ^ 24"
proof -
  assume "\<bar>x\<bar> < 2 ^ 23"
  then have "\<bar>of_int (rne x) :: rat\<bar> < of_int (2 ^ 24)" using rne_error [of x] by (simp, linarith)
  then show ?thesis by (simp only: of_int_abs [symmetric] of_int_less_iff)
qed

lemma round_int: "\<bar>k\<bar> < 2 ^ 24 \<Longrightarrow> f32_round (of_int k) = FFin (of_int k)"
  using f32_of_int_exact [of k] by (simp add: f32_of_int_def)

lemma add_toint:
  assumes "0 \<le> x" "x < 2 ^ 23"
  shows "f32_sub (f32_add (FFin x) toint) toint = FFin (of_int (rne x))"
proof -
  have "f32_round (x + 2 ^ 23) = FFin (of_int (rne (x + 2 ^ 23)))" by (rule round_unit) (use assms in auto)
  moreover have "rne (x + 2 ^ 23) = rne x + 2 ^ 23" using rne_shift [of "2 ^ 23" x] by simp
  ultimately show ?thesis using round_int [OF rne_less, of x] assms by (simp add: f32_sub_def toint_def)
qed

lemma sub_toint:
  assumes "x \<le> 0" "- (2 ^ 23) < x"
  shows "f32_add (f32_sub (FFin x) toint) toint = FFin (of_int (rne x))"
proof -
  have "f32_round (x - 2 ^ 23) = FFin (of_int (rne (x - 2 ^ 23)))" by (rule round_unit) (use assms in auto)
  moreover have "rne (x - 2 ^ 23) = rne x - 2 ^ 23" using rne_shift [of "- (2 ^ 23)" x] by simp
  ultimately show ?thesis using round_int [OF rne_less, of x] assms by (simp add: f32_sub_def toint_def)
qed

lemma rne_nonpos: "x \<le> 0 \<Longrightarrow> rne x \<le> 0"
proof -
  assume "x \<le> 0"
  then have "(of_int (rne x) :: rat) < 1" using rne_error [of x] by linarith
  then show ?thesis by simp
qed

text \<open>\<open>rintf\<close> rounds to the nearest integer, ties to even; infinities and NaN stay.\<close>

fun nearest :: "fpv \<Rightarrow> fpv" where
  "nearest (FFin v) = FFin (of_int (rne v))"
| "nearest v = v"

lemma rintf_correct: "rintf u = (signbitf u = 1, nearest (f32_value u))"
proof -
  let ?n = "unat u" and ?e = "fp_expo 23 8 (unat u)" and ?m = "fp_mag 23 8 (unat u)"
  have e: "uint (drop_bit 23 u AND 0xff) = int ?e" unfolding expo32 [symmetric] by simp
  have "drop_bit 31 u \<noteq> 0 \<longleftrightarrow> uint (drop_bit 31 u) \<noteq> 0" by (simp only: uint_0_iff)
  then have s: "drop_bit 31 u \<noteq> 0 \<longleftrightarrow> fp_sign 23 8 ?n" "signbitf u = 1 \<longleftrightarrow> fp_sign 23 8 ?n"
    unfolding signbitf_def sign32 by simp_all
  show ?thesis
  proof (cases "150 \<le> ?e")
    case True
    have "nearest (f32_value u) = f32_value u"
    proof (cases "?e = 255")
      case False
      define d where "d = ?e - 150"
      have "int ?e - 127 - 23 = int d" using True by (simp add: d_def)
      then have "?m = of_nat (2 ^ 23 + fp_frac 23 ?n) * 2 ^ d" using True by (simp add: fp_mag_def fp_bias_def pow2_nat)
      also have "\<dots> = of_int (int ((2 ^ 23 + fp_frac 23 ?n) * 2 ^ d))" by simp
      finally obtain k where m: "?m = of_int k" by blast
      have "- ?m = of_int (- k)" by (simp add: m)
      then show ?thesis using False rne_of_int [of "- k"] unfolding fp_value_def by (simp add: m)
    qed (simp add: fp_value_def)
    then show ?thesis using True s by (simp add: rintf_def e Let_def)
  next
    case False
    then have v: "f32_value u = FFin (if fp_sign 23 8 ?n then - ?m else ?m)" by (simp add: fp_value_def)
    have m: "0 \<le> ?m" by (rule fp_mag_nonneg)
    have "?m < pow2 (int (max 1 ?e) - int (fp_bias 8) + 1)" by (rule fp_mag_bound)
    also have "\<dots> \<le> pow2 23" by (rule pow2_mono) (use False in \<open>simp add: fp_bias_def\<close>)
    finally have m23: "?m < 2 ^ 23" by (simp add: pow2_def)
    show ?thesis
      using add_toint [OF m m23] sub_toint [of "- ?m"] rne_nonneg [of ?m] rne_nonpos [of "- ?m"] m m23 False v s
      by (auto simp: rintf_def e Let_def)
  qed
qed

text \<open>C20. The routines that work on the bits of a number agree with what they mean for its value, for
  every bit pattern of a \<open>float\<close> and a \<open>double\<close>, subnormals, zeros, infinities and NaN included: the
  class is that of the value, \<open>trunc\<close> and \<open>truncf\<close> round towards zero and keep the sign bit, and
  \<open>rintf\<close>, which adds and takes away 8388608, gives the nearest integer, ties to even, with the sign
  bit of its argument, also for a zero.\<close>

theorem bit_routines_correct:
  "fpclassifyf f = class_of (- 126) (f32_value f) \<and> fpclassify d = class_of (- 1022) (f64_value d) \<and>
   f32_value (truncf f) = toward_zero (f32_value f) \<and> signbitf (truncf f) = signbitf f \<and>
   f64_value (trunc d) = toward_zero (f64_value d) \<and> signbit (trunc d) = signbit d \<and>
   rintf f = (signbitf f = 1, nearest (f32_value f))"
  using fpclassifyf_correct fpclassify_correct truncf_correct trunc_correct rintf_correct by blast

end
