(* ===== verification/Spec2Isabelle.thy ===== *)
theory Spec2Isabelle
  imports End_To_End Nmea_Typing Shared_Record Gps_Agps Ntp Lcd_Ili9341 Lcd_Ssd1306 Libm
begin

text \<open>
  The firmware of a GPS tracker built on the A9G module: a verification of its C sources.

  \<^bold>\<open>The program.\<close> The GPS receiver writes NMEA text to a UART. The event task
  (\<open>app/src/system.c\<close>) hands each piece to the GPS driver (\<open>libs/gps/src/gps.c\<close>), which keeps it
  in a ring buffer (\<open>libs/utils/src/buffer.c\<close>), cuts frames of sentences, logs them to the memory
  card and has them parsed (\<open>gps_parse.c\<close>, \<open>minmea.c\<close>). The event task then converts the last
  sentences to a position record (\<open>gps_tracker.c\<close>). A second task posts the record to a server
  by HTTP (\<open>http.c\<close>) while a network connection is up, which \<open>network.c\<close> sets up and watches. A
  text message asking for the location is answered with the record (\<open>sms_service.c\<close>), two LEDs
  show the status (\<open>led_handler.c\<close>), and a user configures the device by commands on another
  UART (\<open>config_commands.c\<close>) that change a configuration kept in a file (\<open>config_store.c\<close>,
  \<open>config_validation.c\<close>). Every part logs through \<open>debug.c\<close>. The repository also has drivers for
  two displays (\<open>libs/lcd\<close>), which an application may link.

  \<^bold>\<open>How the code is modelled.\<close> Each C function is a function of the state it reads and changes;
  static and global variables are fields of the component's state record. What a function does
  outside the memory (UART output, file writes, socket and timer calls) is a list of \<open>effect\<close>s
  in the order of the calls. Answers of the vendor SDK (results of socket and file calls, memory,
  clocks, numbers of the network) are arguments, grouped in records such as \<open>gps_env\<close>,
  \<open>net_env\<close>, \<open>cmd_env\<close>, \<open>tracker_env\<close> or \<open>sys_env\<close>; no law about them is assumed unless a theorem states it.
  Integers have the width of the source as words wherever wrap-around can be observed, and C's
  \<open>float\<close> and \<open>double\<close> are rationals rounded after each operation, with infinities and NaN. A C
  string is a list of characters; a \<open>char\<close> array is the list up to its terminator, and writing
  past an array is \<open>None\<close> where the code can do so. A loop that may run for ever is a
  \<open>partial_function (option)\<close> whose \<open>None\<close> means that it does not return: the frame cutter
  \<open>update_loop\<close>, the file loader \<open>load_loop\<close>, the message decoder \<open>ucs2_loop\<close>, and text and pictures
  on a display (\<open>show_loop\<close>, \<open>bmp_rows\<close>). Where they do return is proved (\<open>EventHandler_returns\<close>,
  \<open>ConfigStore_Load_lines\<close>, \<open>SmsReceivedCallback_answers\<close>, \<open>SSD1306_draw_returns\<close>). The other loops are structural or have a measure; the receiving
  loops of \<open>Http\<close> and \<open>Ntp\<close> recurse on the list of the answers of the SDK.

  \<^bold>\<open>The theories, from the bottom up.\<close>

  \<^item> \<open>C_Prelude\<close>, \<open>C_Float\<close>, \<open>C_Stdlib\<close>: characters, C strings and their searches, fixed-size
    buffers, the type of effects; IEEE arithmetic; \<open>strtol\<close>, \<open>strtoul\<close>, \<open>strtod\<close> of
    \<open>libs/utils/src/stdlib.c\<close> and the formatter, with lemmas that read a printed number back.
  \<^item> \<open>Platform_Utils\<close>: the allocation wrappers, \<open>hal_gpio.c\<close>, \<open>time.c\<close>, \<open>assert.c\<close>,
    \<open>api_debug.c\<close>; for which arguments the memory dump stays inside its buffers.
  \<^item> \<open>Libm\<close> (the bit routines of \<open>libs/utils/src/math.c\<close>): classification, truncation and rounding
    of bit patterns against the IEEE value of the pattern.
  \<^item> \<open>Utils\<close> (\<open>app/src/utils.c\<close>): calendar arithmetic against a closed day count, comparison
    ignoring case, trimming, sizes, signal percentage.
  \<^item> \<open>Ring_Buffer\<close> (\<open>buffer.c\<close>): refinement of the index arithmetic to a bounded queue, through
    the locale \<open>fifo\<close> and its interpretation; searching with wrap-around.
  \<^item> \<open>Config_Validation\<close> (\<open>config_validation.c\<close>, the table of \<open>config_store.h\<close>): validators keep
    the configuration well formed (locale \<open>config_validator\<close>, interpreted for each of them), and
    each row of the table reads back what it writes (locale \<open>config_param\<close>, interpreted for each row).
  \<^item> \<open>Debug_Log\<close> (\<open>debug.c\<close>): the level filter and the choice of the output.
  \<^item> \<open>Config_Store\<close> (\<open>config_store.c\<close>): the chunked loader does what parsing each line does; a
    saved configuration is loaded back; initialisation from any file.
  \<^item> \<open>Minmea_Types\<close>, \<open>Minmea\<close> (\<open>minmea.h\<close>, \<open>minmea.c\<close>): fixed-point values and coordinates with
    an error bound; the checksum; the scanner; sentences as a receiver prints them are read back.
  \<^item> \<open>Gps_Parse\<close> (\<open>gps_parse.c\<close>): a frame is handled sentence by sentence, in order.
    \<open>Nmea_Typing\<close>: what the scanner stores through its untyped arguments fits its format, so the
    records keep their types whatever the receiver sends.
  \<^item> \<open>Gps_Driver\<close>, \<open>Gps_Protocol\<close>, \<open>Gps_Agps\<close> (\<open>gps.c\<close>): frame cutting refined to a function on
    lists; the PGKC commands and their acknowledgements in any chunking (locale \<open>gps_setting\<close>,
    interpreted for every setting); upload of the orbit file.
  \<^item> \<open>System_Status\<close> (\<open>system.h\<close>): the status flags, one locale interpreted for each bit.
  \<^item> \<open>Network\<close> (\<open>network.c\<close>), \<open>Http\<close> (\<open>http.c\<close>), \<open>Tracker\<close> (\<open>gps_tracker.c\<close>), \<open>Sms\<close>
    (\<open>sms_service.c\<close>), \<open>Led\<close> (\<open>led_handler.c\<close>), \<open>Ntp\<close> (\<open>libs/utils/src/ntp.c\<close>): when an activation
    starts and with which access point; that every socket and SSL object is closed on every path;
    what one turn of the reporting task does; to whom a message is answered; the pattern of the
    LEDs; the clock computed from a time server's reply.
  \<^item> \<open>Config_Commands\<close> (\<open>config_commands.c\<close>): the sorted command index, the dispatcher and every
    handler.
  \<^item> \<open>System_Events\<close> (\<open>system.c\<close>): start-up, the event handler and the whole program as a step
    relation \<open>sys_step\<close>. A step is one event of the event task, one callback of the network, one tick of
    the network monitor or of the LEDs, one turn of the reporting task, or the set-up of the
    receiver. \<open>sys_run_invariant\<close>: after start-up every sequence of steps keeps the whole state
    well formed.
  \<^item> \<open>Shared_Record\<close> (\<open>gps_tracker.c\<close>): the assignments to the position record and the reads of it
    by the other task as interleaved steps (\<open>sh_step\<close>); which reports there are, and that the
    assignments refine \<open>gps_Process\<close>.
  \<^item> \<open>Lcd_Ili9341\<close> (\<open>ili9341.c\<close>): the lock of the display as the locale \<open>mutex\<close>, interpreted on
    the driver's; drawing, sleep and the end of transfers as a step relation \<open>lcd_step\<close>.
    \<open>Lcd_Ssd1306\<close> (\<open>ssd1306.c\<close>): what the panel's memory holds after clearing and after a full
    picture, read from the bytes on the bus; when drawing returns.
  \<^item> \<open>Event_Returns\<close>: on which events the handler returns. \<open>End_To_End\<close>: a position travels from
    the bytes of the receiver to the answer of a text message and to the form posted to the server.

  \<^bold>\<open>Bounds.\<close> There is no fuel in a theorem: recursion ends by structure or by a measure. The bounds that
  statements carry are those of the code: 65535 bytes in one call of the ring buffer (its
  16-bit length), 1024 bytes of the driver's NMEA buffer, 80 characters of a
  sentence in \<open>minmea_check\<close> besides its line end, 255 characters of a configuration line, less than 65535
  bytes of a text message (the decoder's 16-bit counter) and the sizes of the \<open>char\<close> arrays.

  \<^bold>\<open>What is not modelled.\<close> A step of \<open>sys_step\<close> is atomic: the tasks of the SDK share the position
  record, the status byte and the network state without locks. Only for the position record is an
  interruption in the middle of a handler part of the model (\<open>Shared_Record\<close>), which shows what a
  report can then hold; elsewhere other tasks are seen through the arguments of a handler. The SDK itself (\<open>src/platform\<close>, \<open>src/include\<close>) is a binary and stays a parameter; bytes
  given to a call that failed are not in the log, though the SDK may have sent some of them. \<open>free\<close> and
  the release of buffers have no effect on any result and are left out; a missing release is
  noted where the code lacks it. Formatting conversions other than those the tracker uses, and
  the trace lines of \<open>NTP_Update\<close>'s loop, are left out. A bus
  operation of a display that the SDK refuses is repeated by the driver, and only the accepted one
  is an effect; the pin registers of \<open>ili9341.c\<close> are left out, as is the state of floating-point
  exceptions. The functions of \<open>math.c\<close> that hand their argument to the SDK are parameters like it.
  The libraries \<open>lvgl\<close>, \<open>cjson\<close> and \<open>aliyun\<close>, the logarithms \<open>log2.c\<close> and \<open>log2f.c\<close>, the
  demos and \<open>src/init\<close> are third-party code or examples that the tracker's own code does not call.
\<close>

end
